(* ===== verification/Prelude.thy ===== *)
theory Prelude
  imports Main "HOL-Library.Word" "HOL-Library.Monad_Syntax"
begin

text \<open>
  What every theory of the development shares: the machine types, the fault monad, the
  lemma collections and a few generic facts about options and lists.

  The C code runs on 32-bit big-endian MIPS boards.  An \<open>int\<close>, an \<open>unsigned int\<close>, an
  \<open>unsigned long\<close> and a \<open>size_t\<close> are 32 bits wide, a pointer is an address with 0 for
  \<open>NULL\<close>, and a \<open>char\<close> is a byte.

  A computation that reaches a failed \<open>assert\<close>, dereferences \<open>NULL\<close> or freed memory, frees a
  block twice, accesses an array out of its bounds or does not return is \<open>None\<close>; one that
  returns is \<open>Some\<close> of its result, error codes of the C code included.  So a theorem that an
  operation equals \<open>Some r\<close> says that it is memory safe, that it returns and what it returns.
\<close>

type_synonym u8 = "8 word"
type_synonym u16 = "16 word"
type_synonym u32 = "32 word"
type_synonym u64 = "64 word"
type_synonym addr = nat
type_synonym 'a exec = "'a option"

named_theorems heap_simps \<open>reading a heap after an update\<close>
named_theorems c_string \<open>evaluation of the C string functions\<close>
named_theorems session_simps \<open>the session tables\<close>

text \<open>Addition of \<open>int\<close>s; overflow is undefined.\<close>

definition s32_add :: "int \<Rightarrow> int \<Rightarrow> int exec" where
  "s32_add a b = (if - 2147483648 \<le> a + b \<and> a + b \<le> 2147483647 then Some (a + b) else None)"

text \<open>Return codes (\<open>nbu/nbu.h\<close>, \<open>ewf/ewf.h\<close>) and C truth values.\<close>

abbreviation (input) NBU_SUCCESS :: int where "NBU_SUCCESS \<equiv> 0"
abbreviation (input) NBU_ERROR :: int where "NBU_ERROR \<equiv> - 1"
abbreviation (input) EWF_SUCCESS :: int where "EWF_SUCCESS \<equiv> 0"
abbreviation (input) EWF_ERROR :: int where "EWF_ERROR \<equiv> - 1"
abbreviation (input) NBU_STRING_EQUAL :: int where "NBU_STRING_EQUAL \<equiv> 0"
abbreviation (input) NBU_STRING_DIFFERENT :: int where "NBU_STRING_DIFFERENT \<equiv> - 1"

subsection \<open>The fault monad\<close>

definition guard :: "bool \<Rightarrow> unit exec" where
  "guard b = (if b then Some () else None)"

lemma guard_True [simp]: "guard True = Some ()"
  by (simp add: guard_def)

lemma guard_False [simp]: "guard False = None"
  by (simp add: guard_def)

lemma bind_Some_iff: "Option.bind x f = Some y \<longleftrightarrow> (\<exists>z. x = Some z \<and> f z = Some y)"
  by (cases x) auto

subsection \<open>Lists\<close>

lemma last_tl_append [simp]: "last (xs @ [x]) = x"
  by simp

lemma butlast_snoc_rotate: "xs \<noteq> [] \<Longrightarrow> butlast (xs @ ys @ [hd xs]) = xs @ ys"
  by (simp add: butlast_append)

lemma take_Suc_snoc: "i < length xs \<Longrightarrow> take (Suc i) xs = take i xs @ [xs ! i]"
  by (rule take_Suc_conv_app_nth)

lemma distinct_nth_split:
  assumes "distinct xs" and "i < length xs"
  shows "xs ! i \<notin> set (take i xs)" and "xs ! i \<notin> set (drop (Suc i) xs)"
proof -
  have "xs = take i xs @ xs ! i # drop (Suc i) xs"
    using assms(2) by (rule id_take_nth_drop)
  with assms(1) have "distinct (take i xs @ xs ! i # drop (Suc i) xs)"
    by simp
  then show "xs ! i \<notin> set (take i xs)" and "xs ! i \<notin> set (drop (Suc i) xs)"
    by auto
qed

lemma take_eq_short: "length s < n \<Longrightarrow> take n s = take n t \<longleftrightarrow> s = t"
proof (cases "length t < n")
  case False
  assume "length s < n"
  then have "length (take n s) \<noteq> length (take n t)" using False by simp
  then have "take n s \<noteq> take n t" by metis
  then show ?thesis by auto
qed simp

lemma nat_one_plus_int [simp]: "nat (1 + int n) = Suc n"
  by linarith

subsection \<open>Words\<close>

lemma of_nat_Suc_word [simp]: "(of_nat (Suc n) :: 'a::len word) = of_nat n + 1"
  by simp

lemma unat_of_nat_u32 [simp]: "n < 2 ^ 32 \<Longrightarrow> unat (of_nat n :: u32) = n"
  by (simp add: unat_of_nat take_bit_nat_eq_self)

lemma unat_u32_less [simp]: "unat (w :: u32) < 2 ^ 32"
  using unsigned_less [of w] by simp

lemma of_nat_u32_eq: "n < 2 ^ 32 \<Longrightarrow> of_nat n = (w :: u32) \<longleftrightarrow> n = unat w"
  by (simp add: word_unat_eq_iff)

lemma signed_take_bit_31:
  assumes "0 \<le> k" and "k < 4294967296"
  shows "signed_take_bit 31 (k::int) = (if k < 2147483648 then k else k - 4294967296)"
proof (cases "k < 2147483648")
  case True
  then show ?thesis using assms by (simp add: signed_take_bit_int_eq_self)
next
  case False
  have "signed_take_bit 31 k = signed_take_bit 31 (k - 4294967296)"
    by (rule signed_take_bit_eq_iff_take_bit_eq [THEN iffD2]) (simp add: take_bit_eq_mod)
  also have "\<dots> = k - 4294967296"
    using False assms by (intro signed_take_bit_int_eq_self) simp_all
  finally show ?thesis using False by simp
qed

lemma sint_u32: "sint (w :: u32) = (if uint w < 2147483648 then uint w else uint w - 4294967296)"
proof -
  have "uint w < 4294967296" using uint_bounded [of w] by simp
  from signed_take_bit_31 [OF uint_nonnegative this] show ?thesis
    by (simp only: sint_uint) simp
qed

lemma sint_u32_nonneg: "0 \<le> sint (w :: u32) \<longleftrightarrow> unat w < 2147483648"
proof -
  have "uint w < 4294967296" using uint_bounded [of w] by simp
  moreover have "int (unat w) = uint w" by simp
  moreover have "0 \<le> uint w" by simp
  ultimately show ?thesis unfolding sint_u32 by presburger
qed
lemma sint_u32_small: "unat w < 2147483648 \<Longrightarrow> sint (w :: u32) = int (unat w)"
proof -
  assume "unat w < 2147483648"
  moreover have "int (unat w) = uint w" by simp
  ultimately show ?thesis unfolding sint_u32 by presburger
qed

end
