(* ===== verification/Ring.thy ===== *)
theory Ring
  imports Prelude
begin

text \<open>
  Circular doubly linked lists, the shape that both list libraries of the firmware keep in
  memory: \<open>nbu_list_t\<close> of libnbu and \<open>struct list_head\<close> of libetk.  A ring is a list of
  distinct addresses whose successors and predecessors follow the list and close it.  The
  first address is the sentinel (the root node or the list head).
\<close>

fun linked :: "(addr \<Rightarrow> addr) \<Rightarrow> (addr \<Rightarrow> addr) \<Rightarrow> addr list \<Rightarrow> bool" where
  "linked n p [] = True"
| "linked n p [x] = True"
| "linked n p (x # y # zs) = (n x = y \<and> p y = x \<and> linked n p (y # zs))"

definition ring :: "(addr \<Rightarrow> addr) \<Rightarrow> (addr \<Rightarrow> addr) \<Rightarrow> addr list \<Rightarrow> bool" where
  "ring n p xs \<longleftrightarrow> xs \<noteq> [] \<and> distinct xs \<and> linked n p (xs @ [hd xs])"

lemma linked_append:
  "linked n p (xs @ y # zs) \<longleftrightarrow> linked n p (xs @ [y]) \<and> linked n p (y # zs)"
  by (induction n p xs rule: linked.induct) (cases zs; auto)+

lemma linked_snoc:
  "xs \<noteq> [] \<Longrightarrow> linked n p (xs @ [y]) \<longleftrightarrow> linked n p xs \<and> n (last xs) = y \<and> p y = last xs"
  by (induction n p xs rule: linked.induct) auto

lemma linked_cong:
  assumes "\<And>x. x \<in> set (butlast xs) \<Longrightarrow> n' x = n x"
    and "\<And>x. x \<in> set (tl xs) \<Longrightarrow> p' x = p x"
  shows "linked n' p' xs \<longleftrightarrow> linked n p xs"
  using assms
proof (induction n p xs rule: linked.induct)
  case (3 n p x y zs)
  have "linked n' p' (y # zs) \<longleftrightarrow> linked n p (y # zs)"
    by (rule "3.IH") (use "3.prems" in \<open>auto dest: in_set_butlastD\<close>)
  with "3.prems" show ?case by auto
qed simp_all

lemma ring_cong:
  assumes "\<And>x. x \<in> set xs \<Longrightarrow> n' x = n x" and "\<And>x. x \<in> set xs \<Longrightarrow> p' x = p x"
  shows "ring n' p' xs \<longleftrightarrow> ring n p xs"
proof (cases xs)
  case Nil
  then show ?thesis by (simp add: ring_def)
next
  case (Cons x ys)
  have "linked n' p' (xs @ [hd xs]) \<longleftrightarrow> linked n p (xs @ [hd xs])"
    by (rule linked_cong) (use assms Cons in \<open>auto simp: butlast_append split: if_splits\<close>)
  then show ?thesis by (simp add: ring_def)
qed

lemma ring_rotate1: "ring n p (x # xs) \<Longrightarrow> ring n p (xs @ [x])"
proof (cases xs)
  case (Cons y ys)
  assume "ring n p (x # xs)"
  then have d: "distinct (x # xs)" and l: "linked n p (x # (xs @ [x]))"
    by (simp_all add: ring_def)
  from l Cons have l': "linked n p (xs @ [x])" and nx: "n x = y" "p y = x"
    by auto
  have "linked n p ((xs @ [x]) @ [y])"
    using l' nx by (subst linked_snoc) auto
  with d Cons show ?thesis by (simp add: ring_def)
qed (simp add: ring_def)

lemma ring_rotate: "ring n p (xs @ ys) \<Longrightarrow> ring n p (ys @ xs)"
proof (induction xs arbitrary: ys)
  case (Cons x xs)
  then have "ring n p (xs @ (ys @ [x]))"
    using ring_rotate1 [of n p x "xs @ ys"] by simp
  from Cons.IH [OF this] show ?case by simp
qed simp

lemma ring_single [simp]: "ring n p [r] \<longleftrightarrow> n r = r \<and> p r = r"
  by (auto simp: ring_def)

lemma ring_distinct: "ring n p xs \<Longrightarrow> distinct xs"
  by (simp add: ring_def)

lemma ring_nonempty [dest]: "ring n p xs \<Longrightarrow> xs \<noteq> []"
  by (simp add: ring_def)

subsection \<open>Reading the links of a ring\<close>

lemma ring_next: "ring n p (xs @ x # y # ys) \<Longrightarrow> n x = y"
  by (simp add: ring_def) (metis append_Cons append_assoc linked.simps(3) linked_append)

lemma ring_prev: "ring n p (xs @ x # y # ys) \<Longrightarrow> p y = x"
  by (simp add: ring_def) (metis append_Cons append_assoc linked.simps(3) linked_append)

lemma ring_next_hd: "ring n p (x # xs) \<Longrightarrow> n x = hd (xs @ [x])"
  by (cases xs) (auto simp: ring_def)

lemma ring_prev_hd: "ring n p (x # xs) \<Longrightarrow> p x = last (x # xs)"
proof -
  assume "ring n p (x # xs)"
  then have "linked n p ((x # xs) @ [x])" by (simp add: ring_def)
  then show ?thesis by (subst (asm) linked_snoc) simp_all
qed

lemma ring_next_last: "ring n p (x # xs) \<Longrightarrow> n (last (x # xs)) = x"
proof -
  assume "ring n p (x # xs)"
  then have "linked n p ((x # xs) @ [x])" by (simp add: ring_def)
  then show ?thesis by (subst (asm) linked_snoc) simp_all
qed

lemma ring_next_nth:
  assumes "ring n p xs" and "i < length xs"
  shows "n (xs ! i) = xs ! (if Suc i = length xs then 0 else Suc i)"
proof -
  have r: "ring n p (drop i xs @ take i xs)"
    using assms(1) by (simp add: ring_rotate [of n p "take i xs"])
  have dr: "drop i xs = xs ! i # drop (Suc i) xs"
    using assms(2) by (simp add: Cons_nth_drop_Suc)
  from r dr have nx: "n (xs ! i) = hd ((drop (Suc i) xs @ take i xs) @ [xs ! i])"
    using ring_next_hd [of n p "xs ! i" "drop (Suc i) xs @ take i xs"] by simp
  show ?thesis
  proof (cases "Suc i = length xs")
    case True
    with nx assms(2) show ?thesis
      by (cases i) (auto simp: hd_append hd_conv_nth)
  next
    case False
    with nx assms(2) show ?thesis
      by (simp add: hd_append hd_drop_conv_nth)
  qed
qed

lemma ring_prev_nth:
  assumes "ring n p xs" and "i < length xs"
  shows "p (xs ! i) = xs ! (if i = 0 then length xs - 1 else i - 1)"
proof -
  let ?j = "if i = 0 then length xs - 1 else i - 1"
  have "ring n p (drop i xs @ take i xs)"
    using assms(1) by (simp add: ring_rotate [of n p "take i xs"])
  moreover have "drop i xs = xs ! i # drop (Suc i) xs"
    using assms(2) by (simp add: Cons_nth_drop_Suc)
  ultimately have px: "p (xs ! i) = last (xs ! i # drop (Suc i) xs @ take i xs)"
    using ring_prev_hd [of n p "xs ! i" "drop (Suc i) xs @ take i xs"] by simp
  show ?thesis
  proof (cases i)
    case 0
    with px assms(2) show ?thesis
      by (cases xs) (auto simp: last_conv_nth)
  next
    case (Suc k)
    with px assms(2) show ?thesis
      by (simp add: take_Suc_conv_app_nth)
  qed
qed

lemma ring_closed:
  assumes "ring n p xs" and "x \<in> set xs"
  shows "n x \<in> set xs" and "p x \<in> set xs"
proof -
  obtain i where "i < length xs" "x = xs ! i" using assms(2) by (auto simp: in_set_conv_nth)
  then show "n x \<in> set xs" and "p x \<in> set xs"
    using assms(1) by (auto simp: ring_next_nth ring_prev_nth)
qed

lemma ring_inverse:
  assumes "ring n p xs" and "x \<in> set xs"
  shows "p (n x) = x" and "n (p x) = x"
proof -
  obtain ys zs where xs: "xs = ys @ x # zs" using assms(2) by (auto simp: in_set_conv_decomp)
  then have r: "ring n p (x # zs @ ys)" using assms(1) ring_rotate [of n p ys "x # zs"] by simp
  then have r': "ring n p ((zs @ ys) @ [x])" by (rule ring_rotate1)
  have nx: "n x = hd ((zs @ ys) @ [x])" using ring_next_hd [OF r] by simp
  have "ring n p (n x # tl ((zs @ ys) @ [x]))" using r' nx by (cases "zs @ ys") auto
  from ring_prev_hd [OF this] show "p (n x) = x"
    using nx by (cases "zs @ ys") auto
  have "p x = last (x # zs @ ys)" by (rule ring_prev_hd [OF r])
  with ring_next_last [OF r] show "n (p x) = x" by simp
qed

subsection \<open>Insertion and removal\<close>

lemma ring_insert_hd:
  assumes r: "ring n p (a # bs)" and x: "x \<notin> set (a # bs)"
  shows "ring (n(a := x, x := n a)) (p(n a := x, x := a)) (a # x # bs)"
proof -
  let ?n = "n(a := x, x := n a)" and ?p = "p(n a := x, x := a)"
  obtain b ds where cs: "bs @ [a] = b # ds" by (cases bs) auto
  from r have d: "distinct (a # bs)" and l: "linked n p (a # bs @ [a])"
    by (simp_all add: ring_def)
  from l cs have na: "n a = b" and pb: "p b = a" and l': "linked n p (b # ds)" by auto
  have bl: "butlast (b # ds) = bs" by (metis butlast_snoc cs)
  have b_ds: "b \<notin> set ds"
    using cs d by (cases bs) auto
  have "linked ?n ?p (b # ds) \<longleftrightarrow> linked n p (b # ds)"
  proof (rule linked_cong)
    fix y assume "y \<in> set (butlast (b # ds))"
    then have "y \<in> set bs" by (simp only: bl)
    with d x show "?n y = n y" by auto
  next
    fix y assume y: "y \<in> set (tl (b # ds))"
    then have "y \<in> set (bs @ [a])" by (simp add: cs)
    with x have "y \<noteq> x" by auto
    moreover from y b_ds have "y \<noteq> b" by auto
    ultimately show "?p y = p y" by (simp add: na)
  qed
  with l' have "linked ?n ?p (b # ds)" by simp
  moreover have "b \<noteq> x" using cs x by (cases bs) auto
  moreover have "a \<noteq> x" using x by simp
  ultimately have "linked ?n ?p (a # x # b # ds)" by (auto simp: na)
  then show ?thesis using d x by (auto simp: ring_def cs [symmetric])
qed

lemma ring_insert:
  assumes r: "ring n p (as @ a # bs)" and x: "x \<notin> set (as @ a # bs)"
  shows "ring (n(a := x, x := n a)) (p(n a := x, x := a)) (as @ a # x # bs)"
proof -
  from r have "ring n p (a # bs @ as)" using ring_rotate [of n p as "a # bs"] by simp
  then have "ring (n(a := x, x := n a)) (p(n a := x, x := a)) (a # x # bs @ as)"
    using x by (intro ring_insert_hd) auto
  then show ?thesis
    using ring_rotate [of _ _ "a # x # bs" as] by simp
qed

lemma ring_remove_hd:
  assumes r: "ring n p (x # bs)" and ne: "bs \<noteq> []"
  shows "ring (n(p x := n x)) (p(n x := p x)) bs"
proof -
  from r have d: "distinct (x # bs)" and l: "linked n p (x # bs @ [x])"
    by (simp_all add: ring_def)
  have nx: "n x = hd bs" using ring_next_hd [OF r] ne by simp
  have px: "p x = last bs" using ring_prev_hd [OF r] ne by simp
  from l ne have "linked n p (bs @ [x])" by (cases bs) auto
  then have lb: "linked n p bs" using ne by (simp add: linked_snoc)
  have "linked (n(p x := n x)) (p(n x := p x)) bs \<longleftrightarrow> linked n p bs"
  proof (rule linked_cong)
    fix y assume "y \<in> set (butlast bs)"
    moreover have "distinct (butlast bs @ [last bs])" using d ne by simp
    ultimately have "y \<noteq> last bs" by auto
    then show "(n(p x := n x)) y = n y" by (simp add: px)
  next
    fix y assume "y \<in> set (tl bs)"
    then have "y \<noteq> hd bs" using d ne by (cases bs) auto
    then show "(p(n x := p x)) y = p y" by (simp add: nx)
  qed
  with lb have "linked (n(p x := n x)) (p(n x := p x)) bs" by simp
  then have "linked (n(p x := n x)) (p(n x := p x)) (bs @ [hd bs])"
    using ne by (simp add: linked_snoc nx px)
  then show ?thesis using d ne by (simp add: ring_def)
qed

lemma ring_remove:
  assumes r: "ring n p (as @ x # bs)" and ne: "as @ bs \<noteq> []"
  shows "ring (n(p x := n x)) (p(n x := p x)) (as @ bs)"
proof -
  from r have "ring n p (x # bs @ as)" using ring_rotate [of n p as "x # bs"] by simp
  then have "ring (n(p x := n x)) (p(n x := p x)) (bs @ as)"
    using ne by (intro ring_remove_hd) auto
  then show ?thesis by (rule ring_rotate)
qed

end
