(* ===== verification/Nbu_Heap.thy ===== *)
theory Nbu_Heap
  imports Ring
begin

text \<open>
  The memory that the libnbu lists live in (\<open>efixo-libnbu/src/include/nbu/list.h\<close>): nodes, list
  headers and the client's objects, each block under its address.  The root node embedded
  in a list header is the node stored under the header's own address.  An allocation takes
  the next fresh address and fails (returns \<open>NULL\<close>) once \<^term>\<open>m_avail\<close> blocks were handed
  out; a freed block leaves the memory, so that a later access to it is a fault.
\<close>

record nbu_list_node_t =
  nd_prev :: addr
  nd_next :: addr
  nd_data :: addr

type_synonym 'o objects = "addr \<Rightarrow> 'o option"

record 'o nbu_list_t =
  l_count :: u32
  l_data_size :: u32
  l_term :: "(addr \<Rightarrow> 'o objects \<Rightarrow> 'o objects exec) option"
  l_iter :: addr

record 'o mem =
  m_nodes :: "addr \<Rightarrow> nbu_list_node_t option"
  m_lists :: "addr \<Rightarrow> 'o nbu_list_t option"
  m_objs :: "'o objects"
  m_brk :: addr
  m_avail :: nat

definition empty_mem :: "nat \<Rightarrow> 'o mem" where
  "empty_mem k = \<lparr>m_nodes = Map.empty, m_lists = Map.empty, m_objs = Map.empty, m_brk = 1, m_avail = k\<rparr>"

subsection \<open>Allocation\<close>

text \<open>\<open>calloc\<close> of a node, of a list header with its root node, and of a client object.\<close>

definition null_node :: nbu_list_node_t where
  "null_node = \<lparr>nd_prev = 0, nd_next = 0, nd_data = 0\<rparr>"

definition calloc_node :: "'o mem \<Rightarrow> addr \<times> 'o mem" where
  "calloc_node m = (if m_avail m = 0 then (0, m)
     else (m_brk m, m\<lparr>m_nodes := (m_nodes m)(m_brk m \<mapsto> null_node),
                      m_brk := Suc (m_brk m), m_avail := m_avail m - 1\<rparr>))"

definition calloc_list :: "'o mem \<Rightarrow> addr \<times> 'o mem" where
  "calloc_list m = (if m_avail m = 0 then (0, m)
     else (m_brk m, m\<lparr>m_nodes := (m_nodes m)(m_brk m \<mapsto> null_node),
                      m_lists := (m_lists m)(m_brk m \<mapsto>
                        \<lparr>l_count = 0, l_data_size = 0, l_term = None, l_iter = 0\<rparr>),
                      m_brk := Suc (m_brk m), m_avail := m_avail m - 1\<rparr>))"

definition calloc_obj :: "'o \<Rightarrow> 'o mem \<Rightarrow> addr \<times> 'o mem" where
  "calloc_obj v m = (if m_avail m = 0 then (0, m)
     else (m_brk m, m\<lparr>m_objs := (m_objs m)(m_brk m \<mapsto> v),
                      m_brk := Suc (m_brk m), m_avail := m_avail m - 1\<rparr>))"

definition free_node :: "addr \<Rightarrow> 'o mem \<Rightarrow> 'o mem exec" where
  "free_node a m = do { _ \<leftarrow> m_nodes m a; Some (m\<lparr>m_nodes := (m_nodes m)(a := None)\<rparr>) }"

definition free_list :: "addr \<Rightarrow> 'o mem \<Rightarrow> 'o mem exec" where
  "free_list la m = do {
     _ \<leftarrow> m_lists m la;
     _ \<leftarrow> m_nodes m la;
     Some (m\<lparr>m_nodes := (m_nodes m)(la := None), m_lists := (m_lists m)(la := None)\<rparr>) }"

text \<open>\<open>free\<close> on an object: \<open>NULL\<close> is ignored, a block that is not allocated is a fault.\<close>

definition free_obj :: "addr \<Rightarrow> 'o objects \<Rightarrow> 'o objects exec" where
  "free_obj a h = (if a = 0 then Some h else do { _ \<leftarrow> h a; Some (h(a := None)) })"

subsection \<open>Fields of a node and of a list header\<close>

definition get_next :: "addr \<Rightarrow> 'o mem \<Rightarrow> addr exec" where
  "get_next a m = map_option nd_next (m_nodes m a)"

definition get_prev :: "addr \<Rightarrow> 'o mem \<Rightarrow> addr exec" where
  "get_prev a m = map_option nd_prev (m_nodes m a)"

definition get_data :: "addr \<Rightarrow> 'o mem \<Rightarrow> addr exec" where
  "get_data a m = map_option nd_data (m_nodes m a)"

definition upd_node :: "addr \<Rightarrow> (nbu_list_node_t \<Rightarrow> nbu_list_node_t) \<Rightarrow> 'o mem \<Rightarrow> 'o mem" where
  "upd_node a f m = m\<lparr>m_nodes := (m_nodes m)(a := map_option f (m_nodes m a))\<rparr>"

definition set_next :: "addr \<Rightarrow> addr \<Rightarrow> 'o mem \<Rightarrow> 'o mem exec" where
  "set_next a v m = do { _ \<leftarrow> m_nodes m a; Some (upd_node a (nd_next_update (\<lambda>_. v)) m) }"

definition set_prev :: "addr \<Rightarrow> addr \<Rightarrow> 'o mem \<Rightarrow> 'o mem exec" where
  "set_prev a v m = do { _ \<leftarrow> m_nodes m a; Some (upd_node a (nd_prev_update (\<lambda>_. v)) m) }"

definition set_data :: "addr \<Rightarrow> addr \<Rightarrow> 'o mem \<Rightarrow> 'o mem exec" where
  "set_data a v m = do { _ \<leftarrow> m_nodes m a; Some (upd_node a (nd_data_update (\<lambda>_. v)) m) }"

definition upd_list :: "addr \<Rightarrow> ('o nbu_list_t \<Rightarrow> 'o nbu_list_t) \<Rightarrow> 'o mem \<Rightarrow> 'o mem exec" where
  "upd_list la f m = do { l \<leftarrow> m_lists m la; Some (m\<lparr>m_lists := (m_lists m)(la \<mapsto> f l)\<rparr>) }"

definition get_iter :: "addr \<Rightarrow> 'o mem \<Rightarrow> addr exec" where
  "get_iter la m = map_option l_iter (m_lists m la)"

definition set_iter :: "addr \<Rightarrow> addr \<Rightarrow> 'o mem \<Rightarrow> 'o mem exec" where
  "set_iter la v = upd_list la (l_iter_update (\<lambda>_. v))"

subsection \<open>Total readers, for the proofs\<close>

definition nxt :: "'o mem \<Rightarrow> addr \<Rightarrow> addr" where
  "nxt m a = (case m_nodes m a of None \<Rightarrow> 0 | Some n \<Rightarrow> nd_next n)"

definition prv :: "'o mem \<Rightarrow> addr \<Rightarrow> addr" where
  "prv m a = (case m_nodes m a of None \<Rightarrow> 0 | Some n \<Rightarrow> nd_prev n)"

definition dat :: "'o mem \<Rightarrow> addr \<Rightarrow> addr" where
  "dat m a = (case m_nodes m a of None \<Rightarrow> 0 | Some n \<Rightarrow> nd_data n)"

definition live :: "'o mem \<Rightarrow> addr \<Rightarrow> bool" where
  "live m a \<longleftrightarrow> m_nodes m a \<noteq> None"

lemma get_field_live [heap_simps]:
  assumes "live m a"
  shows "get_next a m = Some (nxt m a)" and "get_prev a m = Some (prv m a)"
    and "get_data a m = Some (dat m a)"
  using assms by (auto simp: live_def get_next_def get_prev_def get_data_def nxt_def prv_def dat_def)

lemma set_field_live [heap_simps]:
  assumes "live m a"
  shows "set_next a v m = Some (upd_node a (nd_next_update (\<lambda>_. v)) m)"
    and "set_prev a v m = Some (upd_node a (nd_prev_update (\<lambda>_. v)) m)"
    and "set_data a v m = Some (upd_node a (nd_data_update (\<lambda>_. v)) m)"
  using assms by (auto simp: live_def set_next_def set_prev_def set_data_def)

lemma live_upd_node [heap_simps]: "live (upd_node a f m) b = live m b"
  by (simp add: live_def upd_node_def)

lemma upd_node_other [heap_simps]:
  "m_lists (upd_node a f m) = m_lists m" "m_objs (upd_node a f m) = m_objs m"
  "m_brk (upd_node a f m) = m_brk m" "m_avail (upd_node a f m) = m_avail m"
  by (simp_all add: upd_node_def)

lemma upd_node_fields [heap_simps]:
  assumes "live m a"
  shows "nxt (upd_node a (nd_next_update (\<lambda>_. v)) m) = (nxt m)(a := v)"
    and "nxt (upd_node a (nd_prev_update (\<lambda>_. v)) m) = nxt m"
    and "nxt (upd_node a (nd_data_update (\<lambda>_. v)) m) = nxt m"
    and "prv (upd_node a (nd_next_update (\<lambda>_. v)) m) = prv m"
    and "prv (upd_node a (nd_prev_update (\<lambda>_. v)) m) = (prv m)(a := v)"
    and "prv (upd_node a (nd_data_update (\<lambda>_. v)) m) = prv m"
    and "dat (upd_node a (nd_next_update (\<lambda>_. v)) m) = dat m"
    and "dat (upd_node a (nd_prev_update (\<lambda>_. v)) m) = dat m"
    and "dat (upd_node a (nd_data_update (\<lambda>_. v)) m) = (dat m)(a := v)"
  using assms by (auto simp: live_def nxt_def prv_def dat_def upd_node_def fun_eq_iff)

lemma upd_node_frame [heap_simps]: "a \<noteq> b \<Longrightarrow> m_nodes (upd_node a f m) b = m_nodes m b"
  by (simp add: upd_node_def)

lemma mem_other_nodes [heap_simps]:
  "nxt (m_lists_update f m) = nxt m" "prv (m_lists_update f m) = prv m" "dat (m_lists_update f m) = dat m"
  "nxt (m_objs_update g m) = nxt m" "prv (m_objs_update g m) = prv m" "dat (m_objs_update g m) = dat m"
  "live (m_lists_update f m) = live m" "live (m_objs_update g m) = live m"
  by (simp_all add: nxt_def prv_def dat_def live_def fun_eq_iff)

lemma upd_node_commute [heap_simps]:
  "upd_node a h (m_lists_update f m) = m_lists_update f (upd_node a h m)"
  "upd_node a h (m_objs_update g m) = m_objs_update g (upd_node a h m)"
  by (simp_all add: upd_node_def)

end
