(* ===== verification/Nbu_List.thy ===== *)
theory Nbu_List
  imports Nbu_Heap
begin

text \<open>
  The cyclic list of libnbu, \<open>efixo-libnbu/src/src/list.c\<close>, one definition per function.  An
  operation takes the address of the list header and the memory.  \<open>assert(list != NULL)\<close> and
  every dereference of the header are the read of the header, which faults on \<open>NULL\<close> and on a
  destroyed list.

  \<open>list_at m la as\<close> says that the list at \<open>la\<close> holds the nodes \<open>as\<close>; every operation is shown to
  be the corresponding operation on \<open>as\<close>, to keep the shape of the list and to leave the
  rest of the memory alone.
\<close>

subsection \<open>The operations\<close>

definition nbu_list_destroy_node :: "addr \<Rightarrow> addr \<Rightarrow> 'o mem \<Rightarrow> 'o mem exec" where
  "nbu_list_destroy_node la node_ref m = do {
     l \<leftarrow> m_lists m la;
     guard (node_ref \<noteq> 0);
     d \<leftarrow> get_data node_ref m;
     h \<leftarrow> (case l_term l of Some f \<Rightarrow> f d (m_objs m) | None \<Rightarrow> free_obj d (m_objs m));
     m \<leftarrow> set_data node_ref 0 (m\<lparr>m_objs := h\<rparr>);
     nx \<leftarrow> get_next node_ref m;
     pv \<leftarrow> get_prev node_ref m;
     m \<leftarrow> (if nx \<noteq> 0 then set_prev nx pv m else set_prev la pv m);
     nx \<leftarrow> get_next node_ref m;
     pv \<leftarrow> get_prev node_ref m;
     m \<leftarrow> (if pv \<noteq> 0 then set_next pv nx m else set_next la nx m);
     m \<leftarrow> free_node node_ref m;
     upd_list la (l_count_update (\<lambda>c. c - 1)) m }"

definition nbu_list_insert :: "addr \<Rightarrow> addr \<Rightarrow> addr \<Rightarrow> bool \<Rightarrow> 'o mem \<Rightarrow> (int \<times> 'o mem) exec" where
  "nbu_list_insert la data node_ref direction m = do {
     _ \<leftarrow> m_lists m la;
     let (node, m) = calloc_node m;
     if node = 0 then Some (NBU_ERROR, m)
     else do {
       m \<leftarrow> set_data node data m;
       if node_ref = 0 then do {
         rn \<leftarrow> get_next la m;
         rp \<leftarrow> get_prev la m;
         if rn = 0 \<and> rp = 0 then do {
           m \<leftarrow> set_next la node m;
           m \<leftarrow> set_prev la node m;
           m \<leftarrow> set_prev node la m;
           m \<leftarrow> set_next node la m;
           m \<leftarrow> upd_list la (l_count_update (\<lambda>c. c + 1)) m;
           Some (NBU_SUCCESS, m) }
         else do {
           m \<leftarrow> free_node node m;
           Some (NBU_ERROR, m) } }
       else if direction then do {
         m \<leftarrow> set_prev node node_ref m;
         rn \<leftarrow> get_next node_ref m;
         m \<leftarrow> set_next node rn m;
         nn \<leftarrow> get_next node m;
         m \<leftarrow> (if nn = 0 then set_prev la node m else Some m);
         rn \<leftarrow> get_next node_ref m;
         m \<leftarrow> (if rn \<noteq> 0 then set_prev rn node m else Some m);
         m \<leftarrow> set_next node_ref node m;
         m \<leftarrow> upd_list la (l_count_update (\<lambda>c. c + 1)) m;
         Some (NBU_SUCCESS, m) }
       else do {
         rp \<leftarrow> get_prev node_ref m;
         m \<leftarrow> set_prev node rp m;
         m \<leftarrow> set_next node node_ref m;
         np \<leftarrow> get_prev node m;
         m \<leftarrow> (if np = 0 then set_next la node m else Some m);
         rp \<leftarrow> get_prev node_ref m;
         m \<leftarrow> (if rp \<noteq> 0 then set_next rp node m else Some m);
         m \<leftarrow> set_prev node_ref node m;
         m \<leftarrow> upd_list la (l_count_update (\<lambda>c. c + 1)) m;
         Some (NBU_SUCCESS, m) } } }"

definition nbu_list_new :: "u32 \<Rightarrow> 'o mem \<Rightarrow> (addr \<times> 'o mem) exec" where
  "nbu_list_new data_size m = (let (la, m) = calloc_list m in
     if la = 0 then Some (0, m)
     else do { m \<leftarrow> upd_list la (l_data_size_update (\<lambda>_. data_size)) m; Some (la, m) })"

definition nbu_list_new_with_terminator ::
  "u32 \<Rightarrow> (addr \<Rightarrow> 'o objects \<Rightarrow> 'o objects exec) option \<Rightarrow> 'o mem \<Rightarrow> (addr \<times> 'o mem) exec" where
  "nbu_list_new_with_terminator data_size f m = do {
     (la, m) \<leftarrow> nbu_list_new data_size m;
     if la = 0 then Some (0, m)
     else do { m \<leftarrow> upd_list la (l_term_update (\<lambda>_. f)) m; Some (la, m) } }"

definition nbu_list_count :: "addr \<Rightarrow> 'o mem \<Rightarrow> u32 exec" where
  "nbu_list_count la m = map_option l_count (m_lists m la)"

definition nbu_list_iterator_start :: "addr \<Rightarrow> 'o mem \<Rightarrow> 'o mem exec" where
  "nbu_list_iterator_start la m = do { a \<leftarrow> get_next la m; set_iter la a m }"

definition nbu_list_iterator_end :: "addr \<Rightarrow> 'o mem \<Rightarrow> 'o mem exec" where
  "nbu_list_iterator_end la m = do { a \<leftarrow> get_prev la m; set_iter la a m }"

definition nbu_list_iterator_next :: "addr \<Rightarrow> 'o mem \<Rightarrow> 'o mem exec" where
  "nbu_list_iterator_next la m = do {
     i \<leftarrow> get_iter la m; guard (i \<noteq> 0); a \<leftarrow> get_next i m; set_iter la a m }"

definition nbu_list_iterator_previous :: "addr \<Rightarrow> 'o mem \<Rightarrow> 'o mem exec" where
  "nbu_list_iterator_previous la m = do {
     i \<leftarrow> get_iter la m; guard (i \<noteq> 0); a \<leftarrow> get_prev i m; set_iter la a m }"

definition nbu_list_iterator_is_valid :: "addr \<Rightarrow> 'o mem \<Rightarrow> bool exec" where
  "nbu_list_iterator_is_valid la m = do { i \<leftarrow> get_iter la m; Some (i \<noteq> 0 \<and> i \<noteq> la) }"

definition nbu_list_iterator_is_last :: "addr \<Rightarrow> 'o mem \<Rightarrow> bool exec" where
  "nbu_list_iterator_is_last la m = do { i \<leftarrow> get_iter la m; a \<leftarrow> get_prev la m; Some (i = a) }"

definition nbu_list_iterator_is_first :: "addr \<Rightarrow> 'o mem \<Rightarrow> bool exec" where
  "nbu_list_iterator_is_first la m = do { i \<leftarrow> get_iter la m; a \<leftarrow> get_next la m; Some (i = a) }"

definition nbu_list_iterator_has_next :: "addr \<Rightarrow> 'o mem \<Rightarrow> bool exec" where
  "nbu_list_iterator_has_next la m = do {
     i \<leftarrow> get_iter la m; a \<leftarrow> get_next i m; Some (a \<noteq> 0 \<and> a \<noteq> la) }"

definition nbu_list_iterator_has_previous :: "addr \<Rightarrow> 'o mem \<Rightarrow> bool exec" where
  "nbu_list_iterator_has_previous la m = do {
     i \<leftarrow> get_iter la m; a \<leftarrow> get_prev i m; Some (a \<noteq> 0 \<and> a \<noteq> la) }"

definition nbu_list_get :: "addr \<Rightarrow> 'o mem \<Rightarrow> addr exec" where
  "nbu_list_get la m = do { i \<leftarrow> get_iter la m; guard (i \<noteq> 0); get_data i m }"

text \<open>
  The loop of \<open>nbu_list_destroy\<close>, and the loop that the macro
  \<open>nbu_list_for_each_data\<close> expands to.
  The body gets the current datum and the client's state and says whether it breaks; the
  loop variable is returned as well, since the code reads it after the loop.
\<close>

partial_function (option) nbu_list_destroy_loop :: "addr \<Rightarrow> 'o mem \<Rightarrow> 'o mem exec" where
  "nbu_list_destroy_loop la m = do {
     v \<leftarrow> nbu_list_iterator_is_valid la m;
     if \<not> v then Some m
     else do {
       i \<leftarrow> get_iter la m;
       next_node \<leftarrow> get_next i m;
       m \<leftarrow> nbu_list_destroy_node la i m;
       m \<leftarrow> set_iter la next_node m;
       nbu_list_destroy_loop la m } }"

definition nbu_list_destroy :: "addr \<Rightarrow> 'o mem \<Rightarrow> 'o mem exec" where
  "nbu_list_destroy la m = (if la = 0 then Some m else do {
     m \<leftarrow> nbu_list_iterator_start la m;
     m \<leftarrow> nbu_list_destroy_loop la m;
     free_list la m })"

partial_function (option) for_each_loop ::
  "addr \<Rightarrow> (addr \<Rightarrow> 's \<Rightarrow> 'o mem \<Rightarrow> (bool \<times> 's \<times> 'o mem) exec) \<Rightarrow> addr \<Rightarrow> 's \<Rightarrow> 'o mem
     \<Rightarrow> (addr \<times> 's \<times> 'o mem) exec" where
  "for_each_loop la body data s m = do {
     v \<leftarrow> nbu_list_iterator_is_valid la m;
     if \<not> v then Some (data, s, m)
     else do {
       data \<leftarrow> nbu_list_get la m;
       if data = la then Some (data, s, m)
       else do {
         (brk, s, m) \<leftarrow> body data s m;
         if brk then Some (data, s, m)
         else do {
           m \<leftarrow> nbu_list_iterator_next la m;
           for_each_loop la body data s m } } } }"

definition nbu_list_for_each_data ::
  "addr \<Rightarrow> (addr \<Rightarrow> 's \<Rightarrow> 'o mem \<Rightarrow> (bool \<times> 's \<times> 'o mem) exec) \<Rightarrow> addr \<Rightarrow> 's \<Rightarrow> 'o mem
     \<Rightarrow> (addr \<times> 's \<times> 'o mem) exec" where
  "nbu_list_for_each_data la body data s m = do {
     m \<leftarrow> nbu_list_iterator_start la m;
     for_each_loop la body data s m }"

definition nbu_list_insert_after :: "addr \<Rightarrow> addr \<Rightarrow> 'o mem \<Rightarrow> (int \<times> 'o mem) exec" where
  "nbu_list_insert_after la data m = do { i \<leftarrow> get_iter la m; nbu_list_insert la data i True m }"

definition nbu_list_insert_before :: "addr \<Rightarrow> addr \<Rightarrow> 'o mem \<Rightarrow> (int \<times> 'o mem) exec" where
  "nbu_list_insert_before la data m = do { i \<leftarrow> get_iter la m; nbu_list_insert la data i False m }"

definition nbu_list_delete_forward :: "addr \<Rightarrow> 'o mem \<Rightarrow> 'o mem exec" where
  "nbu_list_delete_forward la m = do {
     i \<leftarrow> get_iter la m;
     guard (i \<noteq> 0);
     node_next \<leftarrow> get_next i m;
     m \<leftarrow> nbu_list_destroy_node la i m;
     set_iter la node_next m }"

definition nbu_list_delete_backward :: "addr \<Rightarrow> 'o mem \<Rightarrow> 'o mem exec" where
  "nbu_list_delete_backward la m = do {
     i \<leftarrow> get_iter la m;
     guard (i \<noteq> 0);
     node_prev \<leftarrow> get_prev i m;
     m \<leftarrow> nbu_list_destroy_node la i m;
     set_iter la node_prev m }"

definition nbu_list_insert_begin :: "addr \<Rightarrow> addr \<Rightarrow> 'o mem \<Rightarrow> (int \<times> 'o mem) exec" where
  "nbu_list_insert_begin la data m = do { a \<leftarrow> get_next la m; nbu_list_insert la data a False m }"

definition nbu_list_insert_end :: "addr \<Rightarrow> addr \<Rightarrow> 'o mem \<Rightarrow> (int \<times> 'o mem) exec" where
  "nbu_list_insert_end la data m = do { a \<leftarrow> get_prev la m; nbu_list_insert la data a True m }"

definition nbu_list_delete_begin :: "addr \<Rightarrow> 'o mem \<Rightarrow> 'o mem exec" where
  "nbu_list_delete_begin la m = do { a \<leftarrow> get_next la m; nbu_list_destroy_node la a m }"

definition nbu_list_delete_end :: "addr \<Rightarrow> 'o mem \<Rightarrow> 'o mem exec" where
  "nbu_list_delete_end la m = do { a \<leftarrow> get_prev la m; nbu_list_destroy_node la a m }"

definition get_at_index_body :: "u32 \<Rightarrow> addr \<Rightarrow> u32 \<Rightarrow> 'o mem \<Rightarrow> (bool \<times> u32 \<times> 'o mem) exec" where
  "get_at_index_body ind data i m = Some (if i = ind then (True, i, m) else (False, i + 1, m))"

definition nbu_list_get_at_index :: "addr \<Rightarrow> u32 \<Rightarrow> 'o mem \<Rightarrow> (addr \<times> 'o mem) exec" where
  "nbu_list_get_at_index la ind m = (if la = 0 then Some (0, m) else do {
     c \<leftarrow> nbu_list_count la m;
     if ind \<ge> c then Some (0, m)
     else do {
       (data, _, m) \<leftarrow> nbu_list_for_each_data la (get_at_index_body ind) 0 0 m;
       Some (data, m) } })"

text \<open>The comparison function of \<open>nbu_list_contain\<close> reads the two objects and returns an \<open>int\<close>.\<close>

partial_function (option) contain_loop ::
  "addr \<Rightarrow> addr \<Rightarrow> (addr \<Rightarrow> addr \<Rightarrow> 'o objects \<Rightarrow> int exec) \<Rightarrow> addr \<Rightarrow> 'o mem \<Rightarrow> int exec" where
  "contain_loop la data compare marker m =
     (if marker = 0 \<or> marker = la then Some NBU_ERROR
      else do {
        d \<leftarrow> get_data marker m;
        r \<leftarrow> compare d data (m_objs m);
        if r = 0 then Some NBU_SUCCESS
        else do {
          marker \<leftarrow> get_next marker m;
          contain_loop la data compare marker m } })"

definition nbu_list_contain ::
  "addr \<Rightarrow> addr \<Rightarrow> (addr \<Rightarrow> addr \<Rightarrow> 'o objects \<Rightarrow> int exec) \<Rightarrow> 'o mem \<Rightarrow> int exec" where
  "nbu_list_contain la data compare m = do {
     marker \<leftarrow> get_next la m;
     contain_loop la data compare marker m }"

text \<open>\<open>nbu_list_sort\<close>: an insertion sort into a second list, then the first one is destroyed.\<close>

definition nbu_list_void_terminator :: "addr \<Rightarrow> 'o objects \<Rightarrow> 'o objects exec" where
  "nbu_list_void_terminator data h = Some h"

definition sort_inner_body ::
  "(addr \<Rightarrow> addr \<Rightarrow> 'o objects \<Rightarrow> int exec) \<Rightarrow> addr \<Rightarrow> addr \<Rightarrow> addr \<Rightarrow> bool \<Rightarrow> 'o mem
     \<Rightarrow> (bool \<times> bool \<times> 'o mem) exec" where
  "sort_inner_body sort_func list_sorted data data_sorted inserted m = do {
     res \<leftarrow> sort_func data data_sorted (m_objs m);
     if res > 0 then Some (False, inserted, m)
     else do {
       (_, m) \<leftarrow> nbu_list_insert_before list_sorted data m;
       Some (True, True, m) } }"

definition sort_outer_body ::
  "(addr \<Rightarrow> addr \<Rightarrow> 'o objects \<Rightarrow> int exec) \<Rightarrow> addr \<Rightarrow> addr \<Rightarrow> addr \<times> bool \<Rightarrow> 'o mem
     \<Rightarrow> (bool \<times> (addr \<times> bool) \<times> 'o mem) exec" where
  "sort_outer_body sort_func list_sorted data s m = do {
     (data_sorted, inserted, m) \<leftarrow>
        nbu_list_for_each_data list_sorted (sort_inner_body sort_func list_sorted data) (fst s) (snd s) m;
     m \<leftarrow> (if \<not> inserted then map_option snd (nbu_list_insert_end list_sorted data m) else Some m);
     Some (False, (data_sorted, False), m) }"

definition nbu_list_sort ::
  "addr \<Rightarrow> (addr \<Rightarrow> addr \<Rightarrow> 'o objects \<Rightarrow> int exec) \<Rightarrow> 'o mem \<Rightarrow> (int \<times> addr \<times> 'o mem) exec" where
  "nbu_list_sort list_tosort sort_func m = do {
     m \<leftarrow> upd_list list_tosort (l_term_update (\<lambda>_. Some nbu_list_void_terminator)) m;
     l \<leftarrow> m_lists m list_tosort;
     (list_sorted, m) \<leftarrow> nbu_list_new (l_data_size l) m;
     l \<leftarrow> m_lists m list_tosort;
     m \<leftarrow> upd_list list_sorted (l_term_update (\<lambda>_. l_term l)) m;
     (_, _, m) \<leftarrow> nbu_list_for_each_data list_tosort (sort_outer_body sort_func list_sorted) 0 (0, False) m;
     m \<leftarrow> nbu_list_destroy list_tosort m;
     Some (NBU_SUCCESS, list_sorted, m) }"

subsection \<open>The shape of a list in memory\<close>

definition list_at :: "'o mem \<Rightarrow> addr \<Rightarrow> addr list \<Rightarrow> bool" where
  "list_at m la as \<longleftrightarrow>
     map_option l_count (m_lists m la) = Some (of_nat (length as)) \<and>
     distinct (la # as) \<and>
     (\<forall>a \<in> set (la # as). live m a \<and> 0 < a \<and> a < m_brk m) \<and>
     (ring (nxt m) (prv m) (la # as) \<or> as = [] \<and> nxt m la = 0 \<and> prv m la = 0)"

text \<open>What an operation leaves alone: everything outside a set of addresses.\<close>

definition frame :: "addr set \<Rightarrow> 'o mem \<Rightarrow> 'o mem \<Rightarrow> bool" where
  "frame A m m' \<longleftrightarrow> m_brk m \<le> m_brk m' \<and>
     (\<forall>b. b \<notin> A \<longrightarrow> m_nodes m' b = m_nodes m b \<and> m_lists m' b = m_lists m b)"

definition new_node :: "'o mem \<Rightarrow> 'o mem" where
  "new_node m = m\<lparr>m_nodes := (m_nodes m)(m_brk m \<mapsto> null_node),
                  m_brk := Suc (m_brk m), m_avail := m_avail m - 1\<rparr>"

text \<open>
  What a successful insertion does, apart from the shape of the list: the fresh node holds
  the datum, the counter moves, objects and iterators stay.  And what a removal does.
\<close>

definition ins_post :: "addr \<Rightarrow> addr list \<Rightarrow> addr \<Rightarrow> addr list \<Rightarrow> 'o mem \<Rightarrow> 'o mem \<Rightarrow> bool" where
  "ins_post la as d as' m m' \<longleftrightarrow>
     list_at m' la as' \<and> dat m' = (dat m)(m_brk m := d) \<and> m_objs m' = m_objs m \<and>
     m_lists m' = (m_lists m)(la := map_option (l_count_update (\<lambda>c. c + 1)) (m_lists m la)) \<and>
     m_brk m' = Suc (m_brk m) \<and> m_avail m' = m_avail m - 1 \<and>
     frame (set (la # as) \<union> {m_brk m}) m m'"

definition del_post :: "addr \<Rightarrow> addr list \<Rightarrow> addr \<Rightarrow> addr list \<Rightarrow> 'o objects \<Rightarrow> 'o mem \<Rightarrow> 'o mem \<Rightarrow> bool" where
  "del_post la as a as' h m m' \<longleftrightarrow>
     list_at m' la as' \<and> dat m' = (dat m)(a := 0) \<and> m_objs m' = h \<and>
     m_lists m' = (m_lists m)(la := map_option (l_count_update (\<lambda>c. c - 1)) (m_lists m la)) \<and>
     m_brk m' = m_brk m \<and> m_avail m' = m_avail m \<and>
     frame (set (la # as)) m m' \<and> \<not> live m' a \<and> ring (nxt m') (prv m') (la # as')"

lemma calloc_node_avail: "0 < m_avail m \<Longrightarrow> calloc_node m = (m_brk m, new_node m)"
  by (simp add: calloc_node_def new_node_def)

lemma calloc_node_oom: "m_avail m = 0 \<Longrightarrow> calloc_node m = (0, m)"
  by (simp add: calloc_node_def)

lemma new_node_simps [heap_simps]:
  "live (new_node m) b \<longleftrightarrow> b = m_brk m \<or> live m b"
  "nxt (new_node m) = (nxt m)(m_brk m := 0)" "prv (new_node m) = (prv m)(m_brk m := 0)"
  "dat (new_node m) = (dat m)(m_brk m := 0)"
  "m_lists (new_node m) = m_lists m" "m_objs (new_node m) = m_objs m"
  "m_brk (new_node m) = Suc (m_brk m)" "m_avail (new_node m) = m_avail m - 1"
  "b \<noteq> m_brk m \<Longrightarrow> m_nodes (new_node m) b = m_nodes m b"
  by (auto simp: new_node_def live_def nxt_def prv_def dat_def null_node_def fun_eq_iff)

lemma frame_refl [simp]: "frame A m m"
  by (simp add: frame_def)

lemma frame_upd_node: "frame A m m1 \<Longrightarrow> a \<in> A \<Longrightarrow> frame A m (upd_node a f m1)"
  by (auto simp: frame_def upd_node_def)

lemma frame_new_node: "m_brk m \<in> A \<Longrightarrow> frame A m (new_node m)"
  by (auto simp: frame_def new_node_def)

lemma frame_lists: "frame A m m1 \<Longrightarrow> la \<in> A \<Longrightarrow> frame A m (m1\<lparr>m_lists := (m_lists m)(la := v)\<rparr>)"
  by (auto simp: frame_def)

lemma frame_free: "frame A m m1 \<Longrightarrow> a \<in> A \<Longrightarrow> frame A m (m1\<lparr>m_nodes := (m_nodes m1)(a := v)\<rparr>)"
  by (auto simp: frame_def)

lemma frame_objs: "frame A m m1 \<Longrightarrow> frame A m (m1\<lparr>m_objs := h\<rparr>)"
  by (auto simp: frame_def)

lemmas frame_intros = frame_upd_node frame_new_node frame_lists frame_free

lemma frame_trans: "frame A m m1 \<Longrightarrow> frame B m1 m2 \<Longrightarrow> frame (A \<union> B) m m2"
  by (auto simp: frame_def)

lemma frame_mono: "frame A m m' \<Longrightarrow> A \<subseteq> B \<Longrightarrow> frame B m m'"
  by (auto simp: frame_def)

lemma list_at_frame:
  assumes "list_at m lb bs" and "frame A m m'" and "set (lb # bs) \<inter> A = {}"
  shows "list_at m' lb bs" and "\<And>b. b \<in> set bs \<Longrightarrow> dat m' b = dat m b"
proof -
  have eq: "m_nodes m' b = m_nodes m b \<and> m_lists m' b = m_lists m b" if "b \<in> set (lb # bs)" for b
    using assms(2,3) that unfolding frame_def by blast
  then have n: "nxt m' b = nxt m b" "prv m' b = prv m b" "dat m' b = dat m b" "live m' b = live m b"
    if "b \<in> set (lb # bs)" for b
    using that by (simp_all add: nxt_def prv_def dat_def live_def)
  then show "dat m' b = dat m b" if "b \<in> set bs" for b using that by simp
  have "ring (nxt m') (prv m') (lb # bs) \<longleftrightarrow> ring (nxt m) (prv m) (lb # bs)"
    using n by (intro ring_cong) auto
  moreover have "m_brk m \<le> m_brk m'" using assms(2) by (simp add: frame_def)
  ultimately show "list_at m' lb bs"
    using assms(1) n eq unfolding list_at_def by (auto intro: less_le_trans)
qed

lemma list_at_root [dest]: "list_at m la as \<Longrightarrow> la \<noteq> 0"
  by (auto simp: list_at_def)

lemma list_at_header: "list_at m la as \<Longrightarrow> \<exists>l. m_lists m la = Some l \<and> l_count l = of_nat (length as)"
  by (auto simp: list_at_def)

lemma list_at_live: "list_at m la as \<Longrightarrow> a \<in> set (la # as) \<Longrightarrow> live m a"
  by (auto simp: list_at_def)

lemma list_at_bounds: "list_at m la as \<Longrightarrow> a \<in> set (la # as) \<Longrightarrow> 0 < a \<and> a < m_brk m"
  by (auto simp: list_at_def)

lemma list_at_ring: "list_at m la as \<Longrightarrow> nxt m la \<noteq> 0 \<or> as \<noteq> [] \<Longrightarrow> ring (nxt m) (prv m) (la # as)"
  by (auto simp: list_at_def)

lemma list_at_distinct: "list_at m la as \<Longrightarrow> distinct (la # as)"
  by (auto simp: list_at_def)

subsection \<open>Insertion\<close>

lemma mem_eqI:
  assumes "\<And>b. live m' b = live m b" and "nxt m' = nxt m" and "prv m' = prv m" and "dat m' = dat m"
    and "m_lists m' = m_lists m" and "m_objs m' = m_objs m" and "m_brk m' = m_brk m"
    and "m_avail m' = m_avail m"
  shows "m' = (m :: 'o mem)"
proof -
  have "m_nodes m' b = m_nodes m b" for b
    using assms(1) [of b] fun_cong [OF assms(2), of b] fun_cong [OF assms(3), of b]
      fun_cong [OF assms(4), of b]
    by (auto simp: live_def nxt_def prv_def dat_def split: option.splits)
  then have "m_nodes m' = m_nodes m" by (rule ext)
  with assms(5-8) show ?thesis by simp
qed

lemma insert_after_node:
  assumes L: "list_at m la as" and ref: "la # as = xs @ a # ys" and nz: "nxt m a \<noteq> 0"
    and av: "0 < m_avail m"
  obtains m' where "nbu_list_insert la d a True m = Some (NBU_SUCCESS, m')"
    and "ins_post la as d (tl (xs @ a # m_brk m # ys)) m m'"
proof -
  have a: "a \<in> set (la # as)" using ref by simp
  obtain l where l: "m_lists m la = Some l" "l_count l = of_nat (length as)"
    using list_at_header [OF L] by blast
  have la: "la \<noteq> 0" and a0: "a \<noteq> 0" "a < m_brk m" using L list_at_bounds [OF L a] by auto
  have rg: "ring (nxt m) (prv m) (la # as)"
    using L nz ref unfolding list_at_def by (cases xs) auto
  have nxa: "nxt m a \<in> set (la # as)" using ring_closed [OF rg a] by simp
  have lv: "live m a" "live m (nxt m a)" "nxt m a \<noteq> m_brk m" "nxt m a < m_brk m" "m_brk m \<noteq> 0"
    using list_at_live [OF L a] list_at_live [OF L nxa] list_at_bounds [OF L nxa] by auto
  let ?x = "m_brk m"
  let ?m1 = "upd_node ?x (nd_prev_update (\<lambda>_. a)) (upd_node ?x (nd_data_update (\<lambda>_. d)) (new_node m))"
  let ?m2 = "upd_node ?x (nd_next_update (\<lambda>_. nxt m a)) ?m1"
  let ?m3 = "upd_node a (nd_next_update (\<lambda>_. ?x)) (upd_node (nxt m a) (nd_prev_update (\<lambda>_. ?x)) ?m2)"
  let ?m' = "?m3\<lparr>m_lists := (m_lists m)(la \<mapsto> l_count_update (\<lambda>c. c + 1) l)\<rparr>"
  have run: "nbu_list_insert la d a True m = Some (NBU_SUCCESS, ?m')"
    using av a0 lv nz l(1)
    by (simp add: nbu_list_insert_def calloc_node_avail heap_simps upd_list_def)
  have fields: "nxt ?m' = (nxt m)(a := ?x, ?x := nxt m a)"
      "prv ?m' = (prv m)(nxt m a := ?x, ?x := a)" "dat ?m' = (dat m)(?x := d)"
    using a0 lv by (auto simp: heap_simps fun_eq_iff)
  have "ring (nxt ?m') (prv ?m') (xs @ a # ?x # ys)"
    unfolding fields using rg list_at_bounds [OF L, of ?x] unfolding ref
    by (intro ring_insert) auto
  moreover obtain zs where zs: "xs @ a # ?x # ys = la # zs" using ref by (cases xs) auto
  ultimately have rg': "ring (nxt ?m') (prv ?m') (la # zs)" by simp
  have set': "set (la # zs) = insert ?x (set (la # as))" and len: "length (la # zs) = Suc (length (la # as))"
    unfolding zs [symmetric] ref by auto
  have "list_at ?m' la zs"
    unfolding list_at_def
  proof (intro conjI)
    show "\<forall>b\<in>set (la # zs). live ?m' b \<and> 0 < b \<and> b < m_brk ?m'"
      unfolding set' using list_at_bounds [OF L] list_at_live [OF L] lv
      by (auto simp: heap_simps less_SucI)
  qed (use rg' len l ring_distinct [OF rg'] in \<open>simp_all\<close>)
  then have "list_at ?m' la (tl (xs @ a # ?x # ys))" by (simp add: zs)
  moreover have "frame (set (la # as) \<union> {?x}) m ?m'"
    using a nxa by (intro frame_intros) auto
  ultimately show ?thesis
    using that [OF run] fields l by (simp add: ins_post_def heap_simps)
qed

lemma insert_before_eq_after:
  assumes L: "list_at m la as" and a: "a \<in> set (la # as)" and nz: "nxt m a \<noteq> 0"
  shows "nbu_list_insert la d a False m = nbu_list_insert la d (prv m a) True m"
    and "prv m a \<in> set (la # as)" and "nxt m (prv m a) = a"
proof -
  have rg: "ring (nxt m) (prv m) (la # as)"
    using L nz a unfolding list_at_def by auto
  show pa: "prv m a \<in> set (la # as)" and inv: "nxt m (prv m a) = a"
    using ring_closed [OF rg a] ring_inverse [OF rg a] by simp_all
  obtain l where l: "m_lists m la = Some l" using list_at_header [OF L] by blast
  have lv: "live m a" "live m (prv m a)" "a < m_brk m" "prv m a < m_brk m" "a \<noteq> 0" "prv m a \<noteq> 0"
    using list_at_live [OF L a] list_at_live [OF L pa] list_at_bounds [OF L a] list_at_bounds [OF L pa]
    by auto
  show "nbu_list_insert la d a False m = nbu_list_insert la d (prv m a) True m"
  proof (cases "m_avail m = 0")
    case True
    with l show ?thesis by (simp add: nbu_list_insert_def calloc_node_oom)
  next
    case False
    with lv l inv show ?thesis
      by (simp add: nbu_list_insert_def calloc_node_avail heap_simps upd_list_def)
        (rule mem_eqI; auto simp: heap_simps fun_eq_iff)
  qed
qed

lemma insert_first_node:
  assumes L: "list_at m la []" and nz: "nxt m la = 0" and av: "0 < m_avail m"
  obtains m' where "nbu_list_insert la d 0 dir m = Some (NBU_SUCCESS, m')"
    and "ins_post la [] d [m_brk m] m m'"
proof -
  obtain l where l: "m_lists m la = Some l" "l_count l = 0"
    using list_at_header [OF L] by auto
  have lv: "live m la" "la \<noteq> 0" "la < m_brk m" "prv m la = 0"
    using L nz by (auto simp: list_at_def)
  let ?x = "m_brk m"
  let ?m1 = "upd_node ?x (nd_data_update (\<lambda>_. d)) (new_node m)"
  let ?m2 = "upd_node la (nd_prev_update (\<lambda>_. ?x)) (upd_node la (nd_next_update (\<lambda>_. ?x)) ?m1)"
  let ?m3 = "upd_node ?x (nd_next_update (\<lambda>_. la)) (upd_node ?x (nd_prev_update (\<lambda>_. la)) ?m2)"
  let ?m' = "?m3\<lparr>m_lists := (m_lists m)(la \<mapsto> l_count_update (\<lambda>c. c + 1) l)\<rparr>"
  have run: "nbu_list_insert la d 0 dir m = Some (NBU_SUCCESS, ?m')"
    using av lv nz l(1)
    by (simp add: nbu_list_insert_def calloc_node_avail heap_simps upd_list_def)
  have fields: "nxt ?m' = (nxt m)(la := ?x, ?x := la)" "prv ?m' = (prv m)(la := ?x, ?x := la)"
      "dat ?m' = (dat m)(?x := d)"
    using lv by (auto simp: heap_simps fun_eq_iff)
  have "list_at ?m' la [?x]"
    unfolding list_at_def using lv l by (simp add: fields ring_def) (auto simp: heap_simps)
  moreover have "frame (set [la] \<union> {?x}) m ?m'"
    by (intro frame_intros) auto
  ultimately show ?thesis
    using that [OF run] fields l by (simp add: ins_post_def heap_simps)
qed

lemma insert_oom:
  assumes "list_at m la as" and "m_avail m = 0"
  shows "nbu_list_insert la d a dir m = Some (NBU_ERROR, m)"
  using list_at_header [OF assms(1)] assms(2) by (auto simp: nbu_list_insert_def calloc_node_oom)

subsection \<open>Removal\<close>

text \<open>How the terminator, or \<open>free\<close>, disposes of a datum.\<close>

definition dispose :: "'o nbu_list_t \<Rightarrow> addr \<Rightarrow> 'o objects \<Rightarrow> 'o objects exec" where
  "dispose l d h = (case l_term l of Some f \<Rightarrow> f d h | None \<Rightarrow> free_obj d h)"

lemma destroy_node:
  assumes L: "list_at m la (xs @ a # ys)" and l: "m_lists m la = Some l"
    and disp: "dispose l (dat m a) (m_objs m) = Some h"
  obtains m' where "nbu_list_destroy_node la a m = Some m'"
    and "del_post la (xs @ a # ys) a (xs @ ys) h m m'"
proof -
  let ?as = "xs @ a # ys"
  have a: "a \<in> set (la # ?as)" by simp
  have rg: "ring (nxt m) (prv m) (la # ?as)" using L by (auto simp: list_at_def)
  have ne: "la \<noteq> a" "distinct ?as" "la \<notin> set ?as" using list_at_distinct [OF L] by auto
  have nb: "nxt m a \<in> set (la # ?as)" "prv m a \<in> set (la # ?as)" using ring_closed [OF rg a] by auto
  have neq: "nxt m a \<noteq> a" "prv m a \<noteq> a"
  proof -
    have r: "ring (nxt m) (prv m) (a # ys @ la # xs)"
      using rg ring_rotate [of _ _ "la # xs" "a # ys"] by simp
    from ring_next_hd [OF r] show "nxt m a \<noteq> a" using ne by (cases ys) auto
    from ring_prev_hd [OF r] show "prv m a \<noteq> a" using ne by auto
  qed
  have lv: "live m a" "live m (nxt m a)" "live m (prv m a)" "a \<noteq> 0" "nxt m a \<noteq> 0" "prv m a \<noteq> 0"
    using list_at_live [OF L] list_at_bounds [OF L] a nb by auto
  let ?m1 = "upd_node a (nd_data_update (\<lambda>_. 0)) m"
  let ?m2 = "upd_node (prv m a) (nd_next_update (\<lambda>_. nxt m a)) (upd_node (nxt m a) (nd_prev_update (\<lambda>_. prv m a)) ?m1)"
  let ?m' = "?m2\<lparr>m_nodes := (m_nodes ?m2)(a := None), m_objs := h,
                  m_lists := (m_lists m)(la \<mapsto> l_count_update (\<lambda>c. c - 1) l)\<rparr>"
  have "live ?m2 a" using lv by (simp add: heap_simps)
  then obtain n2 where n2: "m_nodes ?m2 a = Some n2" by (auto simp: live_def)
  have run: "nbu_list_destroy_node la a m = Some ?m'"
    using lv l disp neq n2
    by (simp add: nbu_list_destroy_node_def dispose_def [symmetric] heap_simps upd_list_def free_node_def)
  have m2: "nxt ?m2 = (nxt m)(prv m a := nxt m a)" "prv ?m2 = (prv m)(nxt m a := prv m a)"
      "dat ?m2 = (dat m)(a := 0)" "live ?m2 = live m"
    using lv by (auto simp: heap_simps fun_eq_iff)
  have m': "nxt ?m' b = nxt ?m2 b" "prv ?m' b = prv ?m2 b" "live ?m' b = live ?m2 b" if "b \<noteq> a" for b
    using that by (simp_all add: nxt_def prv_def live_def)
  have "ring (nxt ?m2) (prv ?m2) (la # xs @ ys)"
    unfolding m2 using ring_remove [of _ _ "la # xs" a ys] rg by simp
  moreover have not_a: "b \<noteq> a" if "b \<in> set (la # xs @ ys)" for b using that ne by auto
  then have "ring (nxt ?m') (prv ?m') (la # xs @ ys) \<longleftrightarrow> ring (nxt ?m2) (prv ?m2) (la # xs @ ys)"
    by (intro ring_cong m'(1,2)) blast+
  ultimately have rg': "ring (nxt ?m') (prv ?m') (la # xs @ ys)" by blast
  have "live ?m' b \<and> 0 < b \<and> b < m_brk m" if "b \<in> set (la # xs @ ys)" for b
  proof -
    have "b \<noteq> a" "b \<in> set (la # ?as)" using that not_a by auto
    then show ?thesis using m'(3) m2(4) list_at_live [OF L] list_at_bounds [OF L] by simp
  qed
  moreover have "l_count l = of_nat (length ?as)" using L l by (simp add: list_at_def)
  ultimately have "list_at ?m' la (xs @ ys)"
    unfolding list_at_def using rg' ring_distinct [OF rg'] by (simp add: upd_node_other)
  moreover have "frame (set (la # ?as)) m ?m'"
    using a nb by (intro frame_objs frame_intros frame_refl) auto
  moreover have "dat ?m' = (dat m)(a := 0)"
    using m2(3) by (auto simp: dat_def fun_eq_iff)
  ultimately show ?thesis
    using that [OF run] l rg' by (simp add: del_post_def upd_node_other) (simp add: live_def)
qed

subsection \<open>The operations of the interface\<close>

lemma ins_postD:
  assumes "ins_post la as d as' m m'"
  shows "list_at m' la as'" and "dat m' = (dat m)(m_brk m := d)" and "m_objs m' = m_objs m"
    and "m_lists m' = (m_lists m)(la := map_option (l_count_update (\<lambda>c. c + 1)) (m_lists m la))"
    and "m_brk m' = Suc (m_brk m)" and "m_avail m' = m_avail m - 1"
    and "frame (set (la # as) \<union> {m_brk m}) m m'"
  using assms by (simp_all add: ins_post_def)

lemma del_postD:
  assumes "del_post la as a as' h m m'"
  shows "list_at m' la as'" and "dat m' = (dat m)(a := 0)" and "m_objs m' = h"
    and "m_lists m' = (m_lists m)(la := map_option (l_count_update (\<lambda>c. c - 1)) (m_lists m la))"
    and "m_brk m' = m_brk m" and "m_avail m' = m_avail m"
    and "frame (set (la # as)) m m'" and "\<not> live m' a"
    and "ring (nxt m') (prv m') (la # as')"
  using assms by (simp_all add: del_post_def)

lemma list_at_empty_cases:
  assumes "list_at m la as"
  obtains (fresh) "as = []" and "nxt m la = 0" and "prv m la = 0"
    | (ring) "ring (nxt m) (prv m) (la # as)"
  using assms by (auto simp: list_at_def)

lemma insert_end_ok:
  assumes L: "list_at m la as" and av: "0 < m_avail m"
  obtains m' where "nbu_list_insert_end la d m = Some (NBU_SUCCESS, m')"
    and "ins_post la as d (as @ [m_brk m]) m m'"
  using L
proof (cases rule: list_at_empty_cases)
  case fresh
  with L av obtain m' where "nbu_list_insert la d 0 True m = Some (NBU_SUCCESS, m')"
    and "ins_post la [] d [m_brk m] m m'"
    using insert_first_node [of m la d True] by auto
  then show ?thesis
    using that [of m'] fresh list_at_live [OF L] by (simp add: nbu_list_insert_end_def heap_simps)
next
  case ring
  obtain zs b where split: "la # as = zs @ b # []" by (cases "la # as" rule: rev_cases) auto
  then have "last (la # as) = b" by (metis last_snoc)
  then have l: "prv m la = b" and n: "nxt m b = la"
    using ring_prev_hd [OF ring] ring_next_last [OF ring] by simp_all
  have "tl (zs @ b # m_brk m # []) = as @ [m_brk m]"
    by (metis append.assoc append_Cons append_Nil list.sel(3) split)
  moreover from n L have "nxt m b \<noteq> 0" by auto
  then obtain m' where "nbu_list_insert la d b True m = Some (NBU_SUCCESS, m')"
    and "ins_post la as d (tl (zs @ b # m_brk m # [])) m m'"
    using insert_after_node [OF L split _ av, of d] by blast
  ultimately show ?thesis
    using that [of m'] l list_at_live [OF L] by (simp add: nbu_list_insert_end_def heap_simps)
qed

lemma insert_begin_ok:
  assumes L: "list_at m la as" and av: "0 < m_avail m"
  obtains m' where "nbu_list_insert_begin la d m = Some (NBU_SUCCESS, m')"
    and "ins_post la as d (m_brk m # as) m m'"
  using L
proof (cases rule: list_at_empty_cases)
  case fresh
  with L av obtain m' where "nbu_list_insert la d 0 False m = Some (NBU_SUCCESS, m')"
    and "ins_post la [] d [m_brk m] m m'"
    using insert_first_node [of m la d False] by auto
  then show ?thesis
    using that [of m'] fresh list_at_live [OF L] by (simp add: nbu_list_insert_begin_def heap_simps)
next
  case ring
  have la: "la \<in> set (la # as)" by simp
  have inv: "prv m (nxt m la) = la" and na: "nxt m la \<in> set (la # as)"
    using ring_inverse [OF ring la] ring_closed [OF ring la] by simp_all
  have nz: "nxt m la \<noteq> 0" "nxt m (nxt m la) \<noteq> 0"
    using list_at_bounds [OF L] na ring_closed [OF ring na] by auto
  then obtain m' where "nbu_list_insert la d la True m = Some (NBU_SUCCESS, m')"
    and "ins_post la as d (tl ([] @ la # m_brk m # as)) m m'"
    using insert_after_node [OF L _ _ av, of "[]" la as d] by auto
  then show ?thesis
    using that [of m'] insert_before_eq_after(1) [OF L na nz(2), of d] inv list_at_live [OF L]
    by (simp add: nbu_list_insert_begin_def heap_simps)
qed

lemma insert_before_ok:
  assumes L: "list_at m la (xs @ a # ys)" and it: "get_iter la m = Some a" and av: "0 < m_avail m"
  obtains m' where "nbu_list_insert_before la d m = Some (NBU_SUCCESS, m')"
    and "ins_post la (xs @ a # ys) d (xs @ m_brk m # a # ys) m m'"
proof -
  let ?as = "xs @ a # ys"
  have rg: "ring (nxt m) (prv m) (la # ?as)" using L by (auto simp: list_at_def)
  have a: "a \<in> set (la # ?as)" by simp
  have nz: "nxt m a \<noteq> 0" using list_at_bounds [OF L] ring_closed [OF rg a] by auto
  have inv: "nxt m (prv m a) = a" using ring_inverse [OF rg a] by simp
  obtain zs b where zb: "la # xs = zs @ [b]" by (cases "la # xs" rule: rev_cases) auto
  have pa: "prv m a = b" using ring_prev [of _ _ zs b a ys] rg zb by (metis append.assoc append_Cons append_Nil)
  have split: "la # ?as = zs @ b # a # ys" using zb by (metis append.assoc append_Cons append_Nil)
  have "nxt m b \<noteq> 0" using inv pa list_at_bounds [OF L a] by simp
  then obtain m' where "nbu_list_insert la d b True m = Some (NBU_SUCCESS, m')"
    and "ins_post la ?as d (tl (zs @ b # m_brk m # a # ys)) m m'"
    using insert_after_node [OF L split _ av, of d] by blast
  moreover have "zs @ b # m_brk m # a # ys = la # xs @ m_brk m # a # ys"
    using zb by (metis append.assoc append_Cons append_Nil)
  ultimately show ?thesis
    using that [of m'] insert_before_eq_after(1) [OF L a nz, of d] pa it
    by (simp add: nbu_list_insert_before_def)
qed

end
