(* ===== verification/Nbu_Iter.thy ===== *)
theory Nbu_Iter
  imports Nbu_List
begin

text \<open>
  Iterating over a libnbu list: the iterator functions, the loop of the macro
  \<open>nbu_list_for_each_data\<close>, deletion under the iterator, and from them the operations that
  walk a whole list: \<open>nbu_list_destroy\<close>, \<open>nbu_list_get_at_index\<close> and \<open>nbu_list_contain\<close>.
\<close>

definition upd_iter :: "addr \<Rightarrow> addr \<Rightarrow> 'o mem \<Rightarrow> 'o mem" where
  "upd_iter la v m = m\<lparr>m_lists := (m_lists m)(la := map_option (l_iter_update (\<lambda>_. v)) (m_lists m la))\<rparr>"

text \<open>\<open>at_iter m la ys\<close>: the nodes from the iterator to the end of the list are \<open>ys\<close>.\<close>

definition at_iter :: "'o mem \<Rightarrow> addr \<Rightarrow> addr list \<Rightarrow> bool" where
  "at_iter m la ys \<longleftrightarrow> get_iter la m = Some (hd (ys @ [la])) \<or> ys = [] \<and> get_iter la m = Some 0"

lemma set_iter_header: "m_lists m la = Some l \<Longrightarrow> set_iter la v m = Some (upd_iter la v m)"
  by (simp add: set_iter_def upd_list_def upd_iter_def)

lemma set_iter_ok [heap_simps]: "list_at m la as \<Longrightarrow> set_iter la v m = Some (upd_iter la v m)"
  using list_at_header set_iter_header by blast

lemma upd_iter_simps [heap_simps]:
  "nxt (upd_iter la v m) = nxt m" "prv (upd_iter la v m) = prv m" "dat (upd_iter la v m) = dat m"
  "live (upd_iter la v m) = live m" "m_objs (upd_iter la v m) = m_objs m"
  "m_brk (upd_iter la v m) = m_brk m" "m_avail (upd_iter la v m) = m_avail m"
  "m_nodes (upd_iter la v m) = m_nodes m"
  "upd_iter la w (upd_iter la v m) = upd_iter la w m"
  "b \<noteq> la \<Longrightarrow> m_lists (upd_iter la v m) b = m_lists m b"
  by (auto simp: upd_iter_def nxt_def prv_def dat_def live_def fun_eq_iff option.map_comp comp_def)

lemma list_at_upd_iter [simp]: "list_at (upd_iter la v m) lb bs = list_at m lb bs"
proof -
  have "map_option l_count (m_lists (upd_iter la v m) lb) = map_option l_count (m_lists m lb)"
    by (cases "m_lists m la") (auto simp: upd_iter_def)
  then show ?thesis by (simp add: list_at_def heap_simps)
qed

lemma upd_iter_header: "m_lists m la = Some l \<Longrightarrow> m_lists (upd_iter la v m) la = Some (l\<lparr>l_iter := v\<rparr>)"
  by (simp add: upd_iter_def)

lemma frame_upd_iter: "frame A m m1 \<Longrightarrow> la \<in> A \<Longrightarrow> frame A m (upd_iter la v m1)"
  by (auto simp: frame_def upd_iter_def)

lemma get_iter_upd_iter [heap_simps]:
  "list_at m la as \<Longrightarrow> get_iter la (upd_iter la v m) = Some v"
  using list_at_header [of m la as] by (auto simp: get_iter_def upd_iter_def)

lemma upd_iter_same: "get_iter la m = Some v \<Longrightarrow> upd_iter la v m = m"
  by (auto simp: get_iter_def upd_iter_def fun_upd_idem_iff)

subsection \<open>New lists and their terminator\<close>

lemma list_new_ok:
  assumes "0 < m_avail m" and "0 < m_brk m"
  obtains m' where "nbu_list_new sz m = Some (m_brk m, m')" and "list_at m' (m_brk m) []"
    and "m_lists m' = (m_lists m)(m_brk m \<mapsto> \<lparr>l_count = 0, l_data_size = sz, l_term = None, l_iter = 0\<rparr>)"
    and "m_objs m' = m_objs m" and "dat m' = (dat m)(m_brk m := 0)" and "m_brk m' = Suc (m_brk m)"
    and "m_avail m' = m_avail m - 1" and "frame {m_brk m} m m'"
proof -
  let ?l = "\<lparr>l_count = 0, l_data_size = sz, l_term = None, l_iter = 0\<rparr>"
  let ?m' = "(new_node m)\<lparr>m_lists := (m_lists m)(m_brk m \<mapsto> ?l)\<rparr>"
  have "nbu_list_new sz m = Some (m_brk m, ?m')"
    using assms by (simp add: nbu_list_new_def calloc_list_def upd_list_def new_node_def)
  moreover have "list_at ?m' (m_brk m) []"
    using assms(2) by (simp add: list_at_def heap_simps)
  moreover have "frame {m_brk m} m ?m'" by (intro frame_lists frame_new_node) simp_all
  ultimately show ?thesis using that by (simp add: heap_simps)
qed

lemma set_term_ok:
  assumes L: "list_at m la as" and l: "m_lists m la = Some l"
  obtains m' where "upd_list la (l_term_update (\<lambda>_. t)) m = Some m'"
    and "m_lists m' = (m_lists m)(la \<mapsto> l\<lparr>l_term := t\<rparr>)" and "\<And>lb bs. list_at m' lb bs = list_at m lb bs"
    and "m_objs m' = m_objs m" and "dat m' = dat m" and "nxt m' = nxt m" and "m_brk m' = m_brk m"
    and "m_avail m' = m_avail m" and "frame {la} m m'"
proof -
  let ?m' = "m\<lparr>m_lists := (m_lists m)(la \<mapsto> l\<lparr>l_term := t\<rparr>)\<rparr>"
  have "upd_list la (l_term_update (\<lambda>_. t)) m = Some ?m'" using l by (simp add: upd_list_def)
  moreover have "list_at ?m' lb bs = list_at m lb bs" for lb bs
    using l by (simp add: list_at_def heap_simps)
  ultimately show ?thesis using that by (simp add: heap_simps frame_def)
qed

subsection \<open>The iterator functions\<close>

lemma iterator_start_ok:
  assumes "list_at m la as"
  shows "nbu_list_iterator_start la m = Some (upd_iter la (nxt m la) m)"
    and "at_iter (upd_iter la (nxt m la) m) la as"
proof -
  show "nbu_list_iterator_start la m = Some (upd_iter la (nxt m la) m)"
    using assms list_at_live [OF assms, of la] by (simp add: nbu_list_iterator_start_def heap_simps)
  from assms show "at_iter (upd_iter la (nxt m la) m) la as"
    by (cases rule: list_at_empty_cases)
      (auto simp: at_iter_def get_iter_upd_iter [OF assms] ring_next_hd)
qed

lemma iterator_end_ok:
  assumes "list_at m la as" and "as \<noteq> []"
  shows "nbu_list_iterator_end la m = Some (upd_iter la (last as) m)"
  using assms list_at_live [OF assms(1), of la] ring_prev_hd [OF list_at_ring [OF assms(1)]]
  by (simp add: nbu_list_iterator_end_def heap_simps)

lemma iterator_is_valid_ok:
  assumes "list_at m la (xs @ ys)" and "at_iter m la ys"
  shows "nbu_list_iterator_is_valid la m = Some (ys \<noteq> [])"
proof (cases ys)
  case Nil
  with assms show ?thesis by (auto simp: nbu_list_iterator_is_valid_def at_iter_def)
next
  case (Cons y zs)
  with assms list_at_bounds [OF assms(1), of y] list_at_distinct [OF assms(1)] show ?thesis
    by (auto simp: nbu_list_iterator_is_valid_def at_iter_def)
qed

lemma list_get_ok:
  assumes "list_at m la (xs @ y # ys)" and "at_iter m la (y # ys)"
  shows "nbu_list_get la m = Some (dat m y)"
  using assms list_at_bounds [OF assms(1), of y] list_at_live [OF assms(1), of y]
  by (auto simp: nbu_list_get_def at_iter_def heap_simps)

lemma list_next_node:
  assumes "list_at m la (xs @ y # ys)"
  shows "nxt m y = hd (ys @ [la])" and "prv m y = last (la # xs)"
proof -
  have "ring (nxt m) (prv m) ((la # xs) @ y # ys)" using assms by (auto simp: list_at_def)
  then have r: "ring (nxt m) (prv m) (y # ys @ la # xs)"
    using ring_rotate [of _ _ "la # xs" "y # ys"] by simp
  show "nxt m y = hd (ys @ [la])" using ring_next_hd [OF r] by (cases ys) auto
  show "prv m y = last (la # xs)" using ring_prev_hd [OF r] by simp
qed

lemma iterator_next_ok:
  assumes L: "list_at m la (xs @ y # ys)" and it: "at_iter m la (y # ys)"
  shows "nbu_list_iterator_next la m = Some (upd_iter la (hd (ys @ [la])) m)"
    and "at_iter (upd_iter la (hd (ys @ [la])) m) la ys"
  using assms list_at_bounds [OF L, of y] list_at_live [OF L, of y] list_next_node [OF L]
  by (auto simp: nbu_list_iterator_next_def at_iter_def heap_simps)

text \<open>The iterator on the root node, where \<open>nbu_list_delete_backward\<close> may leave it.\<close>

lemma iterator_next_from:
  assumes L: "list_at m la (xs @ ys)" and rg: "ring (nxt m) (prv m) (la # xs @ ys)"
    and it: "get_iter la m = Some (last (la # xs))"
  shows "nbu_list_iterator_next la m = Some (upd_iter la (hd (ys @ [la])) m)"
    and "at_iter (upd_iter la (hd (ys @ [la])) m) la ys"
proof -
  let ?b = "last (la # xs)"
  have b: "?b \<in> set (la # xs @ ys)" by auto
  obtain zs where zs: "la # xs = zs @ [?b]" by (metis append_butlast_last_id list.distinct(1))
  have "ring (nxt m) (prv m) (zs @ ?b # ys)" using rg zs by (metis append.assoc append_Cons append_Nil)
  then have "ring (nxt m) (prv m) (?b # ys @ zs)" using ring_rotate [of _ _ zs "?b # ys"] by simp
  from ring_next_hd [OF this] have "nxt m ?b = hd (ys @ [la])"
    using zs by (cases ys; cases zs) auto
  then show "nbu_list_iterator_next la m = Some (upd_iter la (hd (ys @ [la])) m)"
    and "at_iter (upd_iter la (hd (ys @ [la])) m) la ys"
    using L it list_at_bounds [OF L b] list_at_live [OF L b]
    by (auto simp: nbu_list_iterator_next_def at_iter_def heap_simps simp del: last.simps)
qed

subsection \<open>The loop \<open>nbu_list_for_each_data\<close>\<close>

lemma for_each_end:
  assumes "list_at m la xs" and "at_iter m la []"
  shows "for_each_loop la body d s m = Some (d, s, m)"
  using iterator_is_valid_ok [of m la xs "[]"] assms by (subst for_each_loop.simps) simp

lemma for_each_break:
  assumes L: "list_at m la (xs @ y # ys)" and it: "at_iter m la (y # ys)" and ne: "dat m y \<noteq> la"
    and b: "body (dat m y) s m = Some (True, s', m')"
  shows "for_each_loop la body d s m = Some (dat m y, s', m')"
  using iterator_is_valid_ok [OF L it] list_get_ok [OF L it] ne b
  by (subst for_each_loop.simps) simp

lemma for_each_step:
  assumes L: "list_at m la (xs @ y # ys)" and it: "at_iter m la (y # ys)" and ne: "dat m y \<noteq> la"
    and b: "body (dat m y) s m = Some (False, s', m')"
    and n: "nbu_list_iterator_next la m' = Some m''"
  shows "for_each_loop la body d s m = for_each_loop la body (dat m y) s' m''"
  using iterator_is_valid_ok [OF L it] list_get_ok [OF L it] ne b n
  by (subst for_each_loop.simps) simp

text \<open>A stretch of the list that the body only reads.\<close>

lemma for_each_skip:
  assumes "list_at m la (zs @ xs @ ys)" and "at_iter m la (xs @ ys)"
    and "la \<notin> dat m ` set xs"
    and "\<And>i v. i < length xs \<Longrightarrow>
           body (dat m (xs ! i)) (st i) (upd_iter la v m) = Some (False, st (Suc i), upd_iter la v m)"
  shows "for_each_loop la body d (st 0) m =
         for_each_loop la body (last (d # map (dat m) xs)) (st (length xs))
           (if xs = [] then m else upd_iter la (hd (ys @ [la])) m)"
  using assms
proof (induction xs arbitrary: zs d st m)
  case (Cons x xs)
  let ?m = "upd_iter la (hd ((xs @ ys) @ [la])) m"
  have L: "list_at m la (zs @ x # (xs @ ys))" and it: "at_iter m la (x # (xs @ ys))"
    using Cons.prems(1,2) by simp_all
  obtain v where v: "get_iter la m = Some v" using it by (auto simp: at_iter_def)
  have b: "body (dat m x) (st 0) m = Some (False, st 1, m)"
    using Cons.prems(4) [of 0 v] upd_iter_same [OF v] by simp
  have "for_each_loop la body d (st 0) m = for_each_loop la body (dat m x) (st 1) ?m"
    by (rule for_each_step [where m' = m]) (use L it b iterator_next_ok [OF L it] Cons.prems(3) in auto)
  also have "\<dots> = for_each_loop la body (last (dat m x # map (dat m) xs)) (st (Suc (length xs)))
      (if xs = [] then ?m else upd_iter la (hd (ys @ [la])) ?m)"
    using Cons.IH [of ?m "zs @ [x]" "\<lambda>i. st (Suc i)" "dat m x"] Cons.prems(1,3) Cons.prems(4) [of "Suc _"]
      iterator_next_ok(2) [OF L it] by (simp add: heap_simps)
  finally show ?case by (simp add: heap_simps)
qed simp

lemma for_each_data_skip:
  assumes L: "list_at m la (xs @ ys)" and self: "la \<notin> dat m ` set xs"
    and body: "\<And>i v. i < length xs \<Longrightarrow>
           body (dat m (xs ! i)) (st i) (upd_iter la v m) = Some (False, st (Suc i), upd_iter la v m)"
  obtains v where "nbu_list_for_each_data la body d (st 0) m =
         for_each_loop la body (last (d # map (dat m) xs)) (st (length xs)) (upd_iter la v m)"
    and "at_iter (upd_iter la v m) la ys"
proof -
  let ?m1 = "upd_iter la (nxt m la) m"
  note start = iterator_start_ok [OF L]
  have L1: "list_at ?m1 la ([] @ xs @ ys)" using L by simp
  have "nbu_list_for_each_data la body d (st 0) m =
      for_each_loop la body (last (d # map (dat m) xs)) (st (length xs))
           (if xs = [] then ?m1 else upd_iter la (hd (ys @ [la])) ?m1)"
    using for_each_skip [OF L1 start(2), of body st d] start(1) self body
    by (simp add: nbu_list_for_each_data_def heap_simps)
  moreover have "at_iter (upd_iter la (hd (ys @ [la])) m) la ys"
    using L by (simp add: at_iter_def heap_simps)
  ultimately show ?thesis
    using that start(2) by (cases "xs = []") (auto simp: heap_simps)
qed

lemma at_iter_Cons: "list_at m la as \<Longrightarrow> at_iter (upd_iter la v m) la (y # ys) \<longleftrightarrow> v = y"
  by (simp add: at_iter_def heap_simps)

subsection \<open>Deletion at the iterator\<close>

lemma delete_forward_ok:
  assumes L: "list_at m la (xs @ y # ys)" and it: "at_iter m la (y # ys)"
    and l: "m_lists m la = Some l" and disp: "dispose l (dat m y) (m_objs m) = Some h"
  obtains m' where "nbu_list_delete_forward la m = Some (upd_iter la (hd (ys @ [la])) m')"
    and "del_post la (xs @ y # ys) y (xs @ ys) h m m'"
    and "at_iter (upd_iter la (hd (ys @ [la])) m') la ys"
proof -
  obtain m' where run: "nbu_list_destroy_node la y m = Some m'"
    and post: "del_post la (xs @ y # ys) y (xs @ ys) h m m'"
    using destroy_node [OF L l disp] by blast
  note L' = del_postD(1) [OF post]
  have "nbu_list_delete_forward la m = Some (upd_iter la (hd (ys @ [la])) m')"
    using it run list_next_node [OF L] list_at_live [OF L, of y] list_at_bounds [OF L, of y] L'
    by (auto simp: nbu_list_delete_forward_def at_iter_def heap_simps)
  moreover have "at_iter (upd_iter la (hd (ys @ [la])) m') la ys"
    using L' by (simp add: at_iter_def heap_simps)
  ultimately show ?thesis using that post by blast
qed

lemma delete_backward_ok:
  assumes L: "list_at m la (xs @ y # ys)" and it: "at_iter m la (y # ys)"
    and l: "m_lists m la = Some l" and disp: "dispose l (dat m y) (m_objs m) = Some h"
  obtains m' where "nbu_list_delete_backward la m = Some (upd_iter la (last (la # xs)) m')"
    and "del_post la (xs @ y # ys) y (xs @ ys) h m m'"
    and "nbu_list_iterator_next la (upd_iter la (last (la # xs)) m') = Some (upd_iter la (hd (ys @ [la])) m')"
    and "at_iter (upd_iter la (hd (ys @ [la])) m') la ys"
proof -
  obtain m' where run: "nbu_list_destroy_node la y m = Some m'"
    and post: "del_post la (xs @ y # ys) y (xs @ ys) h m m'"
    using destroy_node [OF L l disp] by blast
  note L' = del_postD(1) [OF post]
  have "nbu_list_delete_backward la m = Some (upd_iter la (last (la # xs)) m')"
    using it run list_next_node [OF L] list_at_live [OF L, of y] list_at_bounds [OF L, of y] L'
    by (auto simp: nbu_list_delete_backward_def at_iter_def heap_simps)
  moreover have "nbu_list_iterator_next la (upd_iter la (last (la # xs)) m') = Some (upd_iter la (hd (ys @ [la])) m')"
    and "at_iter (upd_iter la (hd (ys @ [la])) m') la ys"
    using iterator_next_from [of "upd_iter la (last (la # xs)) m'" la xs ys] del_postD(9) [OF post] L'
    by (simp_all add: heap_simps del: last.simps)
  ultimately show ?thesis using that post by blast
qed

subsection \<open>Destroying a list\<close>

text \<open>The objects after each datum was disposed of, in list order.\<close>

fun dispose_all :: "'o nbu_list_t \<Rightarrow> addr list \<Rightarrow> 'o objects \<Rightarrow> 'o objects exec" where
  "dispose_all l [] h = Some h"
| "dispose_all l (d # ds) h = do { h \<leftarrow> dispose l d h; dispose_all l ds h }"

lemma dispose_count [simp]: "dispose (l_count_update f l) = dispose l" "dispose (l_iter_update g l) = dispose l"
  by (simp_all add: dispose_def fun_eq_iff)

lemma dispose_all_count [simp]:
  "dispose_all (l_count_update f l) ds h = dispose_all l ds h" "dispose_all (l_iter_update g l) ds h = dispose_all l ds h"
  by (induction ds arbitrary: h) (simp_all cong: Option.bind_cong)

lemma destroy_loop_ok:
  assumes "list_at m la as" and "at_iter m la as" and "m_lists m la = Some l"
    and "dispose_all l (map (dat m) as) (m_objs m) = Some h"
  obtains m' where "nbu_list_destroy_loop la m = Some m'" and "list_at m' la []"
    and "m_objs m' = h" and "\<And>a. a \<in> set as \<Longrightarrow> \<not> live m' a" and "frame (set (la # as)) m m'"
    and "m_brk m' = m_brk m" and "m_avail m' = m_avail m"
  using assms
proof (induction as arbitrary: m l thesis)
  case Nil
  then have "nbu_list_destroy_loop la m = Some m"
    using iterator_is_valid_ok [of m la "[]" "[]"] by (subst nbu_list_destroy_loop.simps) simp
  with Nil show ?case by simp
next
  case (Cons y ys)
  have L: "list_at m la ([] @ y # ys)" using Cons.prems(2) by simp
  obtain h1 where h1: "dispose l (dat m y) (m_objs m) = Some h1"
    "dispose_all l (map (dat m) ys) h1 = Some h" using Cons.prems(5) by (auto simp: bind_Some_iff)
  obtain m1 where run: "nbu_list_destroy_node la y m = Some m1"
    and post: "del_post la ([] @ y # ys) y ([] @ ys) h1 m m1"
    using destroy_node [OF L Cons.prems(4) h1(1)] by blast
  let ?m2 = "upd_iter la (hd (ys @ [la])) m1"
  have L2: "list_at m1 la ys" "list_at ?m2 la ys" and it2: "at_iter ?m2 la ys"
    using del_postD(1) [OF post] by (simp_all add: at_iter_def heap_simps)
  have hd2: "m_lists ?m2 la = Some (l\<lparr>l_count := l_count l - 1, l_iter := hd (ys @ [la])\<rparr>)"
    using del_postD(4) [OF post] Cons.prems(4) by (simp add: upd_iter_header)
  have dist: "y \<notin> set ys" "la \<noteq> y" using list_at_distinct [OF L] by auto
  have "map (dat m1) ys = map (dat m) ys"
    using del_postD(2) [OF post] dist by auto
  then have "dispose_all (l\<lparr>l_count := l_count l - 1, l_iter := hd (ys @ [la])\<rparr>) (map (dat ?m2) ys) (m_objs ?m2) = Some h"
    using h1(2) del_postD(3) [OF post] by (simp add: heap_simps del: map_eq_conv)
  from Cons.IH [OF _ L2(2) it2 hd2 this] obtain m' where m': "nbu_list_destroy_loop la ?m2 = Some m'"
    "list_at m' la []" "m_objs m' = h" "\<And>a. a \<in> set ys \<Longrightarrow> \<not> live m' a" "frame (set (la # ys)) ?m2 m'"
    "m_brk m' = m_brk ?m2" "m_avail m' = m_avail ?m2" by metis
  have "nbu_list_destroy_loop la m = Some m'"
    using iterator_is_valid_ok [OF L] Cons.prems(3) run list_next_node [OF L] list_at_live [OF L, of y] m'(1) L2(1)
    by (subst nbu_list_destroy_loop.simps) (auto simp: at_iter_def heap_simps)
  moreover have "\<not> live m' y"
    using m'(5) del_postD(8) [OF post] dist by (simp add: frame_def live_def heap_simps)
  moreover have "frame (set (la # y # ys)) m ?m2"
    using del_postD(7) [OF post] by (intro frame_upd_iter) simp_all
  then have "frame (set (la # y # ys)) m m'"
    using frame_trans [OF _ m'(5)] frame_mono by (metis Un_absorb2 set_subset_Cons subset_refl list.set(2) insert_mono)
  ultimately show ?case
    using Cons.prems(1) m' del_postD(5,6) [OF post] by (auto simp: heap_simps)
qed

lemma list_destroy_ok:
  assumes L: "list_at m la as" and l: "m_lists m la = Some l"
    and disp: "dispose_all l (map (dat m) as) (m_objs m) = Some h"
  obtains m' where "nbu_list_destroy la m = Some m'" and "m_objs m' = h" and "m_lists m' la = None"
    and "\<And>a. a \<in> set (la # as) \<Longrightarrow> \<not> live m' a" and "frame (set (la # as)) m m'"
    and "m_brk m' = m_brk m" and "m_avail m' = m_avail m"
proof -
  let ?m1 = "upd_iter la (nxt m la) m"
  have h1: "m_lists ?m1 la = Some (l\<lparr>l_iter := nxt m la\<rparr>)" using l by (rule upd_iter_header)
  have "dispose_all (l\<lparr>l_iter := nxt m la\<rparr>) (map (dat ?m1) as) (m_objs ?m1) = Some h"
    using disp by (simp add: heap_simps)
  from destroy_loop_ok [OF _ iterator_start_ok(2) [OF L] h1 this]
  obtain m2 where m2: "nbu_list_destroy_loop la ?m1 = Some m2" "list_at m2 la []" "m_objs m2 = h"
    "\<And>a. a \<in> set as \<Longrightarrow> \<not> live m2 a" "frame (set (la # as)) ?m1 m2" "m_brk m2 = m_brk m" "m_avail m2 = m_avail m"
    using L by (metis list_at_upd_iter upd_iter_simps(6,7))
  let ?m' = "m2\<lparr>m_nodes := (m_nodes m2)(la := None), m_lists := (m_lists m2)(la := None)\<rparr>"
  obtain l2 where "m_lists m2 la = Some l2" using list_at_header [OF m2(2)] by blast
  moreover have "live m2 la" using list_at_live [OF m2(2)] by simp
  ultimately have run: "nbu_list_destroy la m = Some ?m'"
    using L iterator_start_ok(1) [OF L] m2(1)
    by (auto simp: nbu_list_destroy_def free_list_def live_def)
  have "frame (set (la # as)) m m2"
    using frame_trans [OF frame_upd_iter [OF frame_refl [of "set (la # as)" m]] m2(5)] by simp
  then have "frame (set (la # as)) m ?m'" by (simp add: frame_def)
  moreover have "\<not> live ?m' a" if "a \<in> set (la # as)" for a
    using m2(4) [of a] that by (auto simp: live_def)
  ultimately show ?thesis
    by (intro that [OF run]) (simp_all add: m2)
qed

subsection \<open>Lookup\<close>

lemma get_at_index_ok:
  assumes L: "list_at m la as" and len: "length as < 2 ^ 32" and self: "la \<notin> dat m ` set as"
  shows "nbu_list_get_at_index la ind m =
    (if unat ind < length as then Some (dat m (as ! unat ind), upd_iter la (as ! unat ind) m)
     else Some (0, m))"
proof (cases "unat ind < length as")
  case False
  have "nbu_list_count la m = Some (of_nat (length as))"
    using L by (simp add: nbu_list_count_def list_at_def)
  with False len L show ?thesis
    by (auto simp: nbu_list_get_at_index_def word_le_nat_alt)
next
  case True
  let ?k = "unat ind"
  let ?xs = "take ?k as" and ?y = "as ! ?k" and ?ys = "drop (Suc ?k) as"
  let ?body = "get_at_index_body ind" and ?m = "upd_iter la ?y m"
  have as: "as = ?xs @ ?y # ?ys" using True by (rule id_take_nth_drop)
  have L': "list_at m la (?xs @ ?y # ?ys)" using L as by simp
  have small: "of_nat i \<noteq> ind" if "i < ?k" for i
    using that unat_u32_less [of ind] by (subst of_nat_u32_eq) auto
  have "nbu_list_for_each_data la ?body 0 (of_nat 0) m =
      for_each_loop la ?body (last (0 # map (dat m) ?xs)) (of_nat (length ?xs)) ?m"
    by (rule for_each_data_skip [OF L', where st = of_nat and body = ?body and d = 0])
      (use self small True L in \<open>auto simp: get_at_index_body_def at_iter_Cons dest: in_set_takeD\<close>)
  also have "\<dots> = Some (dat ?m ?y, of_nat (length ?xs), ?m)"
    by (rule for_each_break [of _ _ ?xs _ ?ys])
      (use L L' self True in \<open>auto simp: at_iter_Cons heap_simps get_at_index_body_def\<close>)
  finally show ?thesis
    using True len L
    by (auto simp: nbu_list_get_at_index_def nbu_list_count_def list_at_def word_le_nat_alt heap_simps)
qed

lemma contain_loop_ok:
  assumes "list_at m la (xs @ ys)" and "\<And>y. y \<in> set ys \<Longrightarrow> compare (dat m y) d (m_objs m) = Some (c y)"
    and "marker = hd (ys @ [la]) \<or> marker = 0 \<and> ys = []"
  shows "contain_loop la d compare marker m =
    Some (if \<exists>y \<in> set ys. c y = 0 then NBU_SUCCESS else NBU_ERROR)"
  using assms
proof (induction ys arbitrary: xs marker)
  case Nil
  then show ?case by (subst contain_loop.simps) auto
next
  case (Cons y ys)
  have L: "list_at m la (xs @ y # ys)" using Cons.prems(1) by simp
  have y: "y \<noteq> 0" "y \<noteq> la" "live m y" "nxt m y = hd (ys @ [la])"
    using list_at_bounds [OF L, of y] list_at_distinct [OF L] list_at_live [OF L, of y] list_next_node [OF L]
    by auto
  have "contain_loop la d compare (hd (ys @ [la])) m =
      Some (if \<exists>y \<in> set ys. c y = 0 then NBU_SUCCESS else NBU_ERROR)"
    by (rule Cons.IH [of "xs @ [y]"]) (use Cons.prems in auto)
  with y Cons.prems(2) [of y] Cons.prems(3) show ?case
    by (subst contain_loop.simps) (auto simp: heap_simps)
qed

lemma list_contain_ok:
  assumes L: "list_at m la as" and c: "\<And>y. y \<in> set as \<Longrightarrow> compare (dat m y) d (m_objs m) = Some (c y)"
  shows "nbu_list_contain la d compare m =
    Some (if \<exists>y \<in> set as. c y = 0 then NBU_SUCCESS else NBU_ERROR)"
proof -
  have "nxt m la = hd (as @ [la]) \<or> nxt m la = 0 \<and> as = []"
    using L by (cases rule: list_at_empty_cases) (auto simp: ring_next_hd)
  then show ?thesis
    using contain_loop_ok [of m la "[]" as compare d c "nxt m la"] L c list_at_live [OF L, of la]
    by (auto simp: nbu_list_contain_def heap_simps)
qed

end
