(* ===== verification/Nbu_Objs.thy ===== *)
theory Nbu_Objs
  imports Nbu_Iter
begin

text \<open>
  Lists that own the objects they hold, the way the session tables use libnbu: every node
  points to its own live object.  \<open>objs_at m la ps\<close> gives the pointers and the objects in
  list order.  The loops of the clients become a search for the first object with a
  property and the removal of all objects with a property.
\<close>

definition objs_at :: "'o mem \<Rightarrow> addr \<Rightarrow> (addr \<times> 'o) list \<Rightarrow> bool" where
  "objs_at m la ps \<longleftrightarrow>
     (\<exists>as. list_at m la as \<and> map (dat m) as = map fst ps) \<and> distinct (map fst ps) \<and>
     (\<forall>(d, w) \<in> set ps. m_objs m d = Some w \<and> 0 < d \<and> d < m_brk m \<and> d \<noteq> la) \<and>
     map_option l_term (m_lists m la) = Some None"

text \<open>A body that removes the current object if the test says so, and counts.\<close>

definition remove_body :: "addr \<Rightarrow> ('o \<Rightarrow> bool exec) \<Rightarrow> addr \<Rightarrow> int \<Rightarrow> 'o mem \<Rightarrow> (bool \<times> int \<times> 'o mem) exec" where
  "remove_body la test d n m = do {
     w \<leftarrow> m_objs m d;
     b \<leftarrow> test w;
     if b then do {
       m \<leftarrow> nbu_list_delete_backward la m;
       Some (False, n + 1, m) }
     else Some (False, n, m) }"

lemma objs_atI:
  assumes "list_at m la as" and "map (dat m) as = map fst ps" and "distinct (map fst ps)"
    and "\<And>d w. (d, w) \<in> set ps \<Longrightarrow> m_objs m d = Some w \<and> 0 < d \<and> d < m_brk m \<and> d \<noteq> la"
    and "map_option l_term (m_lists m la) = Some None"
  shows "objs_at m la ps"
  using assms unfolding objs_at_def by auto

lemma objs_atE:
  assumes "objs_at m la ps"
  obtains as where "list_at m la as" and "map (dat m) as = map fst ps" and "distinct (map fst ps)"
    and "\<And>d w. (d, w) \<in> set ps \<Longrightarrow> m_objs m d = Some w \<and> 0 < d \<and> d < m_brk m \<and> d \<noteq> la"
    and "map_option l_term (m_lists m la) = Some None"
  using assms unfolding objs_at_def by blast

lemma objs_at_obj: "objs_at m la ps \<Longrightarrow> (d, w) \<in> set ps \<Longrightarrow> m_objs m d = Some w"
  by (auto simp: objs_at_def)

lemma objs_at_bound: "objs_at m la ps \<Longrightarrow> (d, w) \<in> set ps \<Longrightarrow> 0 < d \<and> d < m_brk m"
  by (auto simp: objs_at_def)

lemma objs_at_distinct: "objs_at m la ps \<Longrightarrow> distinct (map fst ps)"
  by (auto simp: objs_at_def)

lemma objs_at_header: "objs_at m la ps \<Longrightarrow> m_lists m la \<noteq> None \<and> 0 < la \<and> la < m_brk m"
  using list_at_bounds [of m la _ la] by (auto simp: objs_at_def)

lemma objs_at_upd_iter [simp]: "objs_at (upd_iter la v m) la ps = objs_at m la ps"
proof -
  have "map_option l_term (m_lists (upd_iter la v m) la) = map_option l_term (m_lists m la)"
    by (simp add: upd_iter_def option.map_comp comp_def)
  then show ?thesis by (simp add: objs_at_def heap_simps)
qed

lemma objs_at_mem:
  assumes O: "objs_at m la ps" and n: "m_nodes m' = m_nodes m" "m_lists m' = m_lists m" "m_brk m \<le> m_brk m'"
    and o: "\<And>d w. (d, w) \<in> set ps \<Longrightarrow> m_objs m' d = m_objs m d"
  shows "objs_at m' la ps"
proof -
  obtain as where A: "list_at m la as" "map (dat m) as = map fst ps" "distinct (map fst ps)"
    "\<And>d w. (d, w) \<in> set ps \<Longrightarrow> m_objs m d = Some w \<and> 0 < d \<and> d < m_brk m \<and> d \<noteq> la"
    "map_option l_term (m_lists m la) = Some None" using objs_atE [OF O] by metis
  have "list_at m' la as" using A(1) n by (intro list_at_frame [of m la as "{}" m']) (simp_all add: frame_def)
  moreover have "dat m' = dat m" using n by (intro ext) (simp add: dat_def)
  ultimately show ?thesis using A n o by (intro objs_atI [where as = as]) (auto intro: less_le_trans)
qed

lemma objs_at_count: "objs_at m la ps \<Longrightarrow> nbu_list_count la m = Some (of_nat (length ps))"
proof (elim objs_atE)
  fix as assume "list_at m la as" and e: "map (dat m) as = map fst ps"
  moreover from e have "length as = length ps" by (metis length_map)
  ultimately show ?thesis by (simp add: nbu_list_count_def list_at_def)
qed

lemma objs_at_new:
  assumes "0 < m_avail m" and "0 < m_brk m"
  obtains m' where "nbu_list_new sz m = Some (m_brk m, m')" and "objs_at m' (m_brk m) []"
    and "m_objs m' = m_objs m" and "m_brk m' = Suc (m_brk m)" and "m_avail m' = m_avail m - 1"
proof -
  from list_new_ok [OF assms, of sz] obtain m' where "nbu_list_new sz m = Some (m_brk m, m')"
    and "list_at m' (m_brk m) []"
    and "m_lists m' = (m_lists m)(m_brk m \<mapsto> \<lparr>l_count = 0, l_data_size = sz, l_term = None, l_iter = 0\<rparr>)"
    and "m_objs m' = m_objs m" and "m_brk m' = Suc (m_brk m)" and "m_avail m' = m_avail m - 1"
    by metis
  then show ?thesis using that [of m'] by (auto simp: objs_at_def)
qed

subsection \<open>Adding an object\<close>

lemma objs_insert_end:
  assumes O: "objs_at m la ps" and av: "0 < m_avail m"
    and d: "m_objs m d = Some w" "0 < d" "d < m_brk m" "d \<noteq> la" "d \<notin> fst ` set ps"
  obtains m' where "nbu_list_insert_end la d m = Some (NBU_SUCCESS, m')"
    and "objs_at m' la (ps @ [(d, w)])" and "m_objs m' = m_objs m"
    and "m_brk m' = Suc (m_brk m)" and "m_avail m' = m_avail m - 1"
proof -
  obtain as where A: "list_at m la as" "map (dat m) as = map fst ps" "distinct (map fst ps)"
    "\<And>d w. (d, w) \<in> set ps \<Longrightarrow> m_objs m d = Some w \<and> 0 < d \<and> d < m_brk m \<and> d \<noteq> la"
    "map_option l_term (m_lists m la) = Some None" using objs_atE [OF O] by metis
  obtain m' where run: "nbu_list_insert_end la d m = Some (NBU_SUCCESS, m')"
    and P: "ins_post la as d (as @ [m_brk m]) m m'" using insert_end_ok [OF A(1) av] by blast
  have "dat m' a = dat m a" if "a \<in> set as" for a
    using list_at_bounds [OF A(1), of a] that ins_postD(2) [OF P] by auto
  then have "map (dat m') (as @ [m_brk m]) = map fst (ps @ [(d, w)])"
    using A(2) ins_postD(2) [OF P] by (simp cong: map_cong)
  moreover have "map_option l_term (m_lists m' la) = Some None"
    using ins_postD(4) [OF P] A(5) by (simp add: option.map_comp comp_def)
  ultimately have "objs_at m' la (ps @ [(d, w)])"
    using ins_postD [OF P] A d by (intro objs_atI [where as = "as @ [m_brk m]"]) (auto simp: less_SucI)
  then show ?thesis using that run ins_postD [OF P] by blast
qed

lemma objs_insert_oom:
  assumes "objs_at m la ps" and "m_avail m = 0"
  shows "nbu_list_insert_end la d m = Some (NBU_ERROR, m)"
proof -
  obtain as where L: "list_at m la as" using assms(1) by (auto simp: objs_at_def)
  then show ?thesis
    using insert_oom [OF L assms(2)] list_at_live [OF L, of la]
    by (simp add: nbu_list_insert_end_def heap_simps)
qed

subsection \<open>Searching\<close>

text \<open>\<open>cursor m la as qs bs rs\<close>: the nodes \<open>as\<close> hold \<open>qs\<close>, and the nodes \<open>bs\<close> after them hold \<open>rs\<close>.\<close>

definition cursor :: "'o mem \<Rightarrow> addr \<Rightarrow> addr list \<Rightarrow> (addr \<times> 'o) list \<Rightarrow> addr list \<Rightarrow> (addr \<times> 'o) list \<Rightarrow> bool" where
  "cursor m la as qs bs rs \<longleftrightarrow> list_at m la (as @ bs) \<and> map (dat m) as = map fst qs \<and> map (dat m) bs = map fst rs"

lemma objs_at_cursor:
  assumes "objs_at m la (qs @ rs)"
  obtains as bs where "cursor m la as qs bs rs"
proof -
  obtain cs where L: "list_at m la cs" and e: "map (dat m) cs = map fst (qs @ rs)"
    using objs_atE [OF assms] by metis
  have "map (dat m) (take (length qs) cs) = map fst qs" "map (dat m) (drop (length qs) cs) = map fst rs"
    using arg_cong [OF e, of "take (length qs)"] arg_cong [OF e, of "drop (length qs)"]
    by (simp_all add: take_map [symmetric] drop_map [symmetric])
  then show ?thesis using that [of "take (length qs) cs" "drop (length qs) cs"] L
    by (simp add: cursor_def)
qed

lemma objs_skip:
  assumes O: "objs_at m la (qs @ rs)" and C: "cursor m la as qs bs rs"
    and body: "\<And>d w v. (d, w) \<in> set qs \<Longrightarrow> body d s (upd_iter la v m) = Some (False, s, upd_iter la v m)"
  obtains v where "nbu_list_for_each_data la body d0 s m =
      for_each_loop la body (last (d0 # map fst qs)) s (upd_iter la v m)"
    and "at_iter (upd_iter la v m) la bs"
proof -
  have L: "list_at m la (as @ bs)" and e: "map (dat m) as = map fst qs" using C by (simp_all add: cursor_def)
  have mem: "\<exists>w. (dat m a, w) \<in> set qs" if "a \<in> set as" for a
  proof -
    have "dat m a \<in> set (map fst qs)" using that e by (metis image_eqI image_set)
    then show ?thesis by auto
  qed
  have "la \<notin> dat m ` set as"
    using mem O unfolding objs_at_def by fastforce
  moreover have "body (dat m (as ! i)) s (upd_iter la v m) = Some (False, s, upd_iter la v m)"
    if "i < length as" for i v
    using mem [of "as ! i"] body that by auto
  ultimately obtain v where "nbu_list_for_each_data la body d0 s m =
      for_each_loop la body (last (d0 # map (dat m) as)) s (upd_iter la v m)"
    and "at_iter (upd_iter la v m) la bs"
    using for_each_data_skip [OF L, of body "\<lambda>_. s" d0] by blast
  then show ?thesis using that e by metis
qed

lemma objs_search_none:
  assumes O: "objs_at m la ps"
    and body: "\<And>d w v. (d, w) \<in> set ps \<Longrightarrow> body d s (upd_iter la v m) = Some (False, s, upd_iter la v m)"
  obtains v where "nbu_list_for_each_data la body d0 s m = Some (last (d0 # map fst ps), s, upd_iter la v m)"
proof -
  obtain as bs where C: "cursor m la as ps bs []" using objs_at_cursor [of m la ps "[]"] O by auto
  then have bs: "bs = []" and L: "list_at m la as" by (auto simp: cursor_def)
  obtain v where run: "nbu_list_for_each_data la body d0 s m =
      for_each_loop la body (last (d0 # map fst ps)) s (upd_iter la v m)"
    and it: "at_iter (upd_iter la v m) la []"
    using objs_skip [of m la ps "[]" as bs body s d0] O C body bs by auto
  have "for_each_loop la body (last (d0 # map fst ps)) s (upd_iter la v m) =
      Some (last (d0 # map fst ps), s, upd_iter la v m)"
    by (rule for_each_end [where xs = as]) (simp_all add: L it)
  with run show ?thesis by (intro that [of v]) simp
qed

lemma objs_search_found:
  assumes O: "objs_at m la (qs @ (d, w) # rs)"
    and body: "\<And>d w v. (d, w) \<in> set qs \<Longrightarrow> body d s (upd_iter la v m) = Some (False, s, upd_iter la v m)"
  obtains as y bs where "cursor m la as qs (y # bs) ((d, w) # rs)"
    and "nbu_list_for_each_data la body d0 s m =
      for_each_loop la body (last (d0 # map fst qs)) s (upd_iter la y m)"
    and "\<And>s' m' x. body d s (upd_iter la y m) = Some (True, s', m') \<Longrightarrow>
      for_each_loop la body x s (upd_iter la y m) = Some (d, s', m')"
proof -
  obtain as cs where C: "cursor m la as qs cs ((d, w) # rs)" using objs_at_cursor [OF O] by blast
  then obtain y bs where cs: "cs = y # bs" and y: "dat m y = d" by (auto simp: cursor_def)
  obtain v where run: "nbu_list_for_each_data la body d0 s m =
      for_each_loop la body (last (d0 # map fst qs)) s (upd_iter la v m)"
    and it: "at_iter (upd_iter la v m) la cs"
    using objs_skip [OF O C, of body s d0] body by blast
  have L: "list_at m la (as @ y # bs)" using C cs by (simp add: cursor_def)
  have v: "v = y" using it L cs by (simp add: at_iter_Cons)
  have "d \<noteq> la" using O by (auto simp: objs_at_def)
  then have "for_each_loop la body x s (upd_iter la y m) = Some (d, s', m')"
    if "body d s (upd_iter la y m) = Some (True, s', m')" for s' m' x
    using for_each_break [of "upd_iter la y m" la as y bs body s s' m' x] L it cs v y that
    by (simp add: heap_simps)
  then show ?thesis using that C cs run v by blast
qed

subsection \<open>Removing\<close>

lemma map_l_term_count: "map_option l_term (map_option (l_count_update f) x) = map_option l_term x"
  by (simp add: option.map_comp comp_def)

lemma objs_delete_at:
  assumes O: "objs_at m la (qs @ (d, w) # rs)" and C: "cursor m la as qs (y # bs) ((d, w) # rs)"
    and it: "at_iter m la (y # bs)"
  obtains m1 m2 where "nbu_list_delete_backward la m = Some m1" and "nbu_list_iterator_next la m1 = Some m2"
    and "objs_at m1 la (qs @ rs)" and "objs_at m2 la (qs @ rs)" and "cursor m2 la as qs bs rs"
    and "at_iter m2 la bs" and "m_objs m1 = (m_objs m)(d := None)" and "m_objs m2 = (m_objs m)(d := None)"
    and "m_brk m1 = m_brk m" and "m_brk m2 = m_brk m" and "m_avail m1 = m_avail m" and "m_avail m2 = m_avail m"
proof -
  have L: "list_at m la (as @ y # bs)" and y: "dat m y = d" and e: "map (dat m) as = map fst qs"
    "map (dat m) bs = map fst rs" using C by (simp_all add: cursor_def)
  obtain l where l: "m_lists m la = Some l" "l_term l = None"
    using O by (auto simp: objs_at_def)
  have "dispose l (dat m y) (m_objs m) = Some ((m_objs m)(d := None))"
    using O l y by (auto simp: objs_at_def dispose_def free_obj_def)
  from delete_backward_ok [OF L it l(1) this]
  obtain m' where m': "nbu_list_delete_backward la m = Some (upd_iter la (last (la # as)) m')"
    and P: "del_post la (as @ y # bs) y (as @ bs) ((m_objs m)(d := None)) m m'"
    and nx: "nbu_list_iterator_next la (upd_iter la (last (la # as)) m') = Some (upd_iter la (hd (bs @ [la])) m')"
    and it': "at_iter (upd_iter la (hd (bs @ [la])) m') la bs" by blast
  have "y \<notin> set (as @ bs)" using list_at_distinct [OF L] by auto
  then have e': "map (dat m') as = map fst qs" "map (dat m') bs = map fst rs"
    using del_postD(2) [OF P] e by auto
  have d: "d \<notin> fst ` set (qs @ rs)" using objs_at_distinct [OF O] by auto
  have "objs_at m' la (qs @ rs)"
  proof (rule objs_atI [OF del_postD(1) [OF P]])
    fix d' w' assume mem: "(d', w') \<in> set (qs @ rs)"
    then have "d' \<noteq> d" using d by force
    moreover have "m_objs m d' = Some w' \<and> 0 < d' \<and> d' < m_brk m \<and> d' \<noteq> la"
      using O mem unfolding objs_at_def by auto
    ultimately show "m_objs m' d' = Some w' \<and> 0 < d' \<and> d' < m_brk m' \<and> d' \<noteq> la"
      by (simp add: del_postD [OF P])
  next
    show "map_option l_term (m_lists m' la) = Some None"
      using l by (simp add: del_postD(4) [OF P])
  qed (use e' objs_at_distinct [OF O] in simp_all)
  then show ?thesis
    using that [OF m' nx] del_postD [OF P] e' it' by (simp add: cursor_def heap_simps)
qed

text \<open>The loop that removes every object with the property, in one pass over the list.\<close>

lemma objs_filter_loop:
  assumes "objs_at m la (qs @ rs)" and "cursor m la as qs bs rs" and "at_iter m la bs"
    and "\<And>d w. (d, w) \<in> set rs \<Longrightarrow> test w = Some (P w)"
  obtains d' m' where "for_each_loop la (remove_body la test) d0 n m =
      Some (d', n + int (length (filter (\<lambda>p. P (snd p)) rs)), m')"
    and "objs_at m' la (qs @ filter (\<lambda>p. \<not> P (snd p)) rs)"
    and "m_objs m' = (\<lambda>x. if x \<in> fst ` set (filter (\<lambda>p. P (snd p)) rs) then None else m_objs m x)"
    and "m_brk m' = m_brk m" and "m_avail m' = m_avail m"
  using assms
proof (induction rs arbitrary: m qs as bs n d0 thesis)
  case Nil
  then have "for_each_loop la (remove_body la test) d0 n m = Some (d0, n, m)"
    by (intro for_each_end [where xs = as]) (auto simp: cursor_def)
  with Nil show ?case by simp
next
  case (Cons p rs)
  obtain d w where p: "p = (d, w)" by (cases p)
  obtain y cs where bs: "bs = y # cs" and y: "dat m y = d" using Cons.prems(3) p by (auto simp: cursor_def)
  have O: "objs_at m la (qs @ (d, w) # rs)" and C: "cursor m la as qs (y # cs) ((d, w) # rs)"
    and it: "at_iter m la (y # cs)" and w: "test w = Some (P w)"
    using Cons.prems(2,3,4) Cons.prems(5) [of d w] p bs by simp_all
  have dw: "m_objs m d = Some w" "d \<noteq> la" using O by (auto simp: objs_at_def)
  have L: "list_at m la (as @ y # cs)" using C by (simp add: cursor_def)
  have T: "test w = Some (P w)" if "(d, w) \<in> set rs" for d w
    using Cons.prems(5) [of d w] that by simp
  show ?case
  proof (cases "P w")
    case True
    from objs_delete_at [OF O C it] obtain m1 m2 where M:
      "nbu_list_delete_backward la m = Some m1" "nbu_list_iterator_next la m1 = Some m2"
      "objs_at m2 la (qs @ rs)" "cursor m2 la as qs cs rs" "at_iter m2 la cs"
      "m_objs m2 = (m_objs m)(d := None)" "m_brk m2 = m_brk m" "m_avail m2 = m_avail m" by metis
    have step: "for_each_loop la (remove_body la test) d0 n m = for_each_loop la (remove_body la test) d (n + 1) m2"
      using for_each_step [OF L it, of "remove_body la test" n "n + 1" m1 m2 d0] y w dw True M(1,2)
      by (simp add: remove_body_def)
    obtain d' m' where R: "for_each_loop la (remove_body la test) d (n + 1) m2 =
        Some (d', n + 1 + int (length (filter (\<lambda>p. P (snd p)) rs)), m')"
      "objs_at m' la (qs @ filter (\<lambda>p. \<not> P (snd p)) rs)"
      "m_objs m' = (\<lambda>x. if x \<in> fst ` set (filter (\<lambda>p. P (snd p)) rs) then None else m_objs m2 x)"
      "m_brk m' = m_brk m2" "m_avail m' = m_avail m2"
      by (rule Cons.IH [OF _ M(3,4,5) T, of d "n + 1"]) (rule that)
    show ?thesis
      by (rule Cons.prems(1) [of d' m']) (use step R M p True in \<open>auto simp: fun_eq_iff\<close>)
  next
    case False
    let ?m = "upd_iter la (hd (cs @ [la])) m"
    have step: "for_each_loop la (remove_body la test) d0 n m = for_each_loop la (remove_body la test) d n ?m"
      using for_each_step [OF L it, of "remove_body la test" n n m ?m d0] y w dw False iterator_next_ok(1) [OF L it]
      by (simp add: remove_body_def)
    have O': "objs_at ?m la ((qs @ [p]) @ rs)" and C': "cursor ?m la (as @ [y]) (qs @ [p]) cs rs"
      using O C p by (simp_all add: cursor_def heap_simps)
    obtain d' m' where R: "for_each_loop la (remove_body la test) d n ?m =
        Some (d', n + int (length (filter (\<lambda>p. P (snd p)) rs)), m')"
      "objs_at m' la ((qs @ [p]) @ filter (\<lambda>p. \<not> P (snd p)) rs)"
      "m_objs m' = (\<lambda>x. if x \<in> fst ` set (filter (\<lambda>p. P (snd p)) rs) then None else m_objs ?m x)"
      "m_brk m' = m_brk ?m" "m_avail m' = m_avail ?m"
      by (rule Cons.IH [OF _ O' C' iterator_next_ok(2) [OF L it] T, of d n]) (rule that)
    show ?thesis
      by (rule Cons.prems(1) [of d' m']) (use step R p False in \<open>auto simp: heap_simps\<close>)
  qed
qed

lemma objs_filter:
  assumes O: "objs_at m la ps" and T: "\<And>d w. (d, w) \<in> set ps \<Longrightarrow> test w = Some (P w)"
  obtains d' m' where "nbu_list_for_each_data la (remove_body la test) d0 n m =
      Some (d', n + int (length (filter (\<lambda>p. P (snd p)) ps)), m')"
    and "objs_at m' la (filter (\<lambda>p. \<not> P (snd p)) ps)"
    and "m_objs m' = (\<lambda>x. if x \<in> fst ` set (filter (\<lambda>p. P (snd p)) ps) then None else m_objs m x)"
    and "m_brk m' = m_brk m" and "m_avail m' = m_avail m"
proof -
  obtain as bs where C: "cursor m la as [] bs ps" using objs_at_cursor [of m la "[]" ps] O by auto
  then have as: "as = []" and L: "list_at m la bs" by (auto simp: cursor_def)
  let ?m = "upd_iter la (nxt m la) m"
  have O': "objs_at ?m la ([] @ ps)" and C': "cursor ?m la [] [] bs ps"
    using O C as by (simp_all add: cursor_def heap_simps)
  obtain d' m' where "for_each_loop la (remove_body la test) d0 n ?m =
      Some (d', n + int (length (filter (\<lambda>p. P (snd p)) ps)), m')"
    "objs_at m' la ([] @ filter (\<lambda>p. \<not> P (snd p)) ps)"
    "m_objs m' = (\<lambda>x. if x \<in> fst ` set (filter (\<lambda>p. P (snd p)) ps) then None else m_objs ?m x)"
    "m_brk m' = m_brk ?m" "m_avail m' = m_avail ?m"
    by (rule objs_filter_loop [where test = test and P = P, OF O' C' iterator_start_ok(2) [OF L] T])
  then show ?thesis
    using that [of d' m'] iterator_start_ok(1) [OF L] by (simp add: nbu_list_for_each_data_def heap_simps cong: if_cong)
qed

subsection \<open>Changing an object in place\<close>

lemma objs_update:
  assumes O: "objs_at m la (qs @ (d, w) # rs)"
  shows "objs_at (m\<lparr>m_objs := (m_objs m)(d \<mapsto> w')\<rparr>) la (qs @ (d, w') # rs)"
proof -
  obtain as where A: "list_at m la as" "map (dat m) as = map fst (qs @ (d, w) # rs)"
    using objs_atE [OF O] by metis
  have dist: "distinct (map fst (qs @ (d, w) # rs))" using objs_at_distinct [OF O] .
  show ?thesis
  proof (rule objs_atI)
    show "list_at (m\<lparr>m_objs := (m_objs m)(d \<mapsto> w')\<rparr>) la as"
      using A(1) by (simp add: list_at_def heap_simps)
    fix e v assume "(e, v) \<in> set (qs @ (d, w') # rs)"
    then consider "e = d" "v = w'" | "e \<noteq> d" "(e, v) \<in> set (qs @ (d, w) # rs)"
      using dist by (auto simp: image_iff)
    then show "m_objs (m\<lparr>m_objs := (m_objs m)(d \<mapsto> w')\<rparr>) e = Some v \<and> 0 < e \<and>
        e < m_brk (m\<lparr>m_objs := (m_objs m)(d \<mapsto> w')\<rparr>) \<and> e \<noteq> la"
      using O unfolding objs_at_def by cases auto
  qed (use A(2) dist O in \<open>auto simp: heap_simps objs_at_def\<close>)
qed

end
