(* ===== verification/C_Lib.thy ===== *)
theory C_Lib
  imports Prelude
begin

text \<open>
  The part of the C library that the modelled code uses on strings: a C string is the list of
  its characters before the terminating NUL, a buffer is the list of all its bytes.
  Reading the string in a buffer without a NUL and writing past the end of a buffer are faults.
\<close>

type_synonym buf = "char list"

abbreviation NUL :: char where "NUL \<equiv> CHR 0x00"

subsection \<open>Buffers\<close>

definition blit :: "char list \<Rightarrow> buf \<Rightarrow> buf exec" where
  "blit bs b = (if length bs \<le> length b then Some (bs @ drop (length bs) b) else None)"

definition c_str :: "buf \<Rightarrow> string" where
  "c_str b = takeWhile (\<lambda>c. c \<noteq> NUL) b"

definition read_str :: "buf \<Rightarrow> string exec" where
  "read_str b = (if NUL \<in> set b then Some (c_str b) else None)"

definition strncpy :: "buf \<Rightarrow> string \<Rightarrow> nat \<Rightarrow> buf exec" where
  "strncpy b src n = blit (take n (src @ replicate n NUL)) b"

text \<open>\<open>snprintf\<close> of an already formatted text: at most \<open>n - 1\<close> characters and the NUL.\<close>

definition snprintf :: "buf \<Rightarrow> nat \<Rightarrow> string \<Rightarrow> (int \<times> buf) exec" where
  "snprintf b n s = do {
     b \<leftarrow> (if n = 0 then Some b else blit (take (n - 1) s @ [NUL]) b);
     Some (int (length s), b) }"

subsection \<open>Comparison and search\<close>

fun strncmp :: "string \<Rightarrow> string \<Rightarrow> nat \<Rightarrow> int" where
  "strncmp s t 0 = 0"
| "strncmp [] [] (Suc n) = 0"
| "strncmp (x # xs) [] (Suc n) = of_char x"
| "strncmp [] (y # ys) (Suc n) = - of_char y"
| "strncmp (x # xs) (y # ys) (Suc n) = (if x = y then strncmp xs ys n else of_char x - of_char y)"

definition strcmp :: "string \<Rightarrow> string \<Rightarrow> int" where
  "strcmp s t = strncmp s t (Suc (max (length s) (length t)))"

fun strchr :: "string \<Rightarrow> char \<Rightarrow> nat option" where
  "strchr [] c = None"
| "strchr (x # xs) c = (if x = c then Some 0 else map_option Suc (strchr xs c))"

definition strspn :: "string \<Rightarrow> string \<Rightarrow> nat" where
  "strspn s accept = length (takeWhile (\<lambda>c. c \<in> set accept) s)"

fun strstr :: "string \<Rightarrow> string \<Rightarrow> nat option" where
  "strstr [] needle = (if needle = [] then Some 0 else None)"
| "strstr (x # xs) needle =
     (if take (length needle) (x # xs) = needle then Some 0 else map_option Suc (strstr xs needle))"

subsection \<open>Characters and numbers\<close>

definition isspace :: "char \<Rightarrow> bool" where
  "isspace c \<longleftrightarrow> c = CHR '' '' \<or> (9 \<le> (of_char c :: nat) \<and> (of_char c :: nat) \<le> 13)"

definition isdigit :: "char \<Rightarrow> bool" where
  "isdigit c \<longleftrightarrow> 48 \<le> (of_char c :: nat) \<and> (of_char c :: nat) \<le> 57"

text \<open>The value of a digit in a base up to 16, as \<open>strtol\<close> reads it.\<close>

definition digit_val :: "char \<Rightarrow> nat" where
  "digit_val c = (let k = (of_char c :: nat) in
     if 48 \<le> k \<and> k \<le> 57 then k - 48
     else if 97 \<le> k \<and> k \<le> 102 then k - 87
     else if 65 \<le> k \<and> k \<le> 70 then k - 55
     else 99)"

definition is_base :: "nat \<Rightarrow> char \<Rightarrow> bool" where
  "is_base base c \<longleftrightarrow> digit_val c < base"

definition num_val :: "nat \<Rightarrow> string \<Rightarrow> nat" where
  "num_val base ds = foldl (\<lambda>v c. v * base + digit_val c) 0 ds"

text \<open>Decimal and hexadecimal output, \<open>%d\<close> on an \<open>int\<close>, \<open>%02x\<close> and \<open>%02X\<close> on a byte.\<close>

definition digit_chr :: "nat \<Rightarrow> char" where
  "digit_chr d = char_of (if d < 10 then 48 + d else 87 + d)"

definition digit_CHR :: "nat \<Rightarrow> char" where
  "digit_CHR d = char_of (if d < 10 then 48 + d else 55 + d)"

fun dec_nat :: "nat \<Rightarrow> string" where
  "dec_nat n = (if n < 10 then [digit_chr n] else dec_nat (n div 10) @ [digit_chr (n mod 10)])"

declare dec_nat.simps [simp del]

definition dec_int :: "int \<Rightarrow> string" where
  "dec_int i = (if i < 0 then CHR ''-'' # dec_nat (nat (- i)) else dec_nat (nat i))"

definition hex2 :: "nat \<Rightarrow> string" where
  "hex2 n = [digit_chr (n div 16), digit_chr (n mod 16)]"

definition HEX2 :: "nat \<Rightarrow> string" where
  "HEX2 n = [digit_CHR (n div 16), digit_CHR (n mod 16)]"

text \<open>
  \<open>strtol\<close> in base 10 or 16 for a 32-bit \<open>long\<close>: the value, clamped to the range of the type, the
  rest of the string, which is the whole string if there is no number, and whether
  \<open>errno\<close> was set to \<open>ERANGE\<close>.
\<close>

definition split_sign :: "string \<Rightarrow> bool \<times> string" where
  "split_sign s = (if s \<noteq> [] \<and> hd s = CHR ''-'' then (True, tl s)
                   else if s \<noteq> [] \<and> hd s = CHR ''+'' then (False, tl s)
                   else (False, s))"

definition skip_0x :: "nat \<Rightarrow> string \<Rightarrow> string" where
  "skip_0x base s = (if base = 16 \<and> take 1 s = ''0'' \<and> (take 1 (drop 1 s) = ''x'' \<or> take 1 (drop 1 s) = ''X'')
                        \<and> drop 2 s \<noteq> [] \<and> is_base 16 (hd (drop 2 s))
                     then drop 2 s else s)"

definition strtol :: "nat \<Rightarrow> string \<Rightarrow> int \<times> string \<times> bool" where
  "strtol base str =
     (let (neg, s) = split_sign (dropWhile isspace str);
          s = skip_0x base s;
          ds = takeWhile (is_base base) s;
          v = (if neg then - int (num_val base ds) else int (num_val base ds))
      in if ds = [] then (0, str, False)
         else if v > 2147483647 then (2147483647, dropWhile (is_base base) s, True)
         else if v < - 2147483648 then (- 2147483648, dropWhile (is_base base) s, True)
         else (v, dropWhile (is_base base) s, False))"

text \<open>
  The conversions of \<open>sscanf\<close> that the code uses: \<open>%wd\<close> and \<open>%wx\<close> with a field width, which
  skip white space and read at most \<open>w\<close> characters, sign included, and a literal character.
  A hexadecimal prefix with no digit behind it within the width is a matching failure.
\<close>

definition scan_num :: "nat \<Rightarrow> nat \<Rightarrow> string \<Rightarrow> (int \<times> string) option" where
  "scan_num base w str =
     (let s = dropWhile isspace str;
          field = take w s;
          (neg, f) = split_sign field;
          px = (base = 16 \<and> take 1 f = ''0'' \<and> (take 1 (drop 1 f) = ''x'' \<or> take 1 (drop 1 f) = ''X''));
          f = (if px then drop 2 f else f);
          ds = takeWhile (is_base base) f;
          used = length field - length f + length ds;
          v = int (num_val base ds)
      in if ds = [] then None else Some (if neg then - v else v, drop used s))"

fun scan_sep :: "nat \<Rightarrow> nat \<Rightarrow> char \<Rightarrow> nat \<Rightarrow> string \<Rightarrow> int list" where
  "scan_sep base w c 0 s = []"
| "scan_sep base w c (Suc k) s =
     (case scan_num base w s of None \<Rightarrow> []
      | Some (v, rest) \<Rightarrow> v # (if rest \<noteq> [] \<and> hd rest = c then scan_sep base w c k (tl rest) else []))"

subsection \<open>Facts about strings\<close>

lemma of_char_int_0 [simp]: "(of_char c :: int) = 0 \<longleftrightarrow> c = NUL"
  using of_char_eq_iff [of c NUL, where 'a = int] by simp

lemma strncmp_eq_0:
  assumes "NUL \<notin> set s" and "NUL \<notin> set t"
  shows "strncmp s t n = 0 \<longleftrightarrow> take n s = take n t"
  using assms
proof (induction s t n rule: strncmp.induct)
  case (5 x xs y ys n)
  have "(of_char x :: int) \<noteq> of_char y" if "x \<noteq> y" using that by (simp add: of_char_eq_iff)
  with 5 show ?case by auto
qed auto

lemma strcmp_eq_0:
  assumes "NUL \<notin> set s" and "NUL \<notin> set t"
  shows "strcmp s t = 0 \<longleftrightarrow> s = t"
  using strncmp_eq_0 [OF assms] by (auto simp: strcmp_def)

lemma c_str_no_NUL [simp]: "NUL \<notin> set (c_str b)"
  unfolding c_str_def by (auto dest: set_takeWhileD)

lemma c_str_append_NUL [simp]: "NUL \<notin> set s \<Longrightarrow> c_str (s @ NUL # b) = s"
  by (induction s) (auto simp: c_str_def)

lemma c_str_length: "length (c_str b) \<le> length b"
  by (simp add: c_str_def length_takeWhile_le)

lemma c_str_shorter: "NUL \<in> set b \<Longrightarrow> length (c_str b) < length b"
  by (induction b) (auto simp: c_str_def)

lemma read_str_append_NUL [simp]: "NUL \<notin> set s \<Longrightarrow> read_str (s @ NUL # b) = Some s"
  by (simp add: read_str_def)

lemma blit_length: "blit bs b = Some b' \<Longrightarrow> length b' = length b"
  by (auto simp: blit_def split: if_splits)

lemma strchr_Some: "strchr s c = Some i \<longleftrightarrow> i < length s \<and> s ! i = c \<and> c \<notin> set (take i s)"
proof (induction s arbitrary: i)
  case (Cons x xs)
  show ?case by (cases i) (auto simp: Cons)
qed simp

lemma strchr_None [simp]: "strchr s c = None \<longleftrightarrow> c \<notin> set s"
  by (induction s) auto

lemma strspn_all: "strspn s acc = length s \<longleftrightarrow> set s \<subseteq> set acc"
proof -
  have "length (takeWhile P s) = length s \<longleftrightarrow> (\<forall>x\<in>set s. P x)" for P
    by (metis takeWhile_eq_all_conv takeWhile_eq_take take_all_iff length_takeWhile_le order_refl)
  then show ?thesis by (auto simp: strspn_def)
qed

subsection \<open>Numbers: what is printed is read back\<close>

lemma of_char_char_of_nat: "n < 256 \<Longrightarrow> (of_char (char_of n :: char) :: nat) = n"
  by simp

lemma digit_val_digit_chr [simp]: "d < 16 \<Longrightarrow> digit_val (digit_chr d) = d"
  by (auto simp: digit_val_def digit_chr_def of_char_char_of_nat Let_def)

lemma digit_val_digit_CHR [simp]: "d < 16 \<Longrightarrow> digit_val (digit_CHR d) = d"
  by (auto simp: digit_val_def digit_CHR_def of_char_char_of_nat Let_def)

lemma num_val_snoc: "num_val b (ds @ [c]) = num_val b ds * b + digit_val c"
  by (simp add: num_val_def)

lemma num_val_dec_nat [simp]: "num_val 10 (dec_nat n) = n"
proof (induction n rule: dec_nat.induct)
  case (1 n)
  show ?case
  proof (cases "n < 10")
    case True
    then show ?thesis by (subst dec_nat.simps) (simp add: num_val_def)
  next
    case False
    with 1 show ?thesis by (subst dec_nat.simps) (simp add: num_val_snoc)
  qed
qed

lemma dec_nat_digits: "c \<in> set (dec_nat n) \<Longrightarrow> is_base 10 c \<and> isdigit c"
proof (induction n rule: dec_nat.induct)
  case (1 n)
  have d: "is_base 10 (digit_chr d) \<and> isdigit (digit_chr d)" if "d < 10" for d
    using that by (simp add: is_base_def isdigit_def digit_chr_def of_char_char_of_nat)
      (simp add: digit_val_def of_char_char_of_nat)
  with 1 show ?case by (subst (asm) dec_nat.simps) (auto split: if_splits)
qed

lemma dec_nat_ne [simp]: "dec_nat n \<noteq> []"
  by (subst dec_nat.simps) simp

lemma num_val_HEX2 [simp]: "n < 256 \<Longrightarrow> num_val 16 (HEX2 n) = n"
  by (simp add: HEX2_def num_val_def)

lemma num_val_hex2 [simp]: "n < 256 \<Longrightarrow> num_val 16 (hex2 n) = n"
  by (simp add: hex2_def num_val_def)

lemma dec_nat_length: "n < 10 ^ k \<Longrightarrow> 0 < k \<Longrightarrow> length (dec_nat n) \<le> k"
proof (induction n arbitrary: k rule: dec_nat.induct)
  case (1 n)
  show ?case
  proof (cases "n < 10")
    case True
    then show ?thesis using 1 by (subst dec_nat.simps) simp
  next
    case False
    then obtain j where j: "k = Suc j" "0 < j" using 1(2,3) by (cases k; cases "k - 1") auto
    with 1 False have "length (dec_nat (n div 10)) \<le> j" by (intro 1(1)) (auto simp: less_mult_imp_div_less mult.commute)
    then show ?thesis using False j by (subst dec_nat.simps) simp
  qed
qed

lemma dec_nat_no_NUL [simp]: "NUL \<notin> set (dec_nat n)"
  using dec_nat_digits [of NUL n] by (auto simp: isdigit_def)

end
