(* ===== verification/Nbu_String.thy ===== *)
theory Nbu_String
  imports C_Lib Nbu_Iter
begin

text \<open>
  The string functions of libnbu, \<open>efixo-libnbu/src/src/string.c\<close>.  A pointer that the code
  tests against \<open>NULL\<close> is an option.  The text that a format and its arguments produce is the
  argument of the \<open>printf\<close> functions.
\<close>

subsection \<open>The functions\<close>

definition nbu_string_isempty :: "string option \<Rightarrow> int" where
  "nbu_string_isempty str = (case str of None \<Rightarrow> NBU_SUCCESS
     | Some s \<Rightarrow> if s = [] then NBU_SUCCESS else NBU_ERROR)"

fun compare_loop :: "string \<Rightarrow> string \<Rightarrow> int" where
  "compare_loop (x # xs) (y # ys) = (if x = y then compare_loop xs ys else NBU_STRING_DIFFERENT)"
| "compare_loop [] [] = NBU_STRING_EQUAL"
| "compare_loop _ _ = NBU_STRING_DIFFERENT"

definition nbu_string_compare :: "string option \<Rightarrow> string option \<Rightarrow> int" where
  "nbu_string_compare str1 str2 = (case (str1, str2) of
      (Some s1, Some s2) \<Rightarrow> compare_loop s1 s2
    | _ \<Rightarrow> NBU_STRING_DIFFERENT)"

definition nbu_string_ncompare :: "string option \<Rightarrow> u32 \<Rightarrow> string option \<Rightarrow> int exec" where
  "nbu_string_ncompare str1 maxsize str2 =
     (if sint maxsize < 0 then Some NBU_STRING_DIFFERENT
      else do {
        s1 \<leftarrow> str1;
        s2 \<leftarrow> str2;
        Some (if strncmp s1 s2 (unat maxsize) \<noteq> 0 then NBU_STRING_DIFFERENT else NBU_STRING_EQUAL) })"

definition nbu_string_length :: "string \<Rightarrow> u32 \<Rightarrow> u32" where
  "nbu_string_length str maxsize =
     (if maxsize \<le> 0 then 0 else of_nat (min (length str) (unat (maxsize - 1))))"

definition set_byte :: "buf \<Rightarrow> int \<Rightarrow> char \<Rightarrow> buf exec" where
  "set_byte b i c = (if 0 \<le> i \<and> i < int (length b) then Some (b[nat i := c]) else None)"

definition get_byte :: "buf \<Rightarrow> int \<Rightarrow> char exec" where
  "get_byte b i = (if 0 \<le> i \<and> i < int (length b) then Some (b ! nat i) else None)"

definition nbu_string_copy :: "buf option \<Rightarrow> u32 \<Rightarrow> string option \<Rightarrow> (int \<times> buf option) exec" where
  "nbu_string_copy str sz src = (case (src, str) of
      (Some s, Some b) \<Rightarrow>
        if sint sz < 0 then Some (NBU_ERROR, str)
        else do {
          let len = uint sz;
          b \<leftarrow> set_byte b (len - 1) NUL;
          b \<leftarrow> strncpy b s (nat len);
          c \<leftarrow> get_byte b (len - 1);
          if c \<noteq> NUL then do {
            b \<leftarrow> set_byte b (len - 1) NUL;
            Some (NBU_ERROR, Some b) }
          else Some (NBU_SUCCESS, Some b) }
    | _ \<Rightarrow> Some (NBU_ERROR, str))"

definition nbu_string_vprintf :: "buf option \<Rightarrow> u32 \<Rightarrow> string option \<Rightarrow> (int \<times> buf option) exec" where
  "nbu_string_vprintf str sz fmt = (case (str, fmt) of
      (Some b, Some txt) \<Rightarrow>
        if sint sz < 0 then Some (NBU_ERROR, str)
        else do {
          b \<leftarrow> set_byte b (uint (sz - 1)) NUL;
          (ret, b) \<leftarrow> snprintf b (unat sz) txt;
          if ret < 0 then Some (NBU_ERROR, Some b)
          else do {
            c \<leftarrow> get_byte b (uint (sz - 1));
            if c \<noteq> NUL \<or> ret > sint sz - 1 then do {
              b \<leftarrow> set_byte b (uint (sz - 1)) NUL;
              Some (NBU_ERROR, Some b) }
            else Some (NBU_SUCCESS, Some b) } }
    | _ \<Rightarrow> Some (NBU_ERROR, str))"

definition nbu_string_printf :: "buf option \<Rightarrow> u32 \<Rightarrow> string option \<Rightarrow> (int \<times> buf option) exec" where
  "nbu_string_printf str sz fmt =
     (if str = None \<or> sint sz < 0 then Some (NBU_ERROR, str) else nbu_string_vprintf str sz fmt)"

text \<open>
  \<open>nbu_string_split\<close> keeps its items in a list of the memory of \<^typ>\<open>string mem\<close>.
  \<open>strndup\<close> and \<open>strdup\<close> return \<open>NULL\<close> when the memory is exhausted.  The search never
  advances for an empty separator.
\<close>

partial_function (option) split_loop :: "addr \<Rightarrow> string \<Rightarrow> string \<Rightarrow> string mem \<Rightarrow> (string \<times> string mem) exec" where
  "split_loop la saveptr sep m = (case strstr saveptr sep of
      None \<Rightarrow> Some (saveptr, m)
    | Some k \<Rightarrow> do {
        let (d, m) = calloc_obj (take k saveptr) m;
        (_, m) \<leftarrow> nbu_list_insert_end la d m;
        split_loop la (drop (k + length sep) saveptr) sep m })"

definition nbu_string_split :: "string \<Rightarrow> string \<Rightarrow> string mem \<Rightarrow> (int \<times> addr \<times> string mem) exec" where
  "nbu_string_split str sep m = do {
     (la, m) \<leftarrow> nbu_list_new 4 m;
     (saveptr, m) \<leftarrow> split_loop la str sep m;
     let (d, m) = calloc_obj saveptr m;
     (_, m) \<leftarrow> nbu_list_insert_end la d m;
     Some (NBU_SUCCESS, la, m) }"

definition trim_blank :: "char \<Rightarrow> bool" where
  "trim_blank c \<longleftrightarrow> c \<in> {CHR '' '', CHR 0x09, CHR 0x0A, CHR 0x0D}"

text \<open>
  The two \<open>TRIM\<close> loops.  The first stops at the NUL at the latest; the second walks down from the
  last character and reads in front of the string if every character is blank.
\<close>

fun trim_end :: "string \<Rightarrow> nat \<Rightarrow> nat exec" where
  "trim_end str 0 = None"
| "trim_end str (Suc k) = (if trim_blank (str ! k) then trim_end str k else Some (Suc k))"

definition nbu_string_trim :: "string option \<Rightarrow> buf option \<Rightarrow> u32 \<Rightarrow> (int \<times> buf option) exec" where
  "nbu_string_trim str b sz = (case str of None \<Rightarrow> Some (NBU_ERROR, b)
     | Some s \<Rightarrow> do {
         let sta = length (takeWhile trim_blank s);
         fin \<leftarrow> trim_end s (length s);
         let diff = max 0 (int fin - int sta);
         nbu_string_printf b sz (Some (take (nat diff) (drop sta s))) })"

definition nbu_string_to_int :: "string \<Rightarrow> int \<Rightarrow> int" where
  "nbu_string_to_int str default_value =
     (let (res, _, erange) = strtol 10 str in if erange then default_value else res)"

subsection \<open>Comparison\<close>

lemma compare_loop_eq: "compare_loop s t = NBU_STRING_EQUAL \<longleftrightarrow> s = t"
  by (induction s t rule: compare_loop.induct) auto

lemma string_compare_eq: "nbu_string_compare (Some s) (Some t) = NBU_STRING_EQUAL \<longleftrightarrow> s = t"
  by (simp add: nbu_string_compare_def compare_loop_eq)

lemma compare_loop_range: "compare_loop s t \<in> {NBU_STRING_EQUAL, NBU_STRING_DIFFERENT}"
  by (induction s t rule: compare_loop.induct) auto

lemma ncompare_equal:
  assumes "sint n \<ge> 0" and "NUL \<notin> set s" and "NUL \<notin> set t"
  shows "nbu_string_ncompare (Some s) n (Some t) =
    Some (if take (unat n) s = take (unat n) t then NBU_STRING_EQUAL else NBU_STRING_DIFFERENT)"
  using assms by (simp add: nbu_string_ncompare_def strncmp_eq_0)

subsection \<open>Bounded copy and print\<close>

text \<open>What both leave in a buffer: as much of the text as fits, always terminated.\<close>

definition room :: "buf \<Rightarrow> u32 \<Rightarrow> bool" where
  "room b sz \<longleftrightarrow> 0 < unat sz \<and> unat sz < 2147483648 \<and> unat sz \<le> length b"

lemma room_uint:
  assumes "room b sz"
  shows "uint (sz - 1) = int (unat sz - 1)" and "sint sz = int (unat sz)" and "uint sz = int (unat sz)"
proof -
  show "uint sz = int (unat sz)" by simp
  have "unat (sz - 1) = unat sz - 1"
    using assms by (intro unat_minus_one) (auto simp: room_def)
  then have "int (unat (sz - 1)) = int (unat sz - 1)" by (rule arg_cong)
  then show "uint (sz - 1) = int (unat sz - 1)" by simp
  show "sint sz = int (unat sz)" using assms by (simp add: room_def sint_u32_small)
qed

lemma copy_shape:
  assumes "n = Suc k"
  shows "take n (s @ replicate n c) = take k (s @ replicate n c) @ [if length s < n then c else s ! k]"
proof -
  have "take (Suc k) (s @ replicate n c) = take k (s @ replicate n c) @ [(s @ replicate n c) ! k]"
    using assms by (intro take_Suc_conv_app_nth) simp
  then show ?thesis using assms by (auto simp: nth_append less_Suc_eq)
qed

lemma string_copy_ok:
  assumes r: "room b sz" and s: "NUL \<notin> set s"
  shows "nbu_string_copy (Some b) sz (Some s) =
    Some (if length s < unat sz then NBU_SUCCESS else NBU_ERROR,
          Some (take (unat sz - 1) (s @ replicate (unat sz) NUL) @ NUL # drop (unat sz) b))"
proof -
  obtain k where k: "unat sz = Suc k" "Suc k \<le> length b" using r by (cases "unat sz") (auto simp: room_def)
  define pre where "pre = take k (s @ replicate (Suc k) NUL)"
  let ?x = "if length s < Suc k then NUL else s ! k"
  have len: "length pre = k" by (simp add: pre_def)
  have "take (Suc k) (s @ replicate (Suc k) NUL) = pre @ [?x]"
    unfolding pre_def by (rule copy_shape) simp
  then have cp: "strncpy (b[k := NUL]) s (Suc k) = Some ((pre @ [?x]) @ drop (Suc k) b)"
    using k len by (simp only: strncpy_def blit_def) simp
  have b1: "set_byte b (int k) NUL = Some (b[k := NUL])" using k by (simp add: set_byte_def)
  have "?x \<noteq> NUL" if "\<not> length s < Suc k" using s that by (metis Suc_le_lessD not_less nth_mem)
  then show ?thesis
    using k len b1 cp r pre_def [symmetric]
    by (auto simp: nbu_string_copy_def room_uint [OF r] get_byte_def set_byte_def nth_append
        list_update_append room_def Let_def simp del: replicate_Suc)
qed

lemma string_printf_ok:
  assumes r: "room b sz" and s: "NUL \<notin> set txt"
  obtains b' where "nbu_string_printf (Some b) sz (Some txt) =
      Some (if length txt < unat sz then NBU_SUCCESS else NBU_ERROR, Some (take (unat sz - 1) txt @ NUL # b'))"
    and "length (take (unat sz - 1) txt @ NUL # b') = length b"
proof -
  obtain k where k: "unat sz = Suc k" "Suc k \<le> length b" using r by (cases "unat sz") (auto simp: room_def)
  define pre where "pre = take k txt"
  let ?b1 = "b[k := NUL]" and ?b' = "drop (Suc (length pre)) (b[k := NUL])"
  have len: "length pre \<le> k" by (simp add: pre_def)
  have b1: "set_byte b (int k) NUL = Some ?b1" using k by (simp add: set_byte_def)
  have pr: "snprintf ?b1 (Suc k) txt = Some (int (length txt), pre @ NUL # ?b')"
    using k len by (simp add: snprintf_def blit_def pre_def [symmetric])
  have lenb: "length (pre @ NUL # ?b') = length b" using k len by simp
  have last: "(pre @ NUL # ?b') ! k = NUL"
    using k len by (auto simp: nth_append nth_Cons')
  have upd: "(pre @ NUL # ?b')[k := NUL] = pre @ NUL # ?b'" by (metis last list_update_id)
  show ?thesis
    by (rule that [of ?b'])
      (use k b1 pr last upd lenb r in \<open>auto simp: nbu_string_printf_def nbu_string_vprintf_def room_uint [OF r]
        get_byte_def set_byte_def room_def pre_def [symmetric]\<close>)
qed

subsection \<open>Buffers that are read back\<close>

text \<open>
  Printing into and copying to a buffer of \<open>n\<close> bytes that is then read as a string.  Both
  write the terminating NUL, so what the buffer held before does not show.
\<close>

definition bprintf :: "nat \<Rightarrow> string \<Rightarrow> (int \<times> string) exec" where
  "bprintf n txt = do {
     (r, b) \<leftarrow> nbu_string_printf (Some (replicate n NUL)) (of_nat n) (Some txt);
     b \<leftarrow> b;
     s \<leftarrow> read_str b;
     Some (r, s) }"

definition bcopy :: "nat \<Rightarrow> string \<Rightarrow> (int \<times> string) exec" where
  "bcopy n src = do {
     (r, b) \<leftarrow> nbu_string_copy (Some (replicate n NUL)) (of_nat n) (Some src);
     b \<leftarrow> b;
     s \<leftarrow> read_str b;
     Some (r, s) }"

lemma bprintf_ok [c_string]:
  assumes "0 < n" and "n < 2147483648" and "NUL \<notin> set txt"
  shows "bprintf n txt = Some (if length txt < n then NBU_SUCCESS else NBU_ERROR, take (n - 1) txt)"
proof -
  have u: "unat (of_nat n :: u32) = n" using assms(2) by simp
  have "room (replicate n NUL) (of_nat n)" using assms(1,2) by (simp add: room_def u)
  from string_printf_ok [OF this assms(3)] obtain b' where
    "nbu_string_printf (Some (replicate n NUL)) (of_nat n) (Some txt) =
       Some (if length txt < n then NBU_SUCCESS else NBU_ERROR, Some (take (n - 1) txt @ NUL # b'))"
    unfolding u by auto
  moreover have "NUL \<notin> set (take (n - 1) txt)" using assms(3) by (auto dest: in_set_takeD)
  ultimately show ?thesis by (simp add: bprintf_def)
qed

lemma c_str_append_no_NUL: "NUL \<notin> set s \<Longrightarrow> c_str (s @ b) = s @ c_str b"
  by (induction s) (auto simp: c_str_def)

lemma c_str_replicate_NUL [simp]: "c_str (replicate n NUL @ b) = (if n = 0 then c_str b else [])"
  by (cases n) (auto simp: c_str_def)

lemma c_str_padded:
  assumes "NUL \<notin> set s"
  shows "c_str (take k (s @ replicate n NUL) @ [NUL]) = take k s"
proof -
  have "NUL \<notin> set (take k s)" using assms by (auto dest: in_set_takeD)
  then show ?thesis
    by (simp add: c_str_append_no_NUL take_replicate) (simp add: c_str_def)
qed

lemma bcopy_ok [c_string]:
  assumes "0 < n" and "n < 2147483648" and "NUL \<notin> set src"
  shows "bcopy n src = Some (if length src < n then NBU_SUCCESS else NBU_ERROR, take (n - 1) src)"
proof -
  have u: "unat (of_nat n :: u32) = n" using assms(2) by simp
  have r: "room (replicate n NUL) (of_nat n)" using assms(1,2) by (simp add: room_def u)
  show ?thesis
    using string_copy_ok [OF r assms(3)] c_str_padded [OF assms(3), of "n - 1" n]
    unfolding u bcopy_def read_str_def by simp
qed

lemma copy_into:
  assumes "room b sz" and "NUL \<notin> set s"
  obtains r b' where "nbu_string_copy (Some b) sz (Some s) = Some (r, Some b')"
    and "read_str b' = Some (take (unat sz - 1) s)" and "length b' = length b"
proof -
  let ?b' = "take (unat sz - 1) (s @ replicate (unat sz) NUL) @ NUL # drop (unat sz) b"
  have n: "NUL \<notin> set (take (unat sz - 1) s)" using assms(2) by (auto dest: in_set_takeD)
  have "c_str ?b' = take (unat sz - 1) s"
    using n by (simp add: c_str_append_no_NUL take_replicate) (simp add: c_str_def)
  then have "read_str ?b' = Some (take (unat sz - 1) s)" by (simp add: read_str_def)
  moreover have "length ?b' = length b" using assms(1) by (auto simp: room_def min_def)
  ultimately show ?thesis using that string_copy_ok [OF assms] by blast
qed

end
