(* ===== verification/Session_Table.thy ===== *)
theory Session_Table
  imports Nbu_Objs Nbu_String
begin

text \<open>
  What the two session tables of the firmware share, the one of libewf
  (\<open>efixo-libewf/src/src/core/ewf_session.c\<close>) and the one of the REST API
  (\<open>efixo-api/src/src/ewf_session.c\<close>): the session structure, the search by identifier,
  and the contract of a table as a locale, whose consequences are proved once and
  hold for both providers.
\<close>

record timeval =
  tv_sec :: int
  tv_usec :: int

record ewf_session_t =
  s_activated :: int
  s_id :: buf
  s_tv :: timeval

abbreviation (input) SID_SIZE :: nat where "SID_SIZE \<equiv> 41"
abbreviation (input) SESSION_TIMEOUT :: int where "SESSION_TIMEOUT \<equiv> 3600"

type_synonym smem = "ewf_session_t mem"

subsection \<open>Code that both files contain\<close>

definition session_matches :: "string \<Rightarrow> ewf_session_t \<Rightarrow> bool exec" where
  "session_matches session_id ses = do {
     c \<leftarrow> nbu_string_ncompare (Some (c_str (s_id ses))) 41 (Some session_id);
     Some (c = NBU_STRING_EQUAL) }"

text \<open>The body of the search loops: break at the session with the identifier.\<close>

definition get_body :: "string \<Rightarrow> addr \<Rightarrow> addr \<Rightarrow> smem \<Rightarrow> (bool \<times> addr \<times> smem) exec" where
  "get_body session_id ses r m = do {
     w \<leftarrow> m_objs m ses;
     b \<leftarrow> session_matches session_id w;
     if b then Some (True, ses, m) else Some (False, r, m) }"

definition remove_one_body :: "addr \<Rightarrow> string \<Rightarrow> addr \<Rightarrow> bool \<Rightarrow> smem \<Rightarrow> (bool \<times> bool \<times> smem) exec" where
  "remove_one_body la session_id ses found m = do {
     w \<leftarrow> m_objs m ses;
     b \<leftarrow> session_matches session_id w;
     if b then do {
       m \<leftarrow> nbu_list_delete_backward la m;
       Some (True, True, m) }
     else Some (False, found, m) }"

text \<open>The condition of the cleaners, with the time-out of a session that is not activated.\<close>

definition session_stale :: "int \<Rightarrow> int \<Rightarrow> ewf_session_t \<Rightarrow> bool exec" where
  "session_stale pre_timeout now ses = do {
     pre \<leftarrow> (if s_activated ses = 0
            then do { t \<leftarrow> s32_add (tv_sec (s_tv ses)) pre_timeout; Some (t < now) }
            else Some False);
     if pre then Some True
     else do { t \<leftarrow> s32_add (tv_sec (s_tv ses)) SESSION_TIMEOUT; Some (t < now) } }"

subsection \<open>The abstract table\<close>

type_synonym stable = "(addr \<times> ewf_session_t) list"

definition sid :: "ewf_session_t \<Rightarrow> string" where
  "sid ses = c_str (s_id ses)"

definition session_ok :: "ewf_session_t \<Rightarrow> bool" where
  "session_ok ses \<longleftrightarrow> length (s_id ses) = SID_SIZE \<and> NUL \<in> set (s_id ses) \<and>
     0 \<le> tv_sec (s_tv ses) \<and> tv_sec (s_tv ses) + SESSION_TIMEOUT \<le> 2147483647"

fun lookup :: "string \<Rightarrow> stable \<Rightarrow> addr" where
  "lookup i [] = 0"
| "lookup i ((d, w) # ps) = (if sid w = i then d else lookup i ps)"

fun remove_first :: "string \<Rightarrow> stable \<Rightarrow> stable" where
  "remove_first i [] = []"
| "remove_first i ((d, w) # ps) = (if sid w = i then ps else (d, w) # remove_first i ps)"

definition expired :: "int \<Rightarrow> int \<Rightarrow> ewf_session_t \<Rightarrow> bool" where
  "expired pre_timeout now ses \<longleftrightarrow>
     s_activated ses = 0 \<and> tv_sec (s_tv ses) + pre_timeout < now \<or>
     tv_sec (s_tv ses) + SESSION_TIMEOUT < now"

definition table_at :: "addr \<Rightarrow> smem \<Rightarrow> stable \<Rightarrow> bool" where
  "table_at la m ps \<longleftrightarrow> objs_at m la ps \<and> (\<forall>(d, w) \<in> set ps. session_ok w)"

lemma session_matches_ok [session_simps]:
  assumes "session_ok w" and "NUL \<notin> set i"
  shows "session_matches i w = Some (sid w = i)"
proof -
  have "length (sid w) < 41"
    using assms(1) c_str_shorter [of "s_id w"] by (simp add: sid_def session_ok_def)
  then have "take 41 (sid w) = take 41 i \<longleftrightarrow> sid w = i" by (rule take_eq_short)
  moreover have "sint (41 :: u32) = 41" "unat (41 :: u32) = 41" by (simp_all add: sint_u32)
  ultimately show ?thesis
    using assms(2) by (simp add: session_matches_def nbu_string_ncompare_def strncmp_eq_0 sid_def)
qed

lemma session_stale_ok [session_simps]:
  assumes "session_ok w" and "0 \<le> pre" and "pre \<le> SESSION_TIMEOUT"
  shows "session_stale pre now w = Some (expired pre now w)"
  using assms by (auto simp: session_stale_def expired_def session_ok_def s32_add_def)

lemma lookup_cases:
  obtains (none) "\<forall>(d, w) \<in> set ps. sid w \<noteq> i" and "lookup i ps = 0" and "remove_first i ps = ps"
    | (found) qs d w rs where "ps = qs @ (d, w) # rs" and "\<forall>(d, w) \<in> set qs. sid w \<noteq> i" and "sid w = i"
      and "lookup i ps = d" and "remove_first i ps = qs @ rs"
proof (cases "\<exists>p \<in> set ps. sid (snd p) = i")
  case True
  then obtain qs p rs where s: "ps = qs @ p # rs" "sid (snd p) = i" "\<forall>p \<in> set qs. sid (snd p) \<noteq> i"
    using split_list_first_prop [of ps "\<lambda>p. sid (snd p) = i"] by blast
  have "lookup i (qs @ p # rs) = fst p \<and> remove_first i (qs @ p # rs) = qs @ rs"
    using s(2,3) by (cases p; induction qs) (auto split: prod.splits)
  with s show ?thesis by (intro found [of qs "fst p" "snd p" rs]) auto
next
  case False
  then have "lookup i ps = 0 \<and> remove_first i ps = ps" by (induction ps) auto
  with False show ?thesis by (intro none) auto
qed

subsection \<open>The loops on the memory\<close>

lemma table_session: "table_at la m ps \<Longrightarrow> (d, w) \<in> set ps \<Longrightarrow> session_ok w \<and> m_objs m d = Some w"
  by (auto simp: table_at_def dest: objs_at_obj)

lemma table_upd_iter [simp]: "table_at la (upd_iter la v m) ps = table_at la m ps"
  by (simp add: table_at_def)

lemma table_search:
  assumes T: "table_at la m ps" and i: "NUL \<notin> set i"
  obtains d' v where "nbu_list_for_each_data la (get_body i) d0 0 m = Some (d', lookup i ps, upd_iter la v m)"
    and "d' = (if lookup i ps = 0 then last (d0 # map fst ps) else lookup i ps)"
proof (cases rule: lookup_cases [of ps i])
  case none
  have O: "objs_at m la ps" using T by (simp add: table_at_def)
  have body: "get_body i d 0 (upd_iter la v m) = Some (False, 0, upd_iter la v m)" if "(d, w) \<in> set ps" for d w v
    using that table_session [OF T that] i none(1) by (auto simp: get_body_def session_simps heap_simps)
  obtain v where "nbu_list_for_each_data la (get_body i) d0 0 m = Some (last (d0 # map fst ps), 0, upd_iter la v m)"
    by (rule objs_search_none [OF O, of "get_body i" 0 d0]) (rule body)
  then show ?thesis by (intro that [of "last (d0 # map fst ps)" v]) (simp_all add: none(2))
next
  case (found qs d w rs)
  have body: "get_body i e 0 (upd_iter la v m) = Some (False, 0, upd_iter la v m)" if "(e, u) \<in> set qs" for e u v
    using that table_session [OF T, of e u] i found(1,2) by (auto simp: get_body_def session_simps heap_simps)
  have O: "objs_at m la (qs @ (d, w) # rs)" using T found(1) by (simp add: table_at_def)
  have dw: "session_ok w" "m_objs m d = Some w" "d \<noteq> 0"
    using table_session [OF T, of d w] objs_at_bound [OF O, of d w] found(1) by auto
  have "get_body i d 0 (upd_iter la y m) = Some (True, d, upd_iter la y m)" for y
    using dw i found(3) by (simp add: get_body_def session_simps heap_simps)
  then show ?thesis
    using objs_search_found [OF O, of "get_body i" 0 d0] body that found(4) dw(3) by metis
qed

lemma table_remove:
  assumes T: "table_at la m ps" and i: "NUL \<notin> set i"
  obtains d' m' where "nbu_list_for_each_data la (remove_one_body la i) d0 False m = Some (d', lookup i ps \<noteq> 0, m')"
    and "table_at la m' (remove_first i ps)"
    and "m_objs m' = (if lookup i ps = 0 then m_objs m else (m_objs m)(lookup i ps := None))"
    and "m_brk m' = m_brk m" and "m_avail m' = m_avail m"
proof (cases rule: lookup_cases [of ps i])
  case none
  have O: "objs_at m la ps" using T by (simp add: table_at_def)
  have body: "remove_one_body la i d False (upd_iter la v m) = Some (False, False, upd_iter la v m)"
    if "(d, w) \<in> set ps" for d w v
    using that table_session [OF T that] i none(1) by (auto simp: remove_one_body_def session_simps heap_simps)
  obtain v where "nbu_list_for_each_data la (remove_one_body la i) d0 False m =
      Some (last (d0 # map fst ps), False, upd_iter la v m)"
    by (rule objs_search_none [OF O, of "remove_one_body la i" False d0]) (rule body)
  then show ?thesis
    by (intro that [of "last (d0 # map fst ps)" "upd_iter la v m"]) (simp_all add: none(2,3) T heap_simps)
next
  case (found qs d w rs)
  have O: "objs_at m la (qs @ (d, w) # rs)" using T found(1) by (simp add: table_at_def)
  have body: "remove_one_body la i e False (upd_iter la v m) = Some (False, False, upd_iter la v m)"
    if "(e, u) \<in> set qs" for e u v
    using that table_session [OF T, of e u] i found(1,2) by (auto simp: remove_one_body_def session_simps heap_simps)
  obtain as y bs where C: "cursor m la as qs (y # bs) ((d, w) # rs)"
    and run: "nbu_list_for_each_data la (remove_one_body la i) d0 False m =
      for_each_loop la (remove_one_body la i) (last (d0 # map fst qs)) False (upd_iter la y m)"
    and brk: "\<And>s' m' x. remove_one_body la i d False (upd_iter la y m) = Some (True, s', m') \<Longrightarrow>
      for_each_loop la (remove_one_body la i) x False (upd_iter la y m) = Some (d, s', m')"
    using objs_search_found [OF O, of "remove_one_body la i" False d0] body by blast
  let ?m = "upd_iter la y m"
  have L: "list_at m la (as @ y # bs)" using C by (simp add: cursor_def)
  have O': "objs_at ?m la (qs @ (d, w) # rs)" and C': "cursor ?m la as qs (y # bs) ((d, w) # rs)"
    and it: "at_iter ?m la (y # bs)" using O C at_iter_Cons [OF L] by (simp_all add: cursor_def heap_simps)
  obtain m1 where m1: "nbu_list_delete_backward la ?m = Some m1" "objs_at m1 la (qs @ rs)"
    "m_objs m1 = (m_objs ?m)(d := None)" "m_brk m1 = m_brk ?m" "m_avail m1 = m_avail ?m"
    using objs_delete_at [OF O' C' it] by metis
  have dw: "session_ok w" "m_objs m d = Some w" "d \<noteq> 0"
    using table_session [OF T, of d w] objs_at_bound [OF O, of d w] found(1) by auto
  have "remove_one_body la i d False ?m = Some (True, True, m1)"
    using dw i found(3) m1(1) by (simp add: remove_one_body_def session_simps heap_simps)
  moreover have "table_at la m1 (qs @ rs)" using m1(2) T found(1) by (auto simp: table_at_def)
  ultimately show ?thesis
    using that [of d m1] run brk m1 found(4,5) dw(3) by (simp add: heap_simps)
qed

lemma table_clean:
  assumes T: "table_at la m ps" and pre: "0 \<le> pre" "pre \<le> SESSION_TIMEOUT"
  obtains d' m' where "nbu_list_for_each_data la (remove_body la (session_stale pre now)) d0 0 m =
      Some (d', int (length (filter (\<lambda>p. expired pre now (snd p)) ps)), m')"
    and "table_at la m' (filter (\<lambda>p. \<not> expired pre now (snd p)) ps)"
    and "m_objs m' = (\<lambda>x. if x \<in> fst ` set (filter (\<lambda>p. expired pre now (snd p)) ps) then None else m_objs m x)"
    and "m_brk m' = m_brk m" and "m_avail m' = m_avail m"
proof -
  have O: "objs_at m la ps" using T by (simp add: table_at_def)
  have "session_stale pre now w = Some (expired pre now w)" if "(d, w) \<in> set ps" for d w
    using table_session [OF T that] pre by (simp add: session_simps)
  then obtain d' m' where "nbu_list_for_each_data la (remove_body la (session_stale pre now)) d0 0 m =
      Some (d', 0 + int (length (filter (\<lambda>p. expired pre now (snd p)) ps)), m')"
    and "objs_at m' la (filter (\<lambda>p. \<not> expired pre now (snd p)) ps)"
    and "m_objs m' = (\<lambda>x. if x \<in> fst ` set (filter (\<lambda>p. expired pre now (snd p)) ps) then None else m_objs m x)"
    and "m_brk m' = m_brk m" and "m_avail m' = m_avail m"
    by (rule objs_filter [OF O, where P = "expired pre now"])
  then show ?thesis
    using that [of d' m'] T by (auto simp: table_at_def)
qed

subsection \<open>The contract of a session table\<close>

text \<open>The global variable \<open>ewf_session_list\<close> and the memory.\<close>

record session_state =
  ewf_session_list :: addr
  ss_mem :: smem

definition table :: "session_state \<Rightarrow> stable \<Rightarrow> bool" where
  "table st ps \<longleftrightarrow> table_at (ewf_session_list st) (ss_mem st) ps"

definition unique_ids :: "stable \<Rightarrow> bool" where
  "unique_ids ps \<longleftrightarrow> distinct (map (sid \<circ> snd) ps)"

lemma lookup_absent: "\<forall>p \<in> set ps. sid (snd p) \<noteq> i \<Longrightarrow> lookup i ps = 0"
  by (induction ps) auto

lemma lookup_remove_unique: "unique_ids ps \<Longrightarrow> lookup i (remove_first i ps) = 0"
proof (induction ps)
  case (Cons p ps)
  then have "lookup (sid (snd p)) ps = 0"
    by (intro lookup_absent) (auto simp: unique_ids_def image_iff)
  with Cons show ?case by (cases p) (auto simp: unique_ids_def)
qed simp

lemma table_split:
  assumes "table st (qs @ (d, w) # rs)"
  shows "m_objs (ss_mem st) d = Some w" and "session_ok w" and "d \<noteq> 0"
  using assms by (auto simp: table_def table_at_def objs_at_def)

lemma table_update:
  assumes T: "table st (qs @ (d, w) # rs)" and w': "session_ok w'"
  shows "table (st\<lparr>ss_mem := (ss_mem st)\<lparr>m_objs := (m_objs (ss_mem st))(d \<mapsto> w')\<rparr>\<rparr>) (qs @ (d, w') # rs)"
  using T w' objs_update by (auto simp: table_def table_at_def)

lemma table_mem:
  assumes "table st ps" and "m_nodes m' = m_nodes (ss_mem st)" "m_lists m' = m_lists (ss_mem st)" "m_brk (ss_mem st) \<le> m_brk m'"
    and "\<And>d w. (d, w) \<in> set ps \<Longrightarrow> m_objs m' d = m_objs (ss_mem st) d"
  shows "table (st\<lparr>ss_mem := m'\<rparr>) ps"
  using assms objs_at_mem [of "ss_mem st" "ewf_session_list st" ps m'] by (simp add: table_def table_at_def)

lemma table_fresh:
  assumes "table st ps"
  shows "m_brk (ss_mem st) \<noteq> ewf_session_list st" and "m_brk (ss_mem st) \<notin> fst ` set ps" and "0 < m_brk (ss_mem st)"
  using assms objs_at_header [of "ss_mem st" "ewf_session_list st" ps] objs_at_bound [of "ss_mem st" "ewf_session_list st" ps]
  by (fastforce simp: table_def table_at_def)+

lemma table_lookup_none:
  assumes "table st ps" and "lookup i ps = 0"
  shows "\<forall>(d, w) \<in> set ps. sid w \<noteq> i"
proof (cases rule: lookup_cases [of ps i])
  case (found qs d w rs)
  with table_split(3) [of st qs d w rs] assms show ?thesis by simp
qed

lemma lookup_unique:
  assumes "unique_ids (qs @ (d, w) # rs)"
  shows "lookup (sid w) (qs @ (d, w) # rs) = d" and "remove_first (sid w) (qs @ (d, w) # rs) = qs @ rs"
  using assms by (induction qs) (auto simp: unique_ids_def)

text \<open>A concrete table with one session, for the examples: header 1, object 2, node 3.\<close>

definition ex_session :: ewf_session_t where
  "ex_session = \<lparr>s_activated = 0, s_id = ''ab'' @ replicate 39 NUL, s_tv = \<lparr>tv_sec = 1000, tv_usec = 0\<rparr>\<rparr>"

definition ex_sess :: "nat \<Rightarrow> session_state" where
  "ex_sess k = \<lparr>ewf_session_list = 1, ss_mem = \<lparr>
     m_nodes = [1 \<mapsto> \<lparr>nd_prev = 3, nd_next = 3, nd_data = 0\<rparr>, 3 \<mapsto> \<lparr>nd_prev = 1, nd_next = 1, nd_data = 2\<rparr>],
     m_lists = [1 \<mapsto> \<lparr>l_count = 1, l_data_size = 56, l_term = None, l_iter = 0\<rparr>],
     m_objs = [2 \<mapsto> ex_session], m_brk = 4, m_avail = k\<rparr>\<rparr>"

lemma ex_session_ok [simp]: "session_ok ex_session" "sid ex_session = ''ab''" "s_activated ex_session = 0"
  "s_tv ex_session = \<lparr>tv_sec = 1000, tv_usec = 0\<rparr>"
  by (simp_all add: session_ok_def ex_session_def sid_def c_str_def)

lemma ex_table [simp]: "table (ex_sess k) [(2, ex_session)]"
  unfolding table_def table_at_def
proof
  show "objs_at (ss_mem (ex_sess k)) (ewf_session_list (ex_sess k)) [(2, ex_session)]"
    by (rule objs_atI [where as = "[3]"]) (simp_all add: ex_sess_def list_at_def live_def ring_def nxt_def prv_def dat_def)
qed simp

locale session_table =
  fixes get :: "string \<Rightarrow> session_state \<Rightarrow> (addr \<times> session_state) exec"
    and remove :: "string \<Rightarrow> session_state \<Rightarrow> (int \<times> session_state) exec"
    and clean :: "int \<Rightarrow> session_state \<Rightarrow> (int \<times> session_state) exec"
    and pre_timeout :: int
  assumes get_law: "table st ps \<Longrightarrow> NUL \<notin> set i \<Longrightarrow>
      \<exists>st'. get i st = Some (lookup i ps, st') \<and> table st' ps"
    and remove_law: "table st ps \<Longrightarrow> NUL \<notin> set i \<Longrightarrow>
      \<exists>st'. remove i st = Some (if lookup i ps = 0 then EWF_ERROR else EWF_SUCCESS, st') \<and>
        table st' (remove_first i ps)"
    and clean_law: "table st ps \<Longrightarrow>
      \<exists>st'. clean now st = Some (int (length (filter (\<lambda>p. expired pre_timeout now (snd p)) ps)), st') \<and>
        table st' (filter (\<lambda>p. \<not> expired pre_timeout now (snd p)) ps)"
begin

lemma remove_then_get:
  assumes "table st ps" and "unique_ids ps" and "NUL \<notin> set i"
  shows "\<exists>r st1 st2. remove i st = Some (r, st1) \<and> get i st1 = Some (0, st2) \<and> table st2 (remove_first i ps)"
proof -
  obtain st1 where st1: "remove i st = Some (if lookup i ps = 0 then EWF_ERROR else EWF_SUCCESS, st1)"
    "table st1 (remove_first i ps)" using remove_law [OF assms(1,3)] by blast
  with get_law [OF st1(2) assms(3)] lookup_remove_unique [OF assms(2), of i] show ?thesis by metis
qed

lemma clean_then_get:
  assumes "table st ps" and "NUL \<notin> set i"
  shows "\<exists>n st1 p st2. clean now st = Some (n, st1) \<and> get i st1 = Some (p, st2) \<and>
    (p \<noteq> 0 \<longrightarrow> (\<exists>w. (p, w) \<in> set ps \<and> sid w = i \<and> \<not> expired pre_timeout now w))"
proof -
  let ?qs = "filter (\<lambda>p. \<not> expired pre_timeout now (snd p)) ps"
  obtain n st1 where st1: "clean now st = Some (n, st1)" "table st1 ?qs"
    using clean_law [OF assms(1)] by blast
  obtain st2 where st2: "get i st1 = Some (lookup i ?qs, st2)" using get_law [OF st1(2) assms(2)] by blast
  have "\<exists>w. (lookup i ?qs, w) \<in> set ?qs \<and> sid w = i" if "lookup i ?qs \<noteq> 0"
    using that by (cases rule: lookup_cases [of ?qs i]) auto
  then show ?thesis using st1(1) st2 by auto
qed

lemma clean_idempotent:
  assumes "table st ps"
  shows "\<exists>n st1 st2. clean now st = Some (n, st1) \<and> clean now st1 = Some (0, st2)"
proof -
  let ?qs = "filter (\<lambda>p. \<not> expired pre_timeout now (snd p)) ps"
  obtain n st1 where st1: "clean now st = Some (n, st1)" "table st1 ?qs"
    using clean_law [OF assms] by blast
  have "length (filter (\<lambda>p. expired pre_timeout now (snd p)) ?qs) = 0" by (simp add: filter_empty_conv)
  with clean_law [OF st1(2), of now] st1(1) show ?thesis by auto
qed

end

end
