(* ===== verification/Ewf_Session.thy ===== *)
theory Ewf_Session
  imports Session_Table
begin

text \<open>
  The session table of libewf, \<open>efixo-libewf/src/src/core/ewf_session.c\<close>.  The result of
  \<open>gettimeofday\<close> and of reading \<open>/dev/random\<close> are arguments.
\<close>

definition ewf_session_init :: "smem \<Rightarrow> session_state exec" where
  "ewf_session_init m = do {
     (la, m) \<leftarrow> nbu_list_new 56 m;
     Some \<lparr>ewf_session_list = la, ss_mem = m\<rparr> }"

definition ewf_session_fini :: "session_state \<Rightarrow> smem exec" where
  "ewf_session_fini st = nbu_list_destroy (ewf_session_list st) (ss_mem st)"

definition ewf_session_list_add :: "addr \<Rightarrow> session_state \<Rightarrow> (int \<times> session_state) exec" where
  "ewf_session_list_add ses st = do {
     (r, m) \<leftarrow> nbu_list_insert_end (ewf_session_list st) ses (ss_mem st);
     Some (if r = NBU_SUCCESS then EWF_SUCCESS else EWF_ERROR, st\<lparr>ss_mem := m\<rparr>) }"

definition ewf_session_list_remove :: "string option \<Rightarrow> session_state \<Rightarrow> (int \<times> session_state) exec" where
  "ewf_session_list_remove session_id st = (case session_id of
      None \<Rightarrow> Some (EWF_ERROR, st)
    | Some i \<Rightarrow> do {
        (_, found, m) \<leftarrow> nbu_list_for_each_data (ewf_session_list st)
            (remove_one_body (ewf_session_list st) i) 0 False (ss_mem st);
        Some (if found then EWF_SUCCESS else EWF_ERROR, st\<lparr>ss_mem := m\<rparr>) })"

definition ewf_session_list_get :: "string option \<Rightarrow> session_state \<Rightarrow> (addr \<times> session_state) exec" where
  "ewf_session_list_get session_id st = (case session_id of
      None \<Rightarrow> Some (0, st)
    | Some i \<Rightarrow> do {
        (_, r, m) \<leftarrow> nbu_list_for_each_data (ewf_session_list st) (get_body i) 0 0 (ss_mem st);
        Some (r, st\<lparr>ss_mem := m\<rparr>) })"

definition ewf_session_list_size :: "session_state \<Rightarrow> u32 exec" where
  "ewf_session_list_size st = nbu_list_count (ewf_session_list st) (ss_mem st)"

text \<open>The cleaner removes a session that is not activated after 5 seconds, any other after \<open>SESSION_TIMEOUT\<close>.\<close>

definition ewf_session_list_cleaner :: "int \<Rightarrow> session_state \<Rightarrow> (int \<times> session_state) exec" where
  "ewf_session_list_cleaner now st = do {
     (_, count, m) \<leftarrow> nbu_list_for_each_data (ewf_session_list st)
         (remove_body (ewf_session_list st) (session_stale 5 now)) 0 0 (ss_mem st);
     Some (count, st\<lparr>ss_mem := m\<rparr>) }"

text \<open>The lines that \<open>ewf_session_list_print\<close> logs, one per session: pointer, activated, seconds.\<close>

definition print_body :: "addr \<Rightarrow> (addr \<times> int \<times> int) list \<Rightarrow> smem \<Rightarrow> (bool \<times> (addr \<times> int \<times> int) list \<times> smem) exec" where
  "print_body ses out m = do {
     w \<leftarrow> m_objs m ses;
     Some (False, out @ [(ses, s_activated w, tv_sec (s_tv w))], m) }"

definition ewf_session_list_print :: "session_state \<Rightarrow> ((addr \<times> int \<times> int) list \<times> session_state) exec" where
  "ewf_session_list_print st = do {
     (_, out, m) \<leftarrow> nbu_list_for_each_data (ewf_session_list st) print_body 0 [] (ss_mem st);
     Some (out, st\<lparr>ss_mem := m\<rparr>) }"

text \<open>
  \<open>ewf_session_create\<close>: 20 random bytes become 40 hexadecimal digits, two at a time, each pair
  with its NUL over the start of the next.  \<open>None\<close> for the random bytes is a failed \<open>fopen\<close>.
  The structure stays allocated when the function returns \<open>NULL\<close> after the \<open>calloc\<close>.
\<close>

definition null_session :: ewf_session_t where
  "null_session = \<lparr>s_activated = 0, s_id = replicate SID_SIZE NUL, s_tv = \<lparr>tv_sec = 0, tv_usec = 0\<rparr>\<rparr>"

definition printf_at :: "buf \<Rightarrow> nat \<Rightarrow> string \<Rightarrow> buf exec" where
  "printf_at b off txt = do {
     (_, r) \<leftarrow> nbu_string_printf (Some (drop off b)) 3 (Some txt);
     map_option (\<lambda>t. take off b @ t) r }"

fun hex_loop :: "u8 list \<Rightarrow> nat \<Rightarrow> buf \<Rightarrow> buf exec" where
  "hex_loop [] n b = Some b"
| "hex_loop (r # rs) n b = do { b \<leftarrow> printf_at b (2 * n) (hex2 (unat r)); hex_loop rs (Suc n) b }"

definition ewf_session_create :: "timeval option \<Rightarrow> u8 list option \<Rightarrow> smem \<Rightarrow> (addr \<times> smem) exec" where
  "ewf_session_create time rdm m = (case time of
      None \<Rightarrow> Some (0, m)
    | Some tv \<Rightarrow> do {
        let (session, m) = calloc_obj null_session m;
        case rdm of
          None \<Rightarrow> Some (0, m)
        | Some bytes \<Rightarrow>
            if length bytes \<noteq> 20 then Some (0, m)
            else do {
              w \<leftarrow> m_objs m session;
              b \<leftarrow> hex_loop bytes 0 (s_id w);
              b \<leftarrow> set_byte b 40 NUL;
              Some (session, m\<lparr>m_objs := (m_objs m)(session \<mapsto> w\<lparr>s_id := b, s_activated := 0, s_tv := tv\<rparr>)\<rparr>) } })"

definition ewf_session_check :: "string option \<Rightarrow> session_state \<Rightarrow> (int \<times> session_state) exec" where
  "ewf_session_check i st = do {
     (p, st) \<leftarrow> ewf_session_list_get i st;
     Some (if p \<noteq> 0 then EWF_SUCCESS else EWF_ERROR, st) }"

subsection \<open>The table is a session table\<close>

lemma list_get_state:
  assumes "table st ps" and "NUL \<notin> set i"
  obtains st' where "ewf_session_list_get (Some i) st = Some (lookup i ps, st')" and "table st' ps"
    and "st' = st\<lparr>ss_mem := ss_mem st'\<rparr>" and "m_avail (ss_mem st') = m_avail (ss_mem st)"
proof -
  let ?la = "ewf_session_list st"
  obtain d' v where "nbu_list_for_each_data ?la (get_body i) 0 0 (ss_mem st) =
      Some (d', lookup i ps, upd_iter ?la v (ss_mem st))"
    using table_search [OF assms(1) [unfolded table_def] assms(2)] by blast
  then show ?thesis
    using assms(1) by (intro that [of "st\<lparr>ss_mem := upd_iter ?la v (ss_mem st)\<rparr>"])
      (simp_all add: ewf_session_list_get_def table_def heap_simps)
qed

lemma list_get_table:
  assumes "table st ps" and "NUL \<notin> set i"
  shows "\<exists>st'. ewf_session_list_get (Some i) st = Some (lookup i ps, st') \<and> table st' ps"
  by (rule list_get_state [OF assms]) blast

lemma list_remove_table:
  assumes "table st ps" and "NUL \<notin> set i"
  shows "\<exists>st'. ewf_session_list_remove (Some i) st =
      Some (if lookup i ps = 0 then EWF_ERROR else EWF_SUCCESS, st') \<and> table st' (remove_first i ps)"
proof -
  let ?la = "ewf_session_list st"
  obtain d' m' where "nbu_list_for_each_data ?la (remove_one_body ?la i) 0 False (ss_mem st) =
      Some (d', lookup i ps \<noteq> 0, m')" and "table_at ?la m' (remove_first i ps)"
    using table_remove [OF assms(1) [unfolded table_def] assms(2)] by blast
  then show ?thesis by (auto simp: ewf_session_list_remove_def table_def)
qed

lemma list_cleaner_table:
  assumes "table st ps"
  shows "\<exists>st'. ewf_session_list_cleaner now st =
      Some (int (length (filter (\<lambda>p. expired 5 now (snd p)) ps)), st') \<and>
      table st' (filter (\<lambda>p. \<not> expired 5 now (snd p)) ps)"
proof -
  let ?la = "ewf_session_list st"
  obtain d' m' where "nbu_list_for_each_data ?la (remove_body ?la (session_stale 5 now)) 0 0 (ss_mem st) =
      Some (d', int (length (filter (\<lambda>p. expired 5 now (snd p)) ps)), m')"
    and "table_at ?la m' (filter (\<lambda>p. \<not> expired 5 now (snd p)) ps)"
    by (rule table_clean [OF assms [unfolded table_def], where pre = 5 and now = now and ?d0.0 = 0]) auto
  then show ?thesis by (auto simp: ewf_session_list_cleaner_def table_def)
qed

interpretation ewf: session_table "\<lambda>i. ewf_session_list_get (Some i)" "\<lambda>i. ewf_session_list_remove (Some i)"
  ewf_session_list_cleaner 5
  by unfold_locales (rule list_get_table list_remove_table list_cleaner_table; assumption)+

subsection \<open>Creating and adding sessions\<close>

lemma hex2_length [simp]: "length (hex2 n) = 2"
  by (simp add: hex2_def)

lemma digit_chr_NUL [simp]: "d < 16 \<Longrightarrow> digit_chr d \<noteq> NUL"
proof
  assume "d < 16" and "digit_chr d = NUL"
  then have "digit_val NUL = d" by (metis digit_val_digit_chr)
  then show False using \<open>d < 16\<close> by (simp add: digit_val_def)
qed

lemma hex2_NUL [simp]: "n < 256 \<Longrightarrow> NUL \<notin> set (hex2 n)"
  using digit_chr_NUL [of "n div 16"] digit_chr_NUL [of "n mod 16"] by (simp add: hex2_def eq_commute [of NUL])

lemma unat_u8_less [simp]: "unat (r :: u8) < 256"
  using unsigned_less [of r] by simp

definition hex_id :: "u8 list \<Rightarrow> string" where
  "hex_id bytes = concat (map (\<lambda>r. hex2 (unat r)) bytes)"

lemma hex_id_length [simp]: "length (hex_id bs) = 2 * length bs"
  by (induction bs) (simp_all add: hex_id_def)

lemma hex_id_NUL [simp]: "NUL \<notin> set (hex_id bs)"
  by (auto simp: hex_id_def)

lemma printf_at_hex:
  assumes "length pre = off" and "3 \<le> length rest"
  obtains rest' where "printf_at (pre @ rest) off (hex2 (unat (r :: u8))) = Some (pre @ hex2 (unat r) @ NUL # rest')"
    and "length rest' + 3 = length rest"
proof -
  have u: "unat (3 :: u32) = 3" by simp
  have "room rest 3" using assms(2) by (simp add: room_def)
  from string_printf_ok [OF this hex2_NUL [OF unat_u8_less]] obtain b' where
    "nbu_string_printf (Some rest) 3 (Some (hex2 (unat r))) =
      Some (NBU_SUCCESS, Some (hex2 (unat r) @ NUL # b'))" and "length (hex2 (unat r) @ NUL # b') = length rest"
    unfolding u by auto
  then show ?thesis
    using that [of b'] assms(1) by (simp add: printf_at_def)
qed

lemma hex_loop_ok:
  assumes "length pre = 2 * n" and "length rest = 2 * length bytes"
  shows "hex_loop bytes n (pre @ NUL # rest) = Some (pre @ hex_id bytes @ [NUL])"
  using assms
proof (induction bytes arbitrary: n pre rest)
  case (Cons r rs)
  obtain rest' where r': "printf_at (pre @ NUL # rest) (2 * n) (hex2 (unat r)) = Some (pre @ hex2 (unat r) @ NUL # rest')"
    "length rest' + 3 = length (NUL # rest)"
    by (rule printf_at_hex [of pre "2 * n" "NUL # rest" r]) (use Cons.prems in auto)
  have "length rest' = 2 * length rs" using Cons.prems(2) r'(2) by simp
  then have "hex_loop rs (Suc n) ((pre @ hex2 (unat r)) @ NUL # rest') =
      Some ((pre @ hex2 (unat r)) @ hex_id rs @ [NUL])"
    using Cons.IH [of "pre @ hex2 (unat r)" "Suc n" rest'] Cons.prems by auto
  with r'(1) show ?case by (auto simp: hex_id_def)
qed (simp add: hex_id_def)

lemma hex_loop_zeroed:
  assumes "k = 2 * length bytes"
  shows "hex_loop bytes 0 (replicate (Suc k) NUL) = Some (hex_id bytes @ [NUL])"
  using hex_loop_ok [of "[]" 0 "replicate k NUL" bytes] assms by simp

lemma session_create_ok:
  assumes av: "0 < m_avail m" and brk: "0 < m_brk m" and len: "length bytes = 20"
  shows "ewf_session_create (Some tv) (Some bytes) m =
    Some (m_brk m, m\<lparr>m_objs := (m_objs m)(m_brk m \<mapsto>
       \<lparr>s_activated = 0, s_id = hex_id bytes @ [NUL], s_tv = tv\<rparr>),
       m_brk := Suc (m_brk m), m_avail := m_avail m - 1\<rparr>)"
proof -
  have r: "hex_loop bytes 0 (replicate 41 NUL) = Some (hex_id bytes @ [NUL])"
    using hex_loop_zeroed [of 40 bytes] len by (simp add: numeral_eq_Suc)
  have "set_byte (hex_id bytes @ [NUL]) 40 NUL = Some (hex_id bytes @ [NUL])"
    using len by (simp add: set_byte_def list_update_append)
  then show ?thesis
    using av r len by (simp add: ewf_session_create_def calloc_obj_def null_session_def)
qed

lemma session_add_ok:
  assumes T: "table st ps" and av: "0 < m_avail (ss_mem st)"
    and w: "m_objs (ss_mem st) d = Some w" "session_ok w" "0 < d" "d < m_brk (ss_mem st)"
      "d \<noteq> ewf_session_list st" "d \<notin> fst ` set ps"
  obtains m' where "ewf_session_list_add d st = Some (EWF_SUCCESS, st\<lparr>ss_mem := m'\<rparr>)"
    and "table (st\<lparr>ss_mem := m'\<rparr>) (ps @ [(d, w)])" and "m_objs m' = m_objs (ss_mem st)"
    and "m_avail m' = m_avail (ss_mem st) - 1"
proof -
  have O: "objs_at (ss_mem st) (ewf_session_list st) ps" using T by (simp add: table_def table_at_def)
  obtain m' where m': "nbu_list_insert_end (ewf_session_list st) d (ss_mem st) = Some (NBU_SUCCESS, m')"
    "objs_at m' (ewf_session_list st) (ps @ [(d, w)])" "m_objs m' = m_objs (ss_mem st)"
    "m_avail m' = m_avail (ss_mem st) - 1"
    using objs_insert_end [OF O av w(1,3,4,5,6)] by metis
  show ?thesis
    using T w(2) m' by (intro that [of m']) (auto simp: ewf_session_list_add_def table_def table_at_def)
qed

lemma session_add_oom:
  assumes "table st ps" and "m_avail (ss_mem st) = 0"
  shows "ewf_session_list_add d st = Some (EWF_ERROR, st)"
  using assms objs_insert_oom [of "ss_mem st" "ewf_session_list st" ps d]
  by (simp add: ewf_session_list_add_def table_def table_at_def)

text \<open>A session that was just created is not in the table, and can be added to it.\<close>

lemma session_create_table:
  assumes T: "table st ps" and av: "0 < m_avail (ss_mem st)" and len: "length bytes = 20"
    and tv: "0 \<le> tv_sec tv" "tv_sec tv + SESSION_TIMEOUT \<le> 2147483647"
  obtains z m' w where "ewf_session_create (Some tv) (Some bytes) (ss_mem st) = Some (z, m')"
    and "table (st\<lparr>ss_mem := m'\<rparr>) ps" and "m_objs m' z = Some w" and "session_ok w" and "0 < z" and "z < m_brk m'"
    and "z \<noteq> ewf_session_list st" and "z \<notin> fst ` set ps"
    and "w = \<lparr>s_activated = 0, s_id = hex_id bytes @ [NUL], s_tv = tv\<rparr>" and "m_avail m' = m_avail (ss_mem st) - 1"
proof -
  let ?m = "ss_mem st" and ?w = "\<lparr>s_activated = 0, s_id = hex_id bytes @ [NUL], s_tv = tv\<rparr>"
  let ?m' = "?m\<lparr>m_objs := (m_objs ?m)(m_brk ?m \<mapsto> ?w), m_brk := Suc (m_brk ?m), m_avail := m_avail ?m - 1\<rparr>"
  note fresh = table_fresh [OF T]
  have "table (st\<lparr>ss_mem := ?m'\<rparr>) ps"
    using fresh by (intro table_mem [OF T]) (auto simp: image_iff)
  moreover have "session_ok ?w" using len tv by (simp add: session_ok_def)
  ultimately show ?thesis
    using that [of "m_brk ?m" ?m' ?w] session_create_ok [OF av fresh(3) len, of tv] fresh by simp
qed

end
