(* ===== verification/Api_Session.thy ===== *)
theory Api_Session
  imports Ewf_Session
begin

text \<open>
  The session table of the REST API, \<open>efixo-api/src/src/ewf_session.c\<close>.  It has the
  list and the identifiers of the libewf table, a longer time-out for sessions
  that are not activated, and it checks and refreshes sessions itself.  Every function that
  asks for the time takes the result of \<open>gettimeofday\<close>.
\<close>

abbreviation (input) PRESESSION_TIMEOUT :: int where "PRESESSION_TIMEOUT \<equiv> 300"

definition api_session_init :: "smem \<Rightarrow> session_state exec" where
  "api_session_init m = do {
     (la, m) \<leftarrow> nbu_list_new 56 m;
     Some \<lparr>ewf_session_list = la, ss_mem = m\<rparr> }"

definition api_session_fini :: "session_state \<Rightarrow> smem exec" where
  "api_session_fini st = nbu_list_destroy (ewf_session_list st) (ss_mem st)"

text \<open>
  The loop variable of \<open>ewf_session_get\<close> is the caller's \<open>*session\<close>: it is left on the last session of the
  list when the identifier is not found.
\<close>

definition api_session_get :: "string option \<Rightarrow> session_state \<Rightarrow> (int \<times> addr \<times> session_state) exec" where
  "api_session_get session_id st = (case session_id of
      None \<Rightarrow> Some (EWF_ERROR, 0, st)
    | Some i \<Rightarrow> do {
        (session, r, m) \<leftarrow> nbu_list_for_each_data (ewf_session_list st) (get_body i) 0 0 (ss_mem st);
        Some (if r \<noteq> 0 then EWF_SUCCESS else EWF_ERROR, session, st\<lparr>ss_mem := m\<rparr>) })"

definition api_session_cleaner :: "int \<Rightarrow> session_state \<Rightarrow> (int \<times> session_state) exec" where
  "api_session_cleaner now st = do {
     (_, count, m) \<leftarrow> nbu_list_for_each_data (ewf_session_list st)
         (remove_body (ewf_session_list st) (session_stale PRESESSION_TIMEOUT now)) 0 0 (ss_mem st);
     Some (count, st\<lparr>ss_mem := m\<rparr>) }"

text \<open>
  \<open>rdm\<close> is the array of random bytes after \<open>file_open_read_close\<close>, whose result the code
  ignores: it holds whatever was on the stack if \<open>/dev/random\<close> cannot be read.
\<close>

definition api_session_create ::
  "timeval option \<Rightarrow> u8 list \<Rightarrow> buf \<Rightarrow> u32 \<Rightarrow> session_state \<Rightarrow> (int \<times> buf \<times> session_state) exec" where
  "api_session_create time rdm buf_token buf_token_size st = (case time of
      Some tv \<Rightarrow>
        if \<not> buf_token_size > 40 then Some (EWF_ERROR, buf_token, st)
        else do {
          guard (length rdm = 20);
          let (session, m) = calloc_obj null_session (ss_mem st);
          b \<leftarrow> hex_loop rdm 0 buf_token;
          b \<leftarrow> set_byte b 40 NUL;
          guard (session \<noteq> 0);
          w \<leftarrow> m_objs m session;
          token \<leftarrow> read_str b;
          (_, i) \<leftarrow> nbu_string_copy (Some (s_id w)) 41 (Some token);
          i \<leftarrow> i;
          let m = m\<lparr>m_objs := (m_objs m)(session \<mapsto> w\<lparr>s_activated := 0, s_id := i, s_tv := tv\<rparr>)\<rparr>;
          (r, m) \<leftarrow> nbu_list_insert_end (ewf_session_list st) session m;
          Some (if r = NBU_SUCCESS then EWF_SUCCESS else EWF_ERROR, b, st\<lparr>ss_mem := m\<rparr>) }
    | None \<Rightarrow> Some (EWF_ERROR, buf_token, st))"

definition api_session_remove :: "string option \<Rightarrow> session_state \<Rightarrow> (int \<times> session_state) exec" where
  "api_session_remove session_id st = (case session_id of
      None \<Rightarrow> Some (EWF_ERROR, st)
    | Some i \<Rightarrow> do {
        (_, found, m) \<leftarrow> nbu_list_for_each_data (ewf_session_list st)
            (remove_one_body (ewf_session_list st) i) 0 False (ss_mem st);
        Some (if found then EWF_SUCCESS else EWF_ERROR, st\<lparr>ss_mem := m\<rparr>) })"

definition api_session_check :: "addr \<Rightarrow> timeval option \<Rightarrow> session_state \<Rightarrow> (int \<times> session_state) exec" where
  "api_session_check session time st =
     (if session = 0 then Some (EWF_ERROR, st)
      else (case time of
        None \<Rightarrow> Some (EWF_ERROR, st)
      | Some tv \<Rightarrow> do {
          w \<leftarrow> m_objs (ss_mem st) session;
          if s_activated w = 0 then Some (EWF_ERROR, st)
          else do {
            t \<leftarrow> s32_add (tv_sec (s_tv w)) SESSION_TIMEOUT;
            if t \<ge> tv_sec tv
            then Some (EWF_SUCCESS, st\<lparr>ss_mem := (ss_mem st)\<lparr>m_objs :=
                   (m_objs (ss_mem st))(session \<mapsto> w\<lparr>s_tv := tv\<rparr>)\<rparr>\<rparr>)
            else do {
              (_, st) \<leftarrow> api_session_remove (Some (c_str (s_id w))) st;
              Some (EWF_ERROR, st) } } }))"

definition api_session_validate :: "addr \<Rightarrow> timeval option \<Rightarrow> session_state \<Rightarrow> (int \<times> session_state) exec" where
  "api_session_validate session time st = do {
     guard (session \<noteq> 0);
     case time of
       None \<Rightarrow> Some (EWF_ERROR, st)
     | Some tv \<Rightarrow> do {
         w \<leftarrow> m_objs (ss_mem st) session;
         Some (EWF_SUCCESS, st\<lparr>ss_mem := (ss_mem st)\<lparr>m_objs :=
           (m_objs (ss_mem st))(session \<mapsto> w\<lparr>s_activated := 1, s_tv := tv\<rparr>)\<rparr>\<rparr>) } }"

definition api_session_count :: "session_state \<Rightarrow> u32 exec" where
  "api_session_count st = nbu_list_count (ewf_session_list st) (ss_mem st)"

subsection \<open>The table is a session table\<close>

definition api_get :: "string \<Rightarrow> session_state \<Rightarrow> (addr \<times> session_state) exec" where
  "api_get i st = do {
     (r, session, st) \<leftarrow> api_session_get (Some i) st;
     Some (if r = EWF_SUCCESS then session else 0, st) }"

lemma api_session_get_ok:
  assumes "table st ps" and "NUL \<notin> set i"
  shows "\<exists>st'. api_session_get (Some i) st =
      Some (if lookup i ps = 0 then EWF_ERROR else EWF_SUCCESS,
            if lookup i ps = 0 then last (0 # map fst ps) else lookup i ps, st') \<and> table st' ps"
proof -
  let ?la = "ewf_session_list st"
  obtain d' v where "nbu_list_for_each_data ?la (get_body i) 0 0 (ss_mem st) =
      Some (d', lookup i ps, upd_iter ?la v (ss_mem st))"
    and "d' = (if lookup i ps = 0 then last (0 # map fst ps) else lookup i ps)"
    using table_search [OF assms(1) [unfolded table_def] assms(2)] by blast
  then show ?thesis using assms(1) by (auto simp: api_session_get_def table_def simp del: last.simps)
qed

lemma api_get_table:
  assumes "table st ps" and "NUL \<notin> set i"
  shows "\<exists>st'. api_get i st = Some (lookup i ps, st') \<and> table st' ps"
  using api_session_get_ok [OF assms] by (auto simp: api_get_def simp del: last.simps)

lemma api_remove_table:
  assumes "table st ps" and "NUL \<notin> set i"
  shows "\<exists>st'. api_session_remove (Some i) st =
      Some (if lookup i ps = 0 then EWF_ERROR else EWF_SUCCESS, st') \<and> table st' (remove_first i ps)"
  using list_remove_table [OF assms] by (simp add: api_session_remove_def ewf_session_list_remove_def)

lemma api_cleaner_table:
  assumes "table st ps"
  shows "\<exists>st'. api_session_cleaner now st =
      Some (int (length (filter (\<lambda>p. expired PRESESSION_TIMEOUT now (snd p)) ps)), st') \<and>
      table st' (filter (\<lambda>p. \<not> expired PRESESSION_TIMEOUT now (snd p)) ps)"
proof -
  let ?la = "ewf_session_list st"
  obtain d' m' where "nbu_list_for_each_data ?la (remove_body ?la (session_stale 300 now)) 0 0 (ss_mem st) =
      Some (d', int (length (filter (\<lambda>p. expired 300 now (snd p)) ps)), m')"
    and "table_at ?la m' (filter (\<lambda>p. \<not> expired 300 now (snd p)) ps)"
    by (rule table_clean [OF assms [unfolded table_def], where pre = 300 and now = now and ?d0.0 = 0]) auto
  then show ?thesis by (auto simp: api_session_cleaner_def table_def)
qed

interpretation api: session_table api_get "\<lambda>i. api_session_remove (Some i)" api_session_cleaner PRESESSION_TIMEOUT
  by unfold_locales (rule api_get_table api_remove_table api_cleaner_table; assumption)+

subsection \<open>Checking and validating\<close>

text \<open>\<open>ewf_session_check\<close> on a session of the table, on every branch.\<close>

lemma api_check_ok:
  assumes T: "table st (qs @ (d, w) # rs)" and u: "unique_ids (qs @ (d, w) # rs)"
    and tv: "0 \<le> tv_sec tv" "tv_sec tv + SESSION_TIMEOUT \<le> 2147483647"
  obtains (inactive) "s_activated w = 0" and "api_session_check d (Some tv) st = Some (EWF_ERROR, st)"
    | (fresh) st' where "s_activated w \<noteq> 0" and "tv_sec tv \<le> tv_sec (s_tv w) + SESSION_TIMEOUT"
        and "api_session_check d (Some tv) st = Some (EWF_SUCCESS, st')"
        and "table st' (qs @ (d, w\<lparr>s_tv := tv\<rparr>) # rs)"
    | (stale) st' where "s_activated w \<noteq> 0" and "tv_sec (s_tv w) + SESSION_TIMEOUT < tv_sec tv"
        and "api_session_check d (Some tv) st = Some (EWF_ERROR, st')" and "table st' (qs @ rs)"
proof -
  note w = table_split [OF T]
  have add: "s32_add (tv_sec (s_tv w)) SESSION_TIMEOUT = Some (tv_sec (s_tv w) + SESSION_TIMEOUT)"
    using w(2) by (auto simp: session_ok_def s32_add_def)
  consider "s_activated w = 0" | "s_activated w \<noteq> 0" "tv_sec tv \<le> tv_sec (s_tv w) + SESSION_TIMEOUT"
    | "s_activated w \<noteq> 0" "tv_sec (s_tv w) + SESSION_TIMEOUT < tv_sec tv" by linarith
  then show ?thesis
  proof cases
    case 1
    then show ?thesis using inactive w by (simp add: api_session_check_def)
  next
    case 2
    have "session_ok (w\<lparr>s_tv := tv\<rparr>)" using w(2) tv by (simp add: session_ok_def)
    from table_update [OF T this] show ?thesis
      using 2 w add by (intro fresh) (simp_all add: api_session_check_def)
  next
    case 3
    have "NUL \<notin> set (sid w)" by (simp add: sid_def)
    from api_remove_table [OF T this] obtain r st' where
      "api_session_remove (Some (sid w)) st = Some (r, st')" "table st' (qs @ rs)"
      using lookup_unique [OF u] by auto
    then show ?thesis
      using 3 w add by (intro stale) (simp_all add: api_session_check_def sid_def)
  qed
qed

end
