(* ===== verification/Ewf_Hdf.thy ===== *)
theory Ewf_Hdf
  imports Nbu_String
begin

text \<open>
  The data-set accessors of libewf (\<open>efixo-libewf/src/src/ewf_hdf.c\<close>), the input filter
  (\<open>core/ewf_secure.c\<close>) and the helpers of \<open>ewf_utils.c\<close>.

  The HDF data set of ClearSilver, the regular expressions of PCRE and the hash functions of
  TropicSSL are not part of the repository: they are the fields of \<open>ewf_ext\<close>, which the
  definitions take as an argument.  \<open>hdf_laws\<close> is what the code relies on: a value that was
  set is read back and setting a name leaves the others alone.
\<close>

record 'h ewf_ext =
  hdf_get_value :: "'h \<Rightarrow> string \<Rightarrow> string option"
  hdf_set_value :: "'h \<Rightarrow> string \<Rightarrow> string \<Rightarrow> 'h"
  hdf_children :: "'h \<Rightarrow> string \<Rightarrow> (string \<times> string option) list"
  pcre_exec :: "string \<Rightarrow> string \<Rightarrow> int option"
  sha2_digest :: "string \<Rightarrow> u8 list"
  sha2_hmac :: "string \<Rightarrow> string \<Rightarrow> u8 list"

definition hdf_laws :: "'h ewf_ext \<Rightarrow> bool" where
  "hdf_laws X \<longleftrightarrow> (\<forall>h n v. hdf_get_value X (hdf_set_value X h n v) n = Some v) \<and>
     (\<forall>h n v k. k \<noteq> n \<longrightarrow> hdf_get_value X (hdf_set_value X h n v) k = hdf_get_value X h k)"

text \<open>\<open>nbu_string_matches\<close>, a \<open>memcmp\<close> over the literal and its NUL.\<close>

definition nbu_string_matches :: "string \<Rightarrow> string \<Rightarrow> int" where
  "nbu_string_matches s lit = (if s = lit then NBU_STRING_EQUAL else NBU_STRING_DIFFERENT)"

subsection \<open>\<open>ewf_utils.c\<close>\<close>

definition ewf_utils_client_ip :: "'h ewf_ext \<Rightarrow> 'h \<Rightarrow> string option" where
  "ewf_utils_client_ip X h = hdf_get_value X h ''CGI.RemoteAddress''"

definition ewf_utils_client_referer :: "'h ewf_ext \<Rightarrow> 'h \<Rightarrow> string option" where
  "ewf_utils_client_referer X h = hdf_get_value X h ''HTTP.Referer''"

definition referer_char :: "char \<Rightarrow> bool" where
  "referer_char c = (let k = (of_char c :: nat) in
     \<not> (k < 48 \<or> (k > 57 \<and> k < 95) \<or> (k > 95 \<and> k < 97) \<or> k > 122))"

definition ewf_utils_check_referer :: "'h ewf_ext \<Rightarrow> string \<Rightarrow> 'h \<Rightarrow> int exec" where
  "ewf_utils_check_referer X page h = do {
     server \<leftarrow> hdf_get_value X h ''CGI.ServerName'';
     (_, b) \<leftarrow> bprintf 65 (''http://'' @ server @ ''/'');
     value \<leftarrow> hdf_get_value X h ''HTTP.Referer'';
     let n = length (takeWhile referer_char value);
     Some (if strncmp b value n = 0 then EWF_SUCCESS else EWF_ERROR) }"

definition ewf_utils_pcre_validate :: "'h ewf_ext \<Rightarrow> string option \<Rightarrow> string option \<Rightarrow> int" where
  "ewf_utils_pcre_validate X value pattern = (case (value, pattern) of
      (Some v, Some p) \<Rightarrow> (case pcre_exec X p v of
          None \<Rightarrow> EWF_ERROR
        | Some rc \<Rightarrow> if rc = 0 then EWF_SUCCESS else EWF_ERROR)
    | _ \<Rightarrow> EWF_ERROR)"

subsection \<open>\<open>core/ewf_secure.c\<close>\<close>

definition censured :: "char \<Rightarrow> char" where
  "censured c = (let k = (of_char c :: nat) in
     if k < 32 \<or> k > 126 then CHR '' ''
     else if c \<in> {CHR 0x22, CHR 0x27, CHR 0x60} then CHR '' '' else c)"

text \<open>The loop over \<open>val\<close>, with the place in \<open>val\<close> and \<open>buf\<close> as \<open>i\<close>.\<close>

fun escape_loop :: "string \<Rightarrow> nat \<Rightarrow> u32 \<Rightarrow> buf \<Rightarrow> (int \<times> buf) exec" where
  "escape_loop [] i sz b = do { b \<leftarrow> set_byte b (int i) NUL; Some (EWF_SUCCESS, b) }"
| "escape_loop (c # cs) i sz b =
     (if i < unat (sz - 1) then do {
        b \<leftarrow> set_byte b (int i) (censured c);
        escape_loop cs (Suc i) sz b }
      else do { b \<leftarrow> set_byte b (int i) NUL; Some (EWF_ERROR, b) })"

definition ewf_secure_escape_input :: "string \<Rightarrow> buf \<Rightarrow> u32 \<Rightarrow> (int \<times> buf) exec" where
  "ewf_secure_escape_input val b buf_size = escape_loop val 0 buf_size b"

subsection \<open>Setters\<close>

text \<open>
  A name is printed into \<open>_internal_buf\<close> of 256 bytes and a formatted value into
  \<open>_internal_buf2\<close> of 512 bytes.
\<close>

definition hdf_vset :: "'h ewf_ext \<Rightarrow> string option \<Rightarrow> string option \<Rightarrow> bool \<Rightarrow> 'h \<Rightarrow> (int \<times> 'h) exec" where
  "hdf_vset X var_name fmt overwrite h = (case (var_name, fmt) of
      (Some n, Some txt) \<Rightarrow> do {
        (r1, name) \<leftarrow> bprintf 256 (''Var.'' @ n @ ''.Value'');
        if \<not> overwrite \<and> hdf_get_value X h name \<noteq> None then Some (EWF_ERROR, h)
        else do {
          (r2, val) \<leftarrow> bprintf 512 txt;
          Some (if r1 = NBU_ERROR \<or> r2 = NBU_ERROR then EWF_ERROR else EWF_SUCCESS,
                hdf_set_value X h name val) } }
    | _ \<Rightarrow> Some (EWF_ERROR, h))"

definition hdf_set :: "'h ewf_ext \<Rightarrow> string option \<Rightarrow> string option \<Rightarrow> bool \<Rightarrow> 'h \<Rightarrow> (int \<times> 'h) exec" where
  "hdf_set X var_name str_value overwrite h = (case (var_name, str_value) of
      (Some n, Some v) \<Rightarrow> do {
        (r1, name) \<leftarrow> bprintf 256 (''Var.'' @ n @ ''.Value'');
        if \<not> overwrite \<and> hdf_get_value X h name \<noteq> None then Some (EWF_ERROR, h)
        else Some (if r1 = NBU_ERROR then EWF_ERROR else EWF_SUCCESS, hdf_set_value X h name v) }
    | _ \<Rightarrow> Some (EWF_ERROR, h))"

definition ewf_hdf_validate :: "'h ewf_ext \<Rightarrow> string \<Rightarrow> string option \<Rightarrow> 'h \<Rightarrow> int exec" where
  "ewf_hdf_validate X var_name value h = (case value of
      None \<Rightarrow> Some EWF_ERROR
    | Some v \<Rightarrow> do {
        (_, name) \<leftarrow> bprintf 128 (''Env.Var.'' @ var_name @ ''.Regex'');
        case hdf_get_value X h name of
          None \<Rightarrow> Some EWF_SUCCESS
        | Some p \<Rightarrow> Some (ewf_utils_pcre_validate X value (Some p)) })"

definition ewf_hdf_setf :: "'h ewf_ext \<Rightarrow> string option \<Rightarrow> string option \<Rightarrow> 'h \<Rightarrow> (int \<times> 'h) exec" where
  "ewf_hdf_setf X var_name fmt = hdf_vset X var_name fmt False"

definition ewf_hdf_set :: "'h ewf_ext \<Rightarrow> string option \<Rightarrow> string option \<Rightarrow> 'h \<Rightarrow> (int \<times> 'h) exec" where
  "ewf_hdf_set X var_name str_value = hdf_set X var_name str_value False"

definition ewf_hdf_set_error :: "'h ewf_ext \<Rightarrow> string option \<Rightarrow> string \<Rightarrow> 'h \<Rightarrow> (int \<times> 'h) exec" where
  "ewf_hdf_set_error X var_name error_id h = (case var_name of
      None \<Rightarrow> Some (EWF_ERROR, h)
    | Some n \<Rightarrow> do {
        (r, name) \<leftarrow> bprintf 256 (''Var.'' @ n @ ''.Error'');
        if hdf_get_value X h name \<noteq> None then Some (EWF_ERROR, h)
        else do {
          let h = hdf_set_value X h name error_id;
          let h = hdf_set_value X h ''Form.Status'' (dec_int (- 1));
          Some (if r = NBU_ERROR then EWF_ERROR else EWF_SUCCESS, h) } })"

definition ewf_hdf_form_set_error :: "'h ewf_ext \<Rightarrow> string \<Rightarrow> 'h \<Rightarrow> int \<times> 'h" where
  "ewf_hdf_form_set_error X error_id h =
     (EWF_SUCCESS, hdf_set_value X (hdf_set_value X h ''Form.Status'' (dec_int (- 1))) ''Form.Error'' error_id)"

definition ewf_hdf_form_set_success :: "'h ewf_ext \<Rightarrow> string \<Rightarrow> 'h \<Rightarrow> int \<times> 'h" where
  "ewf_hdf_form_set_success X success_id h =
     (EWF_SUCCESS, hdf_set_value X (hdf_set_value X h ''Form.Status'' (dec_int 0)) ''Form.Success'' success_id)"

definition ewf_hdf_owsetf :: "'h ewf_ext \<Rightarrow> string option \<Rightarrow> string option \<Rightarrow> 'h \<Rightarrow> (int \<times> 'h) exec" where
  "ewf_hdf_owsetf X var_name fmt = hdf_vset X var_name fmt True"

definition ewf_hdf_owset :: "'h ewf_ext \<Rightarrow> string option \<Rightarrow> string option \<Rightarrow> 'h \<Rightarrow> (int \<times> 'h) exec" where
  "ewf_hdf_owset X var_name str_value = hdf_set X var_name str_value True"

subsection \<open>Getters\<close>

definition ewf_hdf_env_gettext_d :: "'h ewf_ext \<Rightarrow> string option \<Rightarrow> string option \<Rightarrow> string option \<Rightarrow> 'h \<Rightarrow> string exec" where
  "ewf_hdf_env_gettext_d X var_name value def_value h = (case var_name of
      None \<Rightarrow> Some []
    | Some n \<Rightarrow> (case value of
          None \<Rightarrow> Some []
        | Some v \<Rightarrow>
            if v = [] then Some []
            else do {
              (_, name) \<leftarrow> bprintf 256 (''Env.Var.'' @ n @ ''.Value.'' @ v);
              case hdf_get_value X h name of
                Some t \<Rightarrow> Some t
              | None \<Rightarrow> do {
                  (_, name) \<leftarrow> bprintf 256 (''Env.Var.'' @ n @ ''.Value.'' @
                      (case def_value of Some d \<Rightarrow> d | None \<Rightarrow> ''NULL''));
                  case hdf_get_value X h name of
                    Some t \<Rightarrow> Some t
                  | None \<Rightarrow> (case hdf_get_value X h ''Env.Text.UnknownValue'' of
                      Some t \<Rightarrow> Some t | None \<Rightarrow> Some ''Unknown Value !'') } }))"

definition ewf_hdf_env_gettext :: "'h ewf_ext \<Rightarrow> string option \<Rightarrow> string option \<Rightarrow> 'h \<Rightarrow> string exec" where
  "ewf_hdf_env_gettext X var_name value = ewf_hdf_env_gettext_d X var_name value None"

definition ewf_hdf_get_default :: "'h ewf_ext \<Rightarrow> string \<Rightarrow> string option \<Rightarrow> 'h \<Rightarrow> string option exec" where
  "ewf_hdf_get_default X var_name dfl_val h = do {
     (_, name) \<leftarrow> bprintf 128 (''Query.'' @ var_name);
     Some (case hdf_get_value X h name of None \<Rightarrow> dfl_val | Some v \<Rightarrow> Some v) }"

definition ewf_hdf_get :: "'h ewf_ext \<Rightarrow> string \<Rightarrow> 'h \<Rightarrow> string option exec" where
  "ewf_hdf_get X var_name = ewf_hdf_get_default X var_name None"

definition ewf_hdf_get_copy :: "'h ewf_ext \<Rightarrow> string \<Rightarrow> buf \<Rightarrow> u32 \<Rightarrow> 'h \<Rightarrow> (int \<times> buf) exec" where
  "ewf_hdf_get_copy X var_name b buf_len h = do {
     val \<leftarrow> ewf_hdf_get X var_name h;
     case val of None \<Rightarrow> Some (EWF_ERROR, b)
     | Some v \<Rightarrow> do {
         (_, b) \<leftarrow> nbu_string_printf (Some b) buf_len (Some v);
         b \<leftarrow> b;
         Some (EWF_SUCCESS, b) } }"

definition ewf_hdf_get_int_default :: "'h ewf_ext \<Rightarrow> string \<Rightarrow> int \<Rightarrow> 'h \<Rightarrow> int exec" where
  "ewf_hdf_get_int_default X var_name default_val_int h = do {
     val \<leftarrow> ewf_hdf_get X var_name h;
     Some (case val of None \<Rightarrow> default_val_int
       | Some v \<Rightarrow> (case strtol 10 v of (i, _, erange) \<Rightarrow> if erange then default_val_int else i)) }"

definition ewf_hdf_get_int :: "'h ewf_ext \<Rightarrow> string \<Rightarrow> 'h \<Rightarrow> int exec" where
  "ewf_hdf_get_int X var_name = ewf_hdf_get_int_default X var_name (- 1)"

text \<open>
  \<open>ewf_hdf_sget_default\<close> compares pointers: the value is the default exactly when the data set has
  no value of that name.
\<close>

definition ewf_hdf_sget_default :: "'h ewf_ext \<Rightarrow> string \<Rightarrow> string option \<Rightarrow> 'h \<Rightarrow> string option exec" where
  "ewf_hdf_sget_default X var_name dflval h = do {
     val \<leftarrow> ewf_hdf_get X var_name h;
     if val = None then Some dflval
     else do {
       r \<leftarrow> ewf_hdf_validate X var_name val h;
       Some (if r = EWF_ERROR then dflval else val) } }"

definition ewf_hdf_sget :: "'h ewf_ext \<Rightarrow> string \<Rightarrow> 'h \<Rightarrow> (string option \<times> 'h) exec" where
  "ewf_hdf_sget X var_name h = do {
     val \<leftarrow> ewf_hdf_get X var_name h;
     if val = None then Some (None, h)
     else do {
       r \<leftarrow> ewf_hdf_validate X var_name val h;
       if r = EWF_ERROR then do {
         (_, name) \<leftarrow> bprintf 128 (''Var.'' @ var_name @ ''.Error'');
         let h = hdf_set_value X h name ''value'';
         Some (None, hdf_set_value X h ''Form.Status'' (dec_int (- 1))) }
       else Some (val, h) } }"

definition ewf_hdf_sget_copy :: "'h ewf_ext \<Rightarrow> string \<Rightarrow> buf \<Rightarrow> u32 \<Rightarrow> 'h \<Rightarrow> (int \<times> buf \<times> 'h) exec" where
  "ewf_hdf_sget_copy X var_name b buf_len h = do {
     (val, h) \<leftarrow> ewf_hdf_sget X var_name h;
     case val of None \<Rightarrow> Some (EWF_ERROR, b, h)
     | Some v \<Rightarrow> do {
         (_, b) \<leftarrow> nbu_string_copy (Some b) buf_len (Some v);
         b \<leftarrow> b;
         Some (EWF_SUCCESS, b, h) } }"

definition ewf_hdf_sget_int_default :: "'h ewf_ext \<Rightarrow> string \<Rightarrow> int \<Rightarrow> 'h \<Rightarrow> (int \<times> 'h) exec" where
  "ewf_hdf_sget_int_default X var_name dflt_val_int h = do {
     (val, h) \<leftarrow> ewf_hdf_sget X var_name h;
     Some (case val of None \<Rightarrow> dflt_val_int
       | Some v \<Rightarrow> (case strtol 10 v of (i, _, erange) \<Rightarrow> if erange then dflt_val_int else i), h) }"

definition ewf_hdf_sget_int :: "'h ewf_ext \<Rightarrow> string \<Rightarrow> 'h \<Rightarrow> (int \<times> 'h) exec" where
  "ewf_hdf_sget_int X var_name = ewf_hdf_sget_int_default X var_name (- 1)"

subsection \<open>The query tree and the environment\<close>

fun copy_query_loop :: "'h ewf_ext \<Rightarrow> (string \<times> string option) list \<Rightarrow> 'h \<Rightarrow> 'h exec" where
  "copy_query_loop X [] h = Some h"
| "copy_query_loop X ((n, v) # qs) h = (case v of
      None \<Rightarrow> copy_query_loop X qs h
    | Some val \<Rightarrow> do {
        (ret, b) \<leftarrow> ewf_secure_escape_input val (replicate 512 NUL) 512;
        if ret \<noteq> EWF_SUCCESS then copy_query_loop X qs h
        else do {
          s \<leftarrow> read_str b;
          (_, h) \<leftarrow> ewf_hdf_set X (Some n) (Some s) h;
          copy_query_loop X qs h } })"

definition ewf_hdf_copy_cgi_query_tree :: "'h ewf_ext \<Rightarrow> 'h \<Rightarrow> (int \<times> 'h) exec" where
  "ewf_hdf_copy_cgi_query_tree X h = do {
     h \<leftarrow> copy_query_loop X (hdf_children X h ''Query'') h;
     Some (EWF_SUCCESS, h) }"

definition ewf_hdf_set_env :: "'h ewf_ext \<Rightarrow> string \<Rightarrow> string \<Rightarrow> 'h \<Rightarrow> (int \<times> 'h) exec" where
  "ewf_hdf_set_env X name value h = do {
     (_, n) \<leftarrow> bprintf 128 (''Env.'' @ name);
     Some (EWF_SUCCESS, hdf_set_value X h n value) }"

definition ewf_hdf_get_env :: "'h ewf_ext \<Rightarrow> string \<Rightarrow> 'h \<Rightarrow> string option exec" where
  "ewf_hdf_get_env X name h = do {
     (_, n) \<leftarrow> bprintf 128 (''Env.'' @ name);
     Some (hdf_get_value X h n) }"

subsection \<open>The input filter\<close>

lemma escape_loop_ok:
  assumes "i \<le> n" and "n < length b" and "unat (sz - 1) = n"
  shows "escape_loop val i sz b =
    Some (if length val \<le> n - i then EWF_SUCCESS else EWF_ERROR,
          take i b @ map censured (take (n - i) val) @ NUL # drop (Suc (i + length (take (n - i) val))) b)"
  using assms
proof (induction val arbitrary: i b)
  case Nil
  then show ?case by (simp add: set_byte_def upd_conv_take_nth_drop)
next
  case (Cons c cs)
  show ?case
  proof (cases "i < n")
    case True
    let ?b = "b[i := censured c]"
    have "escape_loop cs (Suc i) sz ?b =
      Some (if length cs \<le> n - Suc i then EWF_SUCCESS else EWF_ERROR,
          take (Suc i) ?b @ map censured (take (n - Suc i) cs) @ NUL # drop (Suc (Suc i + length (take (n - Suc i) cs))) ?b)"
      using Cons True by simp
    moreover have "take (Suc i) ?b = take i b @ [censured c]"
      using True Cons.prems(2) by (simp add: take_Suc_conv_app_nth)
    moreover have "n - i = Suc (n - Suc i)" using True by simp
    ultimately show ?thesis
      using True Cons.prems by (simp add: set_byte_def)
  next
    case False
    with Cons.prems show ?thesis by (simp add: set_byte_def upd_conv_take_nth_drop)
  qed
qed

lemma escape_input_ok:
  assumes r: "room b sz"
  shows "ewf_secure_escape_input val b sz =
    Some (if length val < unat sz then EWF_SUCCESS else EWF_ERROR,
          map censured (take (unat sz - 1) val) @ NUL # drop (Suc (length (take (unat sz - 1) val))) b)"
proof -
  have "unat (sz - 1) = unat sz - 1"
    using r by (intro unat_minus_one) (auto simp: room_def)
  then show ?thesis
    using escape_loop_ok [of 0 "unat sz - 1" b sz val] r
    by (auto simp: ewf_secure_escape_input_def room_def)
qed

lemma censured_safe:
  "32 \<le> (of_char (censured c) :: nat) \<and> (of_char (censured c) :: nat) \<le> 126 \<and>
   censured c \<notin> {CHR 0x22, CHR 0x27, CHR 0x60}"
  by (simp add: censured_def Let_def)

lemma censured_id:
  "32 \<le> (of_char c :: nat) \<Longrightarrow> (of_char c :: nat) \<le> 126 \<Longrightarrow> c \<notin> {CHR 0x22, CHR 0x27, CHR 0x60} \<Longrightarrow> censured c = c"
  by (simp add: censured_def Let_def)

subsection \<open>Names of the data set\<close>

lemma hdf_get_set [simp]: "hdf_laws X \<Longrightarrow> hdf_get_value X (hdf_set_value X h n v) n = Some v"
  by (simp add: hdf_laws_def)

lemma hdf_get_set_other [simp]:
  "hdf_laws X \<Longrightarrow> k \<noteq> n \<Longrightarrow> hdf_get_value X (hdf_set_value X h n v) k = hdf_get_value X h k"
  by (simp add: hdf_laws_def)

lemma hdf_name_ok:
  assumes "NUL \<notin> set n" and "length n < 246"
  shows "bprintf 256 (''Var.'' @ n @ ''.Value'') = Some (NBU_SUCCESS, ''Var.'' @ n @ ''.Value'')"
  using assms by (simp add: bprintf_ok)

lemma hdf_set_ok:
  assumes "NUL \<notin> set n" and "length n < 246"
  shows "hdf_set X (Some n) (Some v) ow h =
    Some (if \<not> ow \<and> hdf_get_value X h (''Var.'' @ n @ ''.Value'') \<noteq> None then (EWF_ERROR, h)
          else (EWF_SUCCESS, hdf_set_value X h (''Var.'' @ n @ ''.Value'') v))"
  using hdf_name_ok [OF assms] by (simp add: hdf_set_def)

text \<open>
  An instance of the external code for the examples: association lists as data sets, no
  regular expression ever fails, and the text itself, cut to 32 bytes, as its hash.
\<close>

definition pad32 :: "string \<Rightarrow> u8 list" where
  "pad32 t = take 32 (map (\<lambda>c. of_nat (of_char c)) t @ replicate 32 0)"

definition ex_ext :: "(string \<times> string) list ewf_ext" where
  "ex_ext = \<lparr>hdf_get_value = map_of, hdf_set_value = (\<lambda>h n v. (n, v) # h), hdf_children = (\<lambda>h n. []),
     pcre_exec = (\<lambda>p s. Some 0), sha2_digest = pad32, sha2_hmac = (\<lambda>k t. pad32 (t @ k))\<rparr>"

lemma ex_ext_simps [simp]: "hdf_get_value ex_ext = map_of" "hdf_set_value ex_ext h n v = (n, v) # h"
  "hdf_children ex_ext h n = []" "pcre_exec ex_ext p t = Some 0"
  by (simp_all add: ex_ext_def)

lemma ex_hdf_laws [simp]: "hdf_laws ex_ext"
  by (simp add: hdf_laws_def ex_ext_def)

end
