(* ===== verification/Ewf_Smith.thy ===== *)
theory Ewf_Smith
  imports Ewf_Session Ewf_Hdf
begin

text \<open>
  Configuration, hashing, log-in and access control of libewf:
  \<open>core/ewf_config.c\<close>, \<open>ewf_crypto.c\<close> and \<open>core/ewf_smith.c\<close> under \<open>efixo-libewf/src/src\<close>.

  The state is the data set of the request, the session table with its memory, and
  the cookies and redirections sent so far.  The operations of the web application
  (\<open>ewf_matrix_ops\<close>) are an argument; its \<open>conf_set\<close> extends the list of the calls made to the daemon.
\<close>

record 'h ewf_state =
  e_hdf :: 'h
  e_sess :: session_state
  e_cookies :: "(string \<times> string option) list"
  e_redirects :: "string list"

record 'h ewf_matrix_ops =
  conf_get :: "(string \<Rightarrow> buf \<Rightarrow> u32 \<Rightarrow> (int \<times> buf) exec) option"
  conf_set :: "(string \<Rightarrow> string \<Rightarrow> string list list \<Rightarrow> (int \<times> string list list) exec) option"
  login_alt_method :: "(addr \<Rightarrow> string \<Rightarrow> 'h ewf_state \<Rightarrow> (int \<times> 'h ewf_state) exec) option"

abbreviation (input) EWF_SMITH_CTL_NOT_ALLOWED :: int where "EWF_SMITH_CTL_NOT_ALLOWED \<equiv> - 1000"
abbreviation (input) EWF_SMITH_CTL_SUCCESS :: int where "EWF_SMITH_CTL_SUCCESS \<equiv> 0"
abbreviation (input) EWF_SMITH_CTL_AUTH_OFF :: int where "EWF_SMITH_CTL_AUTH_OFF \<equiv> 1"
abbreviation (input) EWF_SMITH_CTL_PUBLICPAGE :: int where "EWF_SMITH_CTL_PUBLICPAGE \<equiv> 2"
abbreviation (input) EWF_SMITH_LOGIN_INVALID_SESSION :: int where "EWF_SMITH_LOGIN_INVALID_SESSION \<equiv> - 1000"
abbreviation (input) EWF_SMITH_LOGIN_INVALID_ARGS :: int where "EWF_SMITH_LOGIN_INVALID_ARGS \<equiv> - 999"
abbreviation (input) EWF_SMITH_LOGIN_METHOD_NOT_ALLOWED :: int where "EWF_SMITH_LOGIN_METHOD_NOT_ALLOWED \<equiv> - 998"
abbreviation (input) EWF_SMITH_LOGIN_ERROR :: int where "EWF_SMITH_LOGIN_ERROR \<equiv> - 1"
abbreviation (input) EWF_SMITH_LOGIN_SUCCESS :: int where "EWF_SMITH_LOGIN_SUCCESS \<equiv> 0"

text \<open>An automatic array holds no string until the code writes one.\<close>

definition uninit :: "nat \<Rightarrow> buf" where
  "uninit n = replicate n (CHR 0xFF)"

subsection \<open>\<open>core/ewf_config.c\<close>\<close>

definition conf_default_value :: "(string \<times> string) list" where
  "conf_default_value = [
     (''web_lang'', ''en''),
     (''web_auth'', ''off''),
     (''web_login'', ''admin''),
     (''web_password'', []),
     (''web_theme_uri'', ''local://default'')]"

definition ewf_config_set ::
  "'h ewf_matrix_ops \<Rightarrow> string \<Rightarrow> string \<Rightarrow> string list list \<Rightarrow> (int \<times> string list list) exec" where
  "ewf_config_set M name value calls = (case conf_set M of Some f \<Rightarrow> f name value calls | None \<Rightarrow> Some (EWF_ERROR, calls))"

fun config_default_loop :: "(string \<times> string) list \<Rightarrow> string \<Rightarrow> buf \<Rightarrow> u32 \<Rightarrow> (int \<times> buf) exec" where
  "config_default_loop [] name value sz = Some (EWF_ERROR, value)"
| "config_default_loop ((n, v) # ds) name value sz =
     (if nbu_string_compare (Some n) (Some name) = NBU_SUCCESS then do {
        (_, b) \<leftarrow> nbu_string_copy (Some value) sz (Some v);
        b \<leftarrow> b;
        Some (EWF_SUCCESS, b) }
      else config_default_loop ds name value sz)"

definition ewf_config_get :: "'h ewf_matrix_ops \<Rightarrow> string \<Rightarrow> buf \<Rightarrow> u32 \<Rightarrow> (int \<times> buf) exec" where
  "ewf_config_get M name value value_size = do {
     value \<leftarrow> set_byte value 0 NUL;
     (r, value) \<leftarrow> (case conf_get M of Some f \<Rightarrow> f name value value_size | None \<Rightarrow> Some (EWF_ERROR, value));
     if r = EWF_SUCCESS then Some (EWF_SUCCESS, value)
     else config_default_loop conf_default_value name value value_size }"

definition ewf_config_get_int :: "'h ewf_matrix_ops \<Rightarrow> string \<Rightarrow> int exec" where
  "ewf_config_get_int M name = do {
     (r, b) \<leftarrow> ewf_config_get M name (uninit 256) 256;
     if r = EWF_SUCCESS then do {
       s \<leftarrow> read_str b;
       Some (fst (strtol 10 s)) }
     else Some (- 1) }"

subsection \<open>\<open>ewf_crypto.c\<close>\<close>

text \<open>A \<open>calloc\<close> outside the table: it may fail, and it leaves the modelled memory alone.\<close>

definition heap_alloc :: "smem \<Rightarrow> bool \<times> smem" where
  "heap_alloc m = (if m_avail m = 0 then (False, m) else (True, m\<lparr>m_avail := m_avail m - 1\<rparr>))"

definition hex_digest :: "u8 list \<Rightarrow> string exec" where
  "hex_digest digest = do { b \<leftarrow> hex_loop digest 0 (replicate 65 NUL); read_str b }"

definition ewf_crypto_hmac_sha256_mac :: "'h ewf_ext \<Rightarrow> string \<Rightarrow> string option \<Rightarrow> smem \<Rightarrow> (int \<times> string \<times> smem) exec" where
  "ewf_crypto_hmac_sha256_mac X key msg m = (case msg of
      None \<Rightarrow> Some (EWF_ERROR, [], m)
    | Some t \<Rightarrow> do {
        let (ok, m) = heap_alloc m;
        if \<not> ok then Some (EWF_ERROR, [], m)
        else do {
          s \<leftarrow> hex_digest (sha2_hmac X key t);
          Some (EWF_SUCCESS, s, m) } })"

definition ewf_crypto_sha256_hash :: "'h ewf_ext \<Rightarrow> string option \<Rightarrow> smem \<Rightarrow> (int \<times> string \<times> smem) exec" where
  "ewf_crypto_sha256_hash X msg m = (case msg of
      None \<Rightarrow> Some (EWF_ERROR, [], m)
    | Some t \<Rightarrow> do {
        let (ok, m) = heap_alloc m;
        if \<not> ok then Some (EWF_ERROR, [], m)
        else do {
          s \<leftarrow> hex_digest (sha2_digest X t);
          Some (EWF_SUCCESS, s, m) } })"

subsection \<open>\<open>core/ewf_smith.c\<close>: hashing\<close>

definition ewf_smith_hmac :: "'h ewf_ext \<Rightarrow> string \<Rightarrow> string \<Rightarrow> buf \<Rightarrow> u32 \<Rightarrow> smem \<Rightarrow> (int \<times> buf \<times> smem) exec" where
  "ewf_smith_hmac X value hmac_key b sz m = do {
     (r, mac, m) \<leftarrow> ewf_crypto_hmac_sha256_mac X hmac_key (Some value) m;
     if r \<noteq> EWF_SUCCESS then Some (EWF_ERROR, b, m)
     else do {
       (_, b) \<leftarrow> nbu_string_copy (Some b) sz (Some mac);
       b \<leftarrow> b;
       Some (EWF_SUCCESS, b, m) } }"

text \<open>The result of \<open>ewf_smith_hmac\<close> is assigned but never returned.\<close>

definition ewf_smith_full_hash :: "'h ewf_ext \<Rightarrow> string \<Rightarrow> string \<Rightarrow> buf \<Rightarrow> u32 \<Rightarrow> smem \<Rightarrow> (int \<times> buf \<times> smem) exec" where
  "ewf_smith_full_hash X value hmac_key b sz m = do {
     (r, hash, m) \<leftarrow> ewf_crypto_sha256_hash X (Some value) m;
     if r \<noteq> EWF_SUCCESS then Some (EWF_ERROR, b, m)
     else do {
       (_, b, m) \<leftarrow> ewf_smith_hmac X hash hmac_key b sz m;
       Some (EWF_SUCCESS, b, m) } }"

subsection \<open>\<open>core/ewf_smith.c\<close>: log-in with login and password\<close>

definition e_mem :: "'h ewf_state \<Rightarrow> smem" where
  "e_mem st = ss_mem (e_sess st)"

definition set_e_mem :: "smem \<Rightarrow> 'h ewf_state \<Rightarrow> 'h ewf_state" where
  "set_e_mem m st = st\<lparr>e_sess := (e_sess st)\<lparr>ss_mem := m\<rparr>\<rparr>"

definition session_id :: "addr \<Rightarrow> 'h ewf_state \<Rightarrow> string exec" where
  "session_id p st = do { w \<leftarrow> m_objs (e_mem st) p; Some (c_str (s_id w)) }"

text \<open>
  The clear-text branch: fetch a query value into \<open>buf\<close> and hash it with the session
  identifier as key.  The result is an error code to return, or the hash in its own buffer.
\<close>

definition passwd_field ::
  "'h ewf_ext \<Rightarrow> string \<Rightarrow> addr \<Rightarrow> buf \<Rightarrow> 'h ewf_state \<Rightarrow> ((int + buf) \<times> buf \<times> 'h ewf_state) exec" where
  "passwd_field X field zombie b st = do {
     (r, b, h) \<leftarrow> ewf_hdf_sget_copy X field b 256 (e_hdf st);
     let st = st\<lparr>e_hdf := h\<rparr>;
     if r \<noteq> EWF_SUCCESS then Some (Inl EWF_SMITH_LOGIN_INVALID_ARGS, b, st)
     else do {
       v \<leftarrow> read_str b;
       i \<leftarrow> session_id zombie st;
       (r, out, m) \<leftarrow> ewf_smith_full_hash X v i (uninit 65) 65 (e_mem st);
       let st = set_e_mem m st;
       if r \<noteq> EWF_SUCCESS then Some (Inl EWF_SMITH_LOGIN_ERROR, b, st)
       else Some (Inr out, b, st) } }"

text \<open>The comparison with the configured login and password, at the end of the function.\<close>

definition passwd_check ::
  "'h ewf_ext \<Rightarrow> 'h ewf_matrix_ops \<Rightarrow> addr \<Rightarrow> buf \<Rightarrow> buf \<Rightarrow> buf \<Rightarrow> 'h ewf_state \<Rightarrow> (int \<times> 'h ewf_state) exec" where
  "passwd_check X M zombie login password b st = do {
     (_, cfg) \<leftarrow> ewf_config_get M ''web_login'' (uninit 65) 65;
     cfg_login \<leftarrow> read_str cfg;
     i \<leftarrow> session_id zombie st;
     (r, b, m) \<leftarrow> ewf_smith_full_hash X cfg_login i b 256 (e_mem st);
     let st = set_e_mem m st;
     if r \<noteq> EWF_SUCCESS then Some (EWF_SMITH_LOGIN_ERROR, st)
     else do {
       l \<leftarrow> read_str login;
       s \<leftarrow> read_str b;
       if nbu_string_compare (Some l) (Some s) \<noteq> NBU_SUCCESS then Some (EWF_SMITH_LOGIN_INVALID_ARGS, st)
       else do {
         (_, cfg) \<leftarrow> ewf_config_get M ''web_password'' (uninit 65) 65;
         cfg_password \<leftarrow> read_str cfg;
         (r, b, m) \<leftarrow> ewf_smith_hmac X cfg_password i b 256 (e_mem st);
         let st = set_e_mem m st;
         if r \<noteq> EWF_SUCCESS then Some (EWF_SMITH_LOGIN_ERROR, st)
         else do {
           p \<leftarrow> read_str password;
           s \<leftarrow> read_str b;
           if nbu_string_compare (Some p) (Some s) \<noteq> NBU_SUCCESS then Some (EWF_SMITH_LOGIN_INVALID_ARGS, st)
           else Some (EWF_SMITH_LOGIN_SUCCESS, st) } } } }"

definition ewf_smith_login_passwd ::
  "'h ewf_ext \<Rightarrow> 'h ewf_matrix_ops \<Rightarrow> addr \<Rightarrow> 'h ewf_state \<Rightarrow> (int \<times> 'h ewf_state) exec" where
  "ewf_smith_login_passwd X M zombie st = do {
     (r, hash, h) \<leftarrow> ewf_hdf_sget_copy X ''hash'' (uninit 129) 129 (e_hdf st);
     let st = st\<lparr>e_hdf := h\<rparr>;
     len_hash \<leftarrow> (if r = EWF_SUCCESS then map_option length (read_str hash) else Some 0);
     if len_hash \<noteq> 0 \<and> len_hash \<noteq> 128 then Some (EWF_SMITH_LOGIN_INVALID_ARGS, st)
     else if len_hash = 0 then do {
       (l, b, st) \<leftarrow> passwd_field X ''login'' zombie (uninit 256) st;
       case l of Inl e \<Rightarrow> Some (e, st)
       | Inr login \<Rightarrow> do {
           (p, b, st) \<leftarrow> passwd_field X ''password'' zombie b st;
           case p of Inl e \<Rightarrow> Some (e, st)
           | Inr password \<Rightarrow> passwd_check X M zombie login password b st } }
     else do {
       s \<leftarrow> read_str hash;
       (_, login) \<leftarrow> nbu_string_copy (Some (uninit 65)) 65 (Some s);
       login \<leftarrow> login;
       (_, password) \<leftarrow> nbu_string_copy (Some (uninit 65)) 65 (Some (drop 64 s));
       password \<leftarrow> password;
       passwd_check X M zombie login password (uninit 256) st } }"

subsection \<open>\<open>core/ewf_smith.c\<close>: sessions\<close>

text \<open>
  \<open>ewf_smith_login\<close> after the session was found or created: \<open>zlocal\<close> says that it
  was created here and is not in the table yet.  The bit field \<open>activated:1\<close> of a signed
  \<open>int\<close> holds 0 or -1.
\<close>

definition free_session :: "bool \<Rightarrow> addr \<Rightarrow> 'h ewf_state \<Rightarrow> 'h ewf_state exec" where
  "free_session zlocal zombie st =
     (if zlocal then do { h \<leftarrow> free_obj zombie (m_objs (e_mem st)); Some (set_e_mem ((e_mem st)\<lparr>m_objs := h\<rparr>) st) }
      else Some st)"

definition login_activate :: "addr \<Rightarrow> timeval \<Rightarrow> 'h ewf_state \<Rightarrow> (int \<times> 'h ewf_state) exec" where
  "login_activate zombie tv st = do {
     w \<leftarrow> m_objs (e_mem st) zombie;
     let st = set_e_mem ((e_mem st)\<lparr>m_objs := (m_objs (e_mem st))(zombie \<mapsto> w\<lparr>s_activated := - 1, s_tv := tv\<rparr>)\<rparr>) st;
     Some (EWF_SMITH_LOGIN_SUCCESS, st\<lparr>e_cookies := e_cookies st @ [(''sid'', Some (c_str (s_id w)))]\<rparr>) }"

definition login_with ::
  "'h ewf_ext \<Rightarrow> 'h ewf_matrix_ops \<Rightarrow> bool \<Rightarrow> addr \<Rightarrow> string \<Rightarrow> timeval \<Rightarrow> 'h ewf_state \<Rightarrow> (int \<times> 'h ewf_state) exec" where
  "login_with X M zlocal zombie zsid tv st = do {
     let method = (case hdf_get_value X (e_hdf st) ''Query.method'' of None \<Rightarrow> ''passwd'' | Some v \<Rightarrow> v);
     (_, a) \<leftarrow> ewf_config_get M ''web_auth'' (uninit 16) 16;
     auth \<leftarrow> read_str a;
     if nbu_string_matches auth ''all'' \<noteq> NBU_STRING_EQUAL \<and>
        nbu_string_compare (Some method) (Some auth) \<noteq> NBU_STRING_EQUAL
     then do {
       st \<leftarrow> free_session zlocal zombie st;
       Some (EWF_SMITH_LOGIN_METHOD_NOT_ALLOWED, st) }
     else do {
       (ret, st) \<leftarrow> (if nbu_string_matches method ''passwd'' = NBU_STRING_EQUAL
                     then ewf_smith_login_passwd X M zombie st
                     else (case login_alt_method M of
                             Some f \<Rightarrow> f zombie method st
                           | None \<Rightarrow> Some (EWF_SMITH_LOGIN_METHOD_NOT_ALLOWED, st)));
       if ret = EWF_SMITH_LOGIN_SUCCESS then do {
         (r, ss) \<leftarrow> (if zlocal then ewf_session_list_add zombie (e_sess st) else Some (EWF_SUCCESS, e_sess st));
         let st = st\<lparr>e_sess := ss\<rparr>;
         if r \<noteq> EWF_SUCCESS then do {
           st \<leftarrow> free_session zlocal zombie st;
           Some (EWF_SMITH_LOGIN_ERROR, st) }
         else login_activate zombie tv st }
       else do {
         ss \<leftarrow> (if \<not> zlocal then map_option snd (ewf_session_list_remove (Some zsid) (e_sess st)) else Some (e_sess st));
         st \<leftarrow> free_session zlocal zombie (st\<lparr>e_sess := ss\<rparr>);
         Some (ret, st) } } }"

definition ewf_smith_login ::
  "'h ewf_ext \<Rightarrow> 'h ewf_matrix_ops \<Rightarrow> timeval option \<Rightarrow> u8 list option \<Rightarrow> timeval \<Rightarrow> 'h ewf_state
     \<Rightarrow> (int \<times> 'h ewf_state) exec" where
  "ewf_smith_login X M time rdm tv st = (case hdf_get_value X (e_hdf st) ''Query.zsid'' of
      Some (c # cs) \<Rightarrow> do {
        (zombie, ss) \<leftarrow> ewf_session_list_get (Some (c # cs)) (e_sess st);
        let st = st\<lparr>e_sess := ss\<rparr>;
        if zombie = 0 then Some (EWF_SMITH_LOGIN_INVALID_SESSION, st)
        else login_with X M False zombie (c # cs) tv st }
    | _ \<Rightarrow> do {
        (zombie, m) \<leftarrow> ewf_session_create time rdm (e_mem st);
        let st = set_e_mem m st;
        if zombie = 0 then Some (EWF_SMITH_LOGIN_ERROR, st)
        else do {
          i \<leftarrow> session_id zombie st;
          login_with X M True zombie i tv st } })"

definition ewf_smith_logout :: "'h ewf_ext \<Rightarrow> 'h ewf_state \<Rightarrow> (int \<times> 'h ewf_state) exec" where
  "ewf_smith_logout X st = (case hdf_get_value X (e_hdf st) ''Cookie.sid'' of
      None \<Rightarrow> Some (EWF_ERROR, st)
    | Some i \<Rightarrow> do {
        (r, ss) \<leftarrow> ewf_session_list_remove (Some i) (e_sess st);
        let st = st\<lparr>e_sess := ss\<rparr>;
        if r = EWF_SUCCESS
        then Some (EWF_SUCCESS, st\<lparr>e_cookies := e_cookies st @ [(''sid'', None)]\<rparr>)
        else Some (EWF_ERROR, st) })"

definition ewf_smith_check_session :: "'h ewf_ext \<Rightarrow> timeval \<Rightarrow> 'h ewf_state \<Rightarrow> (int \<times> 'h ewf_state) exec" where
  "ewf_smith_check_session X tv st = (case hdf_get_value X (e_hdf st) ''Cookie.sid'' of
      None \<Rightarrow> Some (EWF_ERROR, st)
    | Some i \<Rightarrow> do {
        (p, ss) \<leftarrow> ewf_session_list_get (Some i) (e_sess st);
        let st = st\<lparr>e_sess := ss\<rparr>;
        if p = 0 then Some (EWF_ERROR, st)
        else do {
          w \<leftarrow> m_objs (e_mem st) p;
          t \<leftarrow> s32_add (tv_sec (s_tv w)) SESSION_TIMEOUT;
          if tv_sec tv > t then do {
            (_, ss) \<leftarrow> ewf_session_list_remove (Some i) (e_sess st);
            Some (EWF_ERROR, st\<lparr>e_sess := ss\<rparr>) }
          else Some (EWF_SUCCESS,
            set_e_mem ((e_mem st)\<lparr>m_objs := (m_objs (e_mem st))(p \<mapsto> w\<lparr>s_tv := tv\<rparr>)\<rparr>) st) } })"

datatype ewf_page_access = EWF_ACCESS_PRIVATE | EWF_ACCESS_PUBLIC

definition ewf_smith_access_control ::
  "'h ewf_ext \<Rightarrow> 'h ewf_matrix_ops \<Rightarrow> timeval \<Rightarrow> ewf_page_access \<Rightarrow> 'h ewf_state \<Rightarrow> (int \<times> 'h ewf_state) exec" where
  "ewf_smith_access_control X M tv policy st = do {
     (_, a) \<leftarrow> ewf_config_get M ''web_auth'' (uninit 16) 16;
     auth \<leftarrow> read_str a;
     if nbu_string_matches auth ''off'' = NBU_STRING_EQUAL then Some (EWF_SMITH_CTL_AUTH_OFF, st)
     else do {
       (r, st) \<leftarrow> ewf_smith_check_session X tv st;
       Some (if r = EWF_SUCCESS then EWF_SMITH_CTL_SUCCESS
             else if policy = EWF_ACCESS_PUBLIC then EWF_SMITH_CTL_PUBLICPAGE
             else EWF_SMITH_CTL_NOT_ALLOWED, st) } }"

subsection \<open>The hashes\<close>

text \<open>SHA-256 gives 32 bytes, whatever the message and the key.\<close>

definition sha2_laws :: "'h ewf_ext \<Rightarrow> bool" where
  "sha2_laws X \<longleftrightarrow> (\<forall>t. length (sha2_digest X t) = 32) \<and> (\<forall>k t. length (sha2_hmac X k t) = 32)"

definition hmac_hex :: "'h ewf_ext \<Rightarrow> string \<Rightarrow> string \<Rightarrow> string" where
  "hmac_hex X key t = hex_id (sha2_hmac X key t)"

definition sha_hex :: "'h ewf_ext \<Rightarrow> string \<Rightarrow> string" where
  "sha_hex X t = hex_id (sha2_digest X t)"

lemma hmac_hex_props [simp]:
  "NUL \<notin> set (hmac_hex X k t)" "NUL \<notin> set (sha_hex X t)"
  "sha2_laws X \<Longrightarrow> length (hmac_hex X k t) = 64" "sha2_laws X \<Longrightarrow> length (sha_hex X t) = 64"
  by (simp_all add: hmac_hex_def sha_hex_def sha2_laws_def)

lemma hex_digest_ok: "length d = 32 \<Longrightarrow> hex_digest d = Some (hex_id d)"
  using hex_loop_zeroed [of 64 d] by (simp add: hex_digest_def numeral_eq_Suc)

text \<open>The memory that is left after \<open>n\<close> successful allocations.\<close>

definition spend :: "nat \<Rightarrow> smem \<Rightarrow> smem" where
  "spend n m = m\<lparr>m_avail := m_avail m - n\<rparr>"

lemma spend_simps [simp]:
  "m_avail (spend n m) = m_avail m - n" "m_objs (spend n m) = m_objs m" "m_brk (spend n m) = m_brk m"
  "spend a (spend b m) = spend (b + a) m"
  by (simp_all add: spend_def)

lemma heap_alloc_ok: "0 < m_avail m \<Longrightarrow> heap_alloc m = (True, spend 1 m)"
  by (simp add: heap_alloc_def spend_def)

lemma smith_hmac_ok:
  assumes "sha2_laws X" and "room b sz" and "64 < unat sz" and "0 < m_avail m"
  obtains b' where "ewf_smith_hmac X v k b sz m = Some (EWF_SUCCESS, b', spend 1 m)"
    and "read_str b' = Some (hmac_hex X k v)" and "length b' = length b"
proof -
  have d: "hex_digest (sha2_hmac X k v) = Some (hmac_hex X k v)"
    using assms(1) by (simp add: hex_digest_ok hmac_hex_def sha2_laws_def)
  obtain r b' where "nbu_string_copy (Some b) sz (Some (hmac_hex X k v)) = Some (r, Some b')"
    and "read_str b' = Some (take (unat sz - 1) (hmac_hex X k v))" and "length b' = length b"
    by (rule copy_into [OF assms(2) hmac_hex_props(1)])
  then show ?thesis
    using that assms d by (simp add: ewf_smith_hmac_def ewf_crypto_hmac_sha256_mac_def heap_alloc_ok)
qed

lemma smith_full_hash_ok:
  assumes "sha2_laws X" and "room b sz" and "64 < unat sz" and "1 < m_avail m"
  obtains b' where "ewf_smith_full_hash X v k b sz m = Some (EWF_SUCCESS, b', spend 2 m)"
    and "read_str b' = Some (hmac_hex X k (sha_hex X v))" and "length b' = length b"
proof -
  have d: "hex_digest (sha2_digest X v) = Some (sha_hex X v)"
    using assms(1) by (simp add: hex_digest_ok sha_hex_def sha2_laws_def)
  obtain b' where "ewf_smith_hmac X (sha_hex X v) k b sz (spend 1 m) = Some (EWF_SUCCESS, b', spend 1 (spend 1 m))"
    and "read_str b' = Some (hmac_hex X k (sha_hex X v))" and "length b' = length b"
    by (rule smith_hmac_ok [OF assms(1-3), of "spend 1 m"]) (use assms(4) in auto)
  then show ?thesis
    using that assms d by (simp add: ewf_smith_full_hash_def ewf_crypto_sha256_hash_def heap_alloc_ok numeral_2_eq_2)
qed

subsection \<open>Checking a login and a password\<close>

text \<open>What a configuration variable reads as in an automatic array of \<open>n\<close> characters.\<close>

definition config_is :: "'h ewf_matrix_ops \<Rightarrow> string \<Rightarrow> nat \<Rightarrow> string \<Rightarrow> bool" where
  "config_is M name n v \<longleftrightarrow>
     (case ewf_config_get M name (uninit n) (of_nat n) of None \<Rightarrow> False | Some (_, b) \<Rightarrow> read_str b = Some v)"

lemma config_isE:
  assumes "config_is M name n v"
  obtains r b where "ewf_config_get M name (uninit n) (of_nat n) = Some (r, b)" and "read_str b = Some v"
  using assms by (auto simp: config_is_def split: option.splits)

lemma string_compare_Some [simp]: "nbu_string_compare (Some s) (Some t) = 0 \<longleftrightarrow> s = t"
  using compare_loop_eq [of s t] by (simp add: nbu_string_compare_def)

lemma passwd_check_ok:
  assumes X: "sha2_laws X" and cl: "config_is M ''web_login'' 65 cfg_login" and cp: "config_is M ''web_password'' 65 cfg_password"
    and i: "session_id z st = Some i" and av: "2 < m_avail (e_mem st)" and b: "length b = 256"
    and lg: "read_str lb = Some l" and pw: "read_str pb = Some p"
  shows "\<exists>n\<le>3. passwd_check X M z lb pb b st = Some (
    if l = hmac_hex X i (sha_hex X cfg_login) \<and> p = hmac_hex X i cfg_password
    then EWF_SMITH_LOGIN_SUCCESS else EWF_SMITH_LOGIN_INVALID_ARGS, set_e_mem (spend n (e_mem st)) st)"
proof -
  obtain r1 c1 where c1: "ewf_config_get M ''web_login'' (uninit 65) 65 = Some (r1, c1)" "read_str c1 = Some cfg_login"
    using config_isE [OF cl] by auto
  obtain r2 c2 where c2: "ewf_config_get M ''web_password'' (uninit 65) 65 = Some (r2, c2)" "read_str c2 = Some cfg_password"
    using config_isE [OF cp] by auto
  have rm: "room x 256" if "length x = 256" for x :: buf using that by (simp add: room_def)
  obtain b1 where b1: "ewf_smith_full_hash X cfg_login i b 256 (e_mem st) = Some (EWF_SUCCESS, b1, spend 2 (e_mem st))"
    "read_str b1 = Some (hmac_hex X i (sha_hex X cfg_login))" "length b1 = 256"
    by (rule smith_full_hash_ok [OF X rm [OF b], of "e_mem st" cfg_login i]) (use av b in auto)
  obtain b2 where b2: "ewf_smith_hmac X cfg_password i b1 256 (spend 2 (e_mem st)) =
      Some (EWF_SUCCESS, b2, spend 1 (spend 2 (e_mem st)))" "read_str b2 = Some (hmac_hex X i cfg_password)"
    by (rule smith_hmac_ok [OF X rm [OF b1(3)], of "spend 2 (e_mem st)" cfg_password i]) (use av in auto)
  show ?thesis
    using c1 c2 i lg pw b1 b2
    by (cases "l = hmac_hex X i (sha_hex X cfg_login)")
       (auto simp: passwd_check_def e_mem_def set_e_mem_def intro: exI [of _ 2] exI [of _ 3])
qed

lemma sget_copy_ok:
  assumes "ewf_hdf_sget X f h = Some (Some v, h')" and "NUL \<notin> set v" and "room b sz"
  obtains b' where "ewf_hdf_sget_copy X f b sz h = Some (EWF_SUCCESS, b', h')"
    and "read_str b' = Some (take (unat sz - 1) v)" and "length b' = length b"
proof -
  obtain r b' where "nbu_string_copy (Some b) sz (Some v) = Some (r, Some b')"
    and "read_str b' = Some (take (unat sz - 1) v)" and "length b' = length b"
    by (rule copy_into [OF assms(3,2)])
  then show ?thesis using that assms(1) by (simp add: ewf_hdf_sget_copy_def)
qed

lemma login_passwd_challenge_ok:
  assumes X: "sha2_laws X" and cl: "config_is M ''web_login'' 65 cfg_login" and cp: "config_is M ''web_password'' 65 cfg_password"
    and i: "session_id z st = Some i" and av: "2 < m_avail (e_mem st)"
    and hv: "ewf_hdf_sget X ''hash'' (e_hdf st) = Some (Some hv, h')" "NUL \<notin> set hv" "128 \<le> length hv"
  shows "\<exists>n\<le>3. ewf_smith_login_passwd X M z st = Some (
    if take 128 hv = hmac_hex X i (sha_hex X cfg_login) @ hmac_hex X i cfg_password
    then EWF_SMITH_LOGIN_SUCCESS else EWF_SMITH_LOGIN_INVALID_ARGS,
    set_e_mem (spend n (e_mem st)) (st\<lparr>e_hdf := h'\<rparr>))"
proof -
  let ?s = "take 128 hv" and ?st = "st\<lparr>e_hdf := h'\<rparr>"
  have nn: "NUL \<notin> set ?s" "NUL \<notin> set (drop 64 ?s)" using hv(2) by (auto dest: in_set_takeD in_set_dropD)
  obtain b where b: "ewf_hdf_sget_copy X ''hash'' (uninit 129) 129 (e_hdf st) = Some (EWF_SUCCESS, b, h')"
    "read_str b = Some ?s"
    by (rule sget_copy_ok [OF hv(1,2), of "uninit 129" 129]) (simp_all add: room_def uninit_def)
  obtain r1 lb where lb: "nbu_string_copy (Some (uninit 65)) 65 (Some ?s) = Some (r1, Some lb)"
    "read_str lb = Some (take 64 ?s)"
    by (rule copy_into [OF _ nn(1), of "uninit 65" 65]) (simp_all add: room_def uninit_def)
  obtain r2 pb where pb: "nbu_string_copy (Some (uninit 65)) 65 (Some (drop 64 ?s)) = Some (r2, Some pb)"
    "read_str pb = Some (take 64 (drop 64 ?s))"
    by (rule copy_into [OF _ nn(2), of "uninit 65" 65]) (simp_all add: room_def uninit_def)
  have st: "session_id z ?st = Some i" "e_mem ?st = e_mem st" using i by (simp_all add: session_id_def e_mem_def)
  have eq: "take 64 ?s = H \<and> take 64 (drop 64 ?s) = P \<longleftrightarrow> ?s = H @ P" if "length H = 64" "length P = 64" for H P :: string
  proof -
    have "take 64 (drop 64 ?s) = drop 64 ?s" using hv(3) by simp
    moreover have "?s = take 64 ?s @ drop 64 ?s" by (rule append_take_drop_id [symmetric])
    moreover have "length (take 64 ?s) = 64" using hv(3) by simp
    ultimately show ?thesis using that by (metis append_eq_append_conv)
  qed
  obtain n where n: "n \<le> 3" "passwd_check X M z lb pb (uninit 256) ?st = Some (
      if take 64 ?s = hmac_hex X i (sha_hex X cfg_login) \<and> take 64 (drop 64 ?s) = hmac_hex X i cfg_password
      then EWF_SMITH_LOGIN_SUCCESS else EWF_SMITH_LOGIN_INVALID_ARGS, set_e_mem (spend n (e_mem ?st)) ?st)"
    using passwd_check_ok [OF X cl cp st(1) _ _ lb(2) pb(2), of "uninit 256"] av st(2) by (auto simp: uninit_def)
  have "ewf_smith_login_passwd X M z st = passwd_check X M z lb pb (uninit 256) ?st"
    using b lb pb hv(3) by (simp add: ewf_smith_login_passwd_def)
  then show ?thesis using n eq X st(2) by auto
qed

text \<open>The clear-text path, when no challenge answer was sent.\<close>

lemma passwd_field_ok:
  assumes X: "sha2_laws X" and i: "session_id z st = Some i" and av: "1 < m_avail (e_mem st)" and b: "length b = 256"
    and v: "ewf_hdf_sget X f (e_hdf st) = Some (Some v, h')" "NUL \<notin> set v"
  obtains out b' where "passwd_field X f z b st = Some (Inr out, b', set_e_mem (spend 2 (e_mem st)) (st\<lparr>e_hdf := h'\<rparr>))"
    and "read_str out = Some (hmac_hex X i (sha_hex X (take 255 v)))" and "length b' = 256"
proof -
  let ?st = "st\<lparr>e_hdf := h'\<rparr>"
  obtain b' where b': "ewf_hdf_sget_copy X f b 256 (e_hdf st) = Some (EWF_SUCCESS, b', h')"
    "read_str b' = Some (take 255 v)" "length b' = 256"
    by (rule sget_copy_ok [OF v, of b 256]) (use b in \<open>simp_all add: room_def\<close>)
  have st: "session_id z ?st = Some i" "e_mem ?st = e_mem st" using i by (simp_all add: session_id_def e_mem_def)
  obtain out where "ewf_smith_full_hash X (take 255 v) i (uninit 65) 65 (e_mem st) = Some (EWF_SUCCESS, out, spend 2 (e_mem st))"
    "read_str out = Some (hmac_hex X i (sha_hex X (take 255 v)))"
    by (rule smith_full_hash_ok [OF X _ _ av, of "uninit 65" 65 "take 255 v" i]) (simp_all add: room_def uninit_def)
  then show ?thesis using that b' st by (simp add: passwd_field_def)
qed

lemma login_passwd_clear_ok:
  assumes X: "sha2_laws X" and cl: "config_is M ''web_login'' 65 cfg_login" and cp: "config_is M ''web_password'' 65 cfg_password"
    and i: "session_id z st = Some i" and av: "6 < m_avail (e_mem st)"
    and hv: "ewf_hdf_sget X ''hash'' (e_hdf st) = Some (None, h0)"
    and lg: "ewf_hdf_sget X ''login'' h0 = Some (Some login, h1)" "NUL \<notin> set login"
    and pw: "ewf_hdf_sget X ''password'' h1 = Some (Some password, h2)" "NUL \<notin> set password"
  shows "\<exists>n\<le>7. ewf_smith_login_passwd X M z st = Some (
    if hmac_hex X i (sha_hex X (take 255 login)) = hmac_hex X i (sha_hex X cfg_login) \<and>
       hmac_hex X i (sha_hex X (take 255 password)) = hmac_hex X i cfg_password
    then EWF_SMITH_LOGIN_SUCCESS else EWF_SMITH_LOGIN_INVALID_ARGS,
    set_e_mem (spend n (e_mem st)) (st\<lparr>e_hdf := h2\<rparr>))"
proof -
  let ?st0 = "st\<lparr>e_hdf := h0\<rparr>"
  have s0: "session_id z ?st0 = Some i" "1 < m_avail (e_mem ?st0)" using i av by (simp_all add: session_id_def e_mem_def)
  obtain lb b1 where l: "passwd_field X ''login'' z (uninit 256) ?st0 =
      Some (Inr lb, b1, set_e_mem (spend 2 (e_mem ?st0)) (?st0\<lparr>e_hdf := h1\<rparr>))"
    "read_str lb = Some (hmac_hex X i (sha_hex X (take 255 login)))" "length b1 = 256"
    by (rule passwd_field_ok [OF X s0, of "uninit 256" "''login''" login h1]) (use lg in \<open>simp_all add: uninit_def\<close>)
  define st1 where "st1 = set_e_mem (spend 2 (e_mem ?st0)) (?st0\<lparr>e_hdf := h1\<rparr>)"
  have s1: "session_id z st1 = Some i" "1 < m_avail (e_mem st1)" "e_hdf st1 = h1"
    using i av by (simp_all add: session_id_def e_mem_def set_e_mem_def st1_def)
  obtain pb b2 where p: "passwd_field X ''password'' z b1 st1 =
      Some (Inr pb, b2, set_e_mem (spend 2 (e_mem st1)) (st1\<lparr>e_hdf := h2\<rparr>))"
    "read_str pb = Some (hmac_hex X i (sha_hex X (take 255 password)))" "length b2 = 256"
    by (rule passwd_field_ok [OF X s1(1,2) l(3), of "''password''" password h2]) (use pw s1(3) in simp_all)
  define st2 where "st2 = set_e_mem (spend 2 (e_mem st1)) (st1\<lparr>e_hdf := h2\<rparr>)"
  have s2: "session_id z st2 = Some i" "2 < m_avail (e_mem st2)" "e_mem st2 = spend 4 (e_mem st)"
    "set_e_mem m st2 = set_e_mem m (st\<lparr>e_hdf := h2\<rparr>)" for m
    using i av by (simp_all add: session_id_def e_mem_def set_e_mem_def st2_def st1_def)
  obtain n where n: "n \<le> 3" "passwd_check X M z lb pb b2 st2 = Some (
      if hmac_hex X i (sha_hex X (take 255 login)) = hmac_hex X i (sha_hex X cfg_login) \<and>
         hmac_hex X i (sha_hex X (take 255 password)) = hmac_hex X i cfg_password
      then EWF_SMITH_LOGIN_SUCCESS else EWF_SMITH_LOGIN_INVALID_ARGS, set_e_mem (spend n (e_mem st2)) st2)"
    using passwd_check_ok [OF X cl cp s2(1,2) p(3) l(2) p(2)] by auto
  have "ewf_smith_login_passwd X M z st = passwd_check X M z lb pb b2 st2"
    using hv l(1) p(1) by (simp add: ewf_smith_login_passwd_def ewf_hdf_sget_copy_def st1_def st2_def)
  then show ?thesis using n s2(3,4) by (intro exI [of _ "4 + n"]) simp
qed

subsection \<open>Sessions and access control\<close>

text \<open>
  What a request does to the abstract table: the first session with the identifier of the cookie is
  removed when it has timed out, and refreshed otherwise.
\<close>

fun spec_session :: "string \<Rightarrow> timeval \<Rightarrow> stable \<Rightarrow> bool \<times> stable" where
  "spec_session i tv [] = (False, [])"
| "spec_session i tv ((d, w) # ps) =
     (if sid w = i
      then if tv_sec tv > tv_sec (s_tv w) + SESSION_TIMEOUT then (False, ps) else (True, (d, w\<lparr>s_tv := tv\<rparr>) # ps)
      else let (ok, qs) = spec_session i tv ps in (ok, (d, w) # qs))"

definition spec_check :: "string option \<Rightarrow> timeval \<Rightarrow> stable \<Rightarrow> bool \<times> stable" where
  "spec_check cookie tv ps = (case cookie of None \<Rightarrow> (False, ps) | Some i \<Rightarrow> spec_session i tv ps)"

definition cookie_sid :: "'h ewf_ext \<Rightarrow> 'h ewf_state \<Rightarrow> string option" where
  "cookie_sid X st = hdf_get_value X (e_hdf st) ''Cookie.sid''"

definition clean_text :: "string option \<Rightarrow> bool" where
  "clean_text s \<longleftrightarrow> (\<forall>t. s = Some t \<longrightarrow> NUL \<notin> set t)"

definition time_ok :: "timeval \<Rightarrow> bool" where
  "time_ok tv \<longleftrightarrow> 0 \<le> tv_sec tv \<and> tv_sec tv + SESSION_TIMEOUT \<le> 2147483647"

lemma spec_session_none: "\<forall>(d, w) \<in> set ps. sid w \<noteq> i \<Longrightarrow> spec_session i tv ps = (False, ps)"
  by (induction ps) auto

lemma spec_session_split:
  "\<forall>(d, w) \<in> set qs. sid w \<noteq> i \<Longrightarrow> sid w = i \<Longrightarrow> spec_session i tv (qs @ (d, w) # rs) =
    (if tv_sec tv > tv_sec (s_tv w) + SESSION_TIMEOUT then (False, qs @ rs) else (True, qs @ (d, w\<lparr>s_tv := tv\<rparr>) # rs))"
  by (induction qs) auto

lemma session_timeout_add:
  "session_ok w \<Longrightarrow> s32_add (tv_sec (s_tv w)) SESSION_TIMEOUT = Some (tv_sec (s_tv w) + SESSION_TIMEOUT)"
  by (auto simp: session_ok_def s32_add_def)

lemma check_session_ok:
  assumes T: "table (e_sess st) ps" and c: "clean_text (cookie_sid X st)" and tv: "time_ok tv"
    and r: "spec_check (cookie_sid X st) tv ps = (ok, qs)"
  shows "\<exists>ss. ewf_smith_check_session X tv st = Some (if ok then EWF_SUCCESS else EWF_ERROR, st\<lparr>e_sess := ss\<rparr>) \<and> table ss qs"
proof (cases "cookie_sid X st")
  case None
  then show ?thesis
    using T r by (auto simp: ewf_smith_check_session_def cookie_sid_def spec_check_def intro: exI [of _ "e_sess st"])
next
  case (Some i)
  then have i: "NUL \<notin> set i" and v: "hdf_get_value X (e_hdf st) ''Cookie.sid'' = Some i"
    using c by (simp_all add: clean_text_def cookie_sid_def)
  obtain s1 where s1: "ewf_session_list_get (Some i) (e_sess st) = Some (lookup i ps, s1)" "table s1 ps"
    using ewf.get_law [OF T i] by blast
  show ?thesis
  proof (cases rule: lookup_cases [of ps i])
    case none
    then show ?thesis
      using s1 v r Some spec_session_none [of ps i tv] by (auto simp: ewf_smith_check_session_def spec_check_def)
  next
    case (found as d w bs)
    have T1: "table s1 (as @ (d, w) # bs)" using s1(2) found(1) by simp
    note w = table_split [OF T1]
    note spec = spec_session_split [OF found(2,3), of tv d bs]
    note defs = ewf_smith_check_session_def e_mem_def set_e_mem_def
    show ?thesis
    proof (cases "tv_sec tv > tv_sec (s_tv w) + SESSION_TIMEOUT")
      case True
      obtain s2 where s2: "ewf_session_list_remove (Some i) s1 = Some (if lookup i ps = 0 then EWF_ERROR else EWF_SUCCESS, s2)"
        "table s2 (remove_first i ps)" using ewf.remove_law [OF s1(2) i] by blast
      show ?thesis
        using s1(1) s2 v r Some found(1,4,5) w session_timeout_add [OF w(2)] True spec
        by (auto simp: defs spec_check_def)
    next
      case False
      have "session_ok (w\<lparr>s_tv := tv\<rparr>)" using w(2) tv by (simp add: session_ok_def time_ok_def)
      note upd = table_update [OF T1 this]
      show ?thesis
        using s1(1) v r Some found(1,4) w session_timeout_add [OF w(2)] False spec upd
        by (auto simp: defs spec_check_def)
    qed
  qed
qed

text \<open>Access control refines the abstract check.\<close>

lemma access_control_ok:
  assumes T: "table (e_sess st) ps" and c: "clean_text (cookie_sid X st)" and tv: "time_ok tv"
    and auth: "config_is M ''web_auth'' 16 auth" "auth \<noteq> ''off''"
    and r: "spec_check (cookie_sid X st) tv ps = (ok, qs)"
  shows "\<exists>ss. ewf_smith_access_control X M tv policy st =
    Some (if ok then EWF_SMITH_CTL_SUCCESS
          else if policy = EWF_ACCESS_PUBLIC then EWF_SMITH_CTL_PUBLICPAGE else EWF_SMITH_CTL_NOT_ALLOWED,
          st\<lparr>e_sess := ss\<rparr>) \<and> table ss qs"
proof -
  obtain r1 b where b: "ewf_config_get M ''web_auth'' (uninit 16) 16 = Some (r1, b)" "read_str b = Some auth"
    using config_isE [OF auth(1)] by auto
  have "nbu_string_matches auth ''off'' \<noteq> NBU_STRING_EQUAL"
    using auth(2) by (simp add: nbu_string_matches_def)
  with b check_session_ok [OF T c tv r] show ?thesis by (auto simp: ewf_smith_access_control_def)
qed

subsection \<open>Log-in and log-out\<close>

text \<open>Checking a password allocates and reads the query: it leaves the sessions alone.\<close>

definition same_sessions :: "'h ewf_state \<Rightarrow> 'h ewf_state \<Rightarrow> bool" where
  "same_sessions st st' \<longleftrightarrow> (\<exists>n h. st' = set_e_mem (spend n (e_mem st)) (st\<lparr>e_hdf := h\<rparr>))"

lemma spend_0 [simp]: "spend 0 m = m"
  by (simp add: spend_def)

lemma same_sessions_trans:
  assumes "same_sessions a b" and "same_sessions b c"
  shows "same_sessions a c"
proof -
  obtain n h n' h' where "b = set_e_mem (spend n (e_mem a)) (a\<lparr>e_hdf := h\<rparr>)" and "c = set_e_mem (spend n' (e_mem b)) (b\<lparr>e_hdf := h'\<rparr>)"
    using assms by (auto simp: same_sessions_def)
  then show ?thesis
    unfolding same_sessions_def by (intro exI [of _ "n + n'"] exI [of _ h']) (simp add: set_e_mem_def e_mem_def)
qed

lemma same_sessions_hdf: "same_sessions st (st\<lparr>e_hdf := h\<rparr>)"
  unfolding same_sessions_def by (intro exI [of _ 0] exI [of _ h]) (simp add: set_e_mem_def e_mem_def)

lemma same_sessions_spend: "same_sessions st (set_e_mem (spend n (e_mem st)) st)"
  unfolding same_sessions_def by (intro exI [of _ n] exI [of _ "e_hdf st"]) (simp add: set_e_mem_def e_mem_def)

lemma same_sessions_refl: "same_sessions st st"
  using same_sessions_spend [of st 0] by (simp add: set_e_mem_def e_mem_def)

lemma heap_alloc_spend: "heap_alloc m = (ok, m') \<Longrightarrow> \<exists>n. m' = spend n m"
  by (intro exI [of _ "if m_avail m = 0 then 0 else 1"]) (auto simp: heap_alloc_def spend_def split: if_splits)

lemma smith_hmac_spend: "ewf_smith_hmac X v k b sz m = Some (r, b', m') \<Longrightarrow> \<exists>n. m' = spend n m"
  by (auto simp: ewf_smith_hmac_def ewf_crypto_hmac_sha256_mac_def bind_Some_iff
      split: if_splits prod.splits dest: heap_alloc_spend)

lemma smith_full_hash_spend: "ewf_smith_full_hash X v k b sz m = Some (r, b', m') \<Longrightarrow> \<exists>n. m' = spend n m"
  by (auto simp: ewf_smith_full_hash_def ewf_crypto_sha256_hash_def bind_Some_iff
      split: if_splits prod.splits dest!: heap_alloc_spend smith_hmac_spend)

lemma passwd_field_frame: "passwd_field X f z b st = Some (r, b', st') \<Longrightarrow> same_sessions st st'"
proof -
  have tr: "same_sessions st (set_e_mem (spend n (e_mem (st\<lparr>e_hdf := h\<rparr>))) (st\<lparr>e_hdf := h\<rparr>))" for n h
    by (rule same_sessions_trans [OF same_sessions_hdf same_sessions_spend])
  assume "passwd_field X f z b st = Some (r, b', st')"
  then show ?thesis
    by (auto simp: passwd_field_def bind_Some_iff Let_def same_sessions_hdf tr split: if_splits dest!: smith_full_hash_spend)
qed

lemma passwd_check_frame: "passwd_check X M z lb pb b st = Some (r, st') \<Longrightarrow> same_sessions st st'"
proof -
  have tr: "same_sessions st (set_e_mem (spend n (e_mem s)) s)" if "same_sessions st s" for n s
    by (rule same_sessions_trans [OF that same_sessions_spend])
  assume "passwd_check X M z lb pb b st = Some (r, st')"
  then show ?thesis
    by (auto simp: passwd_check_def bind_Some_iff Let_def tr same_sessions_spend split: if_splits
        dest!: smith_full_hash_spend smith_hmac_spend)
qed

lemma clear_login_frame:
  assumes "passwd_field X ''login'' z (uninit 256) s \<bind> (\<lambda>(l, b, s). case l of Inl e \<Rightarrow> Some (e, s)
     | Inr login \<Rightarrow> passwd_field X ''password'' z b s \<bind> (\<lambda>(p, b, s).
         case p of Inl e \<Rightarrow> Some (e, s) | Inr password \<Rightarrow> passwd_check X M z login password b s)) = Some (r, st')"
  shows "same_sessions s st'"
proof -
  obtain l b s1 where f: "passwd_field X ''login'' z (uninit 256) s = Some (l, b, s1)"
    using assms by (cases "passwd_field X ''login'' z (uninit 256) s") auto
  show ?thesis
  proof (cases l)
    case (Inl e)
    then show ?thesis using f assms passwd_field_frame [OF f] by simp
  next
    case (Inr login)
    then obtain p b' s2 where g: "passwd_field X ''password'' z b s1 = Some (p, b', s2)"
      using f assms by (cases "passwd_field X ''password'' z b s1") auto
    have s2: "same_sessions s s2" by (rule same_sessions_trans [OF passwd_field_frame [OF f] passwd_field_frame [OF g]])
    show ?thesis
    proof (cases p)
      case (Inr password)
      then have "passwd_check X M z login password b' s2 = Some (r, st')" using f g \<open>l = Inr login\<close> assms by simp
      then show ?thesis by (rule same_sessions_trans [OF s2 passwd_check_frame])
    qed (use f g Inr s2 assms in simp)
  qed
qed

lemma login_passwd_frame:
  assumes "ewf_smith_login_passwd X M z st = Some (r, st')"
  shows "same_sessions st st'"
proof -
  obtain c hash h where h: "ewf_hdf_sget_copy X ''hash'' (uninit 129) 129 (e_hdf st) = Some (c, hash, h)"
    using assms by (cases "ewf_hdf_sget_copy X ''hash'' (uninit 129) 129 (e_hdf st)") (auto simp: ewf_smith_login_passwd_def)
  obtain n where n: "(if c = EWF_SUCCESS then map_option length (read_str hash) else Some 0) = Some n"
    using assms h by (cases "if c = EWF_SUCCESS then map_option length (read_str hash) else Some 0")
      (auto simp: ewf_smith_login_passwd_def)
  have "same_sessions (st\<lparr>e_hdf := h\<rparr>) st'"
  proof (cases "n = 0")
    case True
    then show ?thesis using assms h n by (intro clear_login_frame) (simp add: ewf_smith_login_passwd_def)
  next
    case False
    then show ?thesis
      using assms h n same_sessions_refl
      by (auto simp: ewf_smith_login_passwd_def bind_Some_iff Let_def split: if_split_asm dest: passwd_check_frame)
  qed
  then show ?thesis by (rule same_sessions_trans [OF same_sessions_hdf])
qed

definition passwd_allowed :: "'h ewf_ext \<Rightarrow> 'h ewf_matrix_ops \<Rightarrow> 'h ewf_state \<Rightarrow> bool" where
  "passwd_allowed X M st \<longleftrightarrow> hdf_get_value X (e_hdf st) ''Query.method'' \<in> {None, Some ''passwd''} \<and>
     (config_is M ''web_auth'' 16 ''all'' \<or> config_is M ''web_auth'' 16 ''passwd'')"

text \<open>The session as a successful log-in leaves it.\<close>

definition logged_in :: "timeval \<Rightarrow> ewf_session_t \<Rightarrow> ewf_session_t" where
  "logged_in tv w = w\<lparr>s_activated := - 1, s_tv := tv\<rparr>"

lemma logged_in_ok: "session_ok w \<Longrightarrow> time_ok tv \<Longrightarrow> session_ok (logged_in tv w)"
  by (simp add: logged_in_def session_ok_def time_ok_def)

lemma logged_in_simps [simp]: "sid (logged_in tv w) = sid w" "s_tv (logged_in tv w) = tv"
  by (simp_all add: logged_in_def sid_def)

lemma same_sessionsD:
  assumes "same_sessions st st'"
  shows "table (e_sess st) ps \<Longrightarrow> table (e_sess st') ps" and "m_objs (e_mem st') = m_objs (e_mem st)"
    and "ewf_session_list (e_sess st') = ewf_session_list (e_sess st)" and "m_brk (e_mem st') = m_brk (e_mem st)"
    and "e_cookies st' = e_cookies st"
proof -
  obtain n h where st': "st' = set_e_mem (spend n (e_mem st)) (st\<lparr>e_hdf := h\<rparr>)"
    using assms by (auto simp: same_sessions_def)
  then show "m_objs (e_mem st') = m_objs (e_mem st)" "ewf_session_list (e_sess st') = ewf_session_list (e_sess st)"
    "m_brk (e_mem st') = m_brk (e_mem st)" "e_cookies st' = e_cookies st"
    by (simp_all add: e_mem_def set_e_mem_def)
  assume "table (e_sess st) ps"
  then have "table ((e_sess st)\<lparr>ss_mem := spend n (e_mem st)\<rparr>) ps"
    by (rule table_mem) (simp_all add: e_mem_def spend_def)
  then show "table (e_sess st') ps" by (simp add: st' set_e_mem_def)
qed

lemma passwd_allowedE:
  assumes "passwd_allowed X M st"
  obtains r b auth where "ewf_config_get M ''web_auth'' (uninit 16) 16 = Some (r, b)" and "read_str b = Some auth"
    and "auth = ''all'' \<or> auth = ''passwd''"
    and "(case hdf_get_value X (e_hdf st) ''Query.method'' of None \<Rightarrow> ''passwd'' | Some v \<Rightarrow> v) = ''passwd''"
proof -
  from assms obtain auth where "config_is M ''web_auth'' 16 auth" and "auth = ''all'' \<or> auth = ''passwd''"
    and "(case hdf_get_value X (e_hdf st) ''Query.method'' of None \<Rightarrow> ''passwd'' | Some v \<Rightarrow> v) = ''passwd''"
    unfolding passwd_allowed_def by auto
  moreover from this(1) obtain r b where "ewf_config_get M ''web_auth'' (uninit 16) 16 = Some (r, b)" "read_str b = Some auth"
    by (rule config_isE) simp
  ultimately show ?thesis by (intro that)
qed

lemma login_activate_ok:
  assumes T: "table (e_sess st) (qs @ (z, w) # rs)" and tv: "time_ok tv"
  obtains st' where "login_activate z tv st = Some (EWF_SMITH_LOGIN_SUCCESS, st')"
    and "table (e_sess st') (qs @ (z, logged_in tv w) # rs)"
    and "e_cookies st' = e_cookies st @ [(''sid'', Some (sid w))]"
proof -
  note w = table_split [OF T]
  note upd = table_update [OF T logged_in_ok [OF w(2) tv]]
  let ?m = "(e_mem st)\<lparr>m_objs := (m_objs (e_mem st))(z \<mapsto> logged_in tv w)\<rparr>"
  let ?st = "(set_e_mem ?m st)\<lparr>e_cookies := e_cookies st @ [(''sid'', Some (sid w))]\<rparr>"
  have "login_activate z tv st = Some (EWF_SMITH_LOGIN_SUCCESS, ?st)"
    using w(1) by (simp add: login_activate_def e_mem_def set_e_mem_def logged_in_def sid_def)
  then show ?thesis using upd by (intro that [of ?st]) (simp_all add: e_mem_def set_e_mem_def)
qed

text \<open>A log-in with a session that was created for it.\<close>

lemma login_local_ok:
  assumes T: "table (e_sess st) ps" and al: "passwd_allowed X M st" and tv: "time_ok tv"
    and z: "m_objs (e_mem st) z = Some w" "session_ok w" "0 < z" "z < m_brk (e_mem st)"
      "z \<noteq> ewf_session_list (e_sess st)" "z \<notin> fst ` set ps"
    and lp: "ewf_smith_login_passwd X M z st = Some (r, st2)" and av: "0 < m_avail (e_mem st2)"
  shows "\<exists>st'. login_with X M True z i tv st = Some (r, st') \<and>
    (if r = EWF_SMITH_LOGIN_SUCCESS
     then table (e_sess st') (ps @ [(z, logged_in tv w)]) \<and> e_cookies st' = e_cookies st @ [(''sid'', Some (sid w))]
     else table (e_sess st') ps \<and> e_cookies st' = e_cookies st)"
proof -
  obtain c b auth where a: "ewf_config_get M ''web_auth'' (uninit 16) 16 = Some (c, b)" "read_str b = Some auth"
    "auth = ''all'' \<or> auth = ''passwd''"
    "(case hdf_get_value X (e_hdf st) ''Query.method'' of None \<Rightarrow> ''passwd'' | Some v \<Rightarrow> v) = ''passwd''"
    by (rule passwd_allowedE [OF al])
  note S = same_sessionsD [OF login_passwd_frame [OF lp]]
  note T2 = S(1) [OF T]
  have run: "login_with X M True z i tv st = (if r = EWF_SMITH_LOGIN_SUCCESS then do {
         (r, ss) \<leftarrow> ewf_session_list_add z (e_sess st2);
         let st = st2\<lparr>e_sess := ss\<rparr>;
         if r \<noteq> EWF_SUCCESS then do { st \<leftarrow> free_session True z st; Some (EWF_SMITH_LOGIN_ERROR, st) }
         else login_activate z tv st }
       else do { st \<leftarrow> free_session True z st2; Some (r, st) })"
    using a lp unfolding login_with_def by (auto simp: nbu_string_matches_def)
  show ?thesis
  proof (cases "r = EWF_SMITH_LOGIN_SUCCESS")
    case True
    obtain m' where m': "ewf_session_list_add z (e_sess st2) = Some (EWF_SUCCESS, (e_sess st2)\<lparr>ss_mem := m'\<rparr>)"
      "table ((e_sess st2)\<lparr>ss_mem := m'\<rparr>) (ps @ [(z, w)])"
      by (rule session_add_ok [OF T2]) (use av z S in \<open>auto simp: e_mem_def\<close>)
    let ?st = "st2\<lparr>e_sess := (e_sess st2)\<lparr>ss_mem := m'\<rparr>\<rparr>"
    obtain st' where "login_activate z tv ?st = Some (EWF_SMITH_LOGIN_SUCCESS, st')"
      "table (e_sess st') (ps @ [(z, logged_in tv w)])" "e_cookies st' = e_cookies st @ [(''sid'', Some (sid w))]"
      by (rule login_activate_ok [of ?st ps z w "[]" tv]) (use m'(2) tv S(5) in simp_all)
    then show ?thesis using run True m'(1) by simp
  next
    case False
    let ?m = "(e_mem st2)\<lparr>m_objs := (m_objs (e_mem st2))(z := None)\<rparr>"
    have f: "free_session True z st2 = Some (set_e_mem ?m st2)"
      using z(1,3) S(2) by (simp add: free_session_def free_obj_def)
    have "table (e_sess (set_e_mem ?m st2)) ps"
    proof -
      have "table ((e_sess st2)\<lparr>ss_mem := ?m\<rparr>) ps"
        by (rule table_mem [OF T2]) (use z(6) in \<open>auto simp: e_mem_def image_iff\<close>)
      then show ?thesis by (simp add: set_e_mem_def)
    qed
    then show ?thesis using run False f S(5) by (simp add: set_e_mem_def)
  qed
qed

text \<open>A log-in with a session of the table: a failure removes it.\<close>

lemma login_known_ok:
  assumes T: "table (e_sess st) (qs @ (z, w) # rs)" and al: "passwd_allowed X M st" and tv: "time_ok tv"
    and i: "NUL \<notin> set i" "sid w = i" "\<forall>(d, w) \<in> set qs. sid w \<noteq> i"
    and lp: "ewf_smith_login_passwd X M z st = Some (r, st2)"
  shows "\<exists>st'. login_with X M False z i tv st = Some (r, st') \<and>
    (if r = EWF_SMITH_LOGIN_SUCCESS
     then table (e_sess st') (qs @ (z, logged_in tv w) # rs) \<and> e_cookies st' = e_cookies st @ [(''sid'', Some i)]
     else table (e_sess st') (qs @ rs) \<and> e_cookies st' = e_cookies st)"
proof -
  obtain c b auth where a: "ewf_config_get M ''web_auth'' (uninit 16) 16 = Some (c, b)" "read_str b = Some auth"
    "auth = ''all'' \<or> auth = ''passwd''"
    "(case hdf_get_value X (e_hdf st) ''Query.method'' of None \<Rightarrow> ''passwd'' | Some v \<Rightarrow> v) = ''passwd''"
    by (rule passwd_allowedE [OF al])
  note S = same_sessionsD [OF login_passwd_frame [OF lp]]
  note T2 = S(1) [OF T]
  have run: "login_with X M False z i tv st = (if r = EWF_SMITH_LOGIN_SUCCESS then login_activate z tv st2
       else do { ss \<leftarrow> map_option snd (ewf_session_list_remove (Some i) (e_sess st2)); Some (r, st2\<lparr>e_sess := ss\<rparr>) })"
    using a lp unfolding login_with_def by (auto simp: nbu_string_matches_def free_session_def)
  show ?thesis
  proof (cases "r = EWF_SMITH_LOGIN_SUCCESS")
    case True
    obtain st' where "login_activate z tv st2 = Some (EWF_SMITH_LOGIN_SUCCESS, st')"
      "table (e_sess st') (qs @ (z, logged_in tv w) # rs)" "e_cookies st' = e_cookies st2 @ [(''sid'', Some (sid w))]"
      by (rule login_activate_ok [OF T2 tv])
    then show ?thesis using run True i(2) S(5) by simp
  next
    case False
    obtain c ss where "ewf_session_list_remove (Some i) (e_sess st2) = Some (c, ss)"
      "table ss (remove_first i (qs @ (z, w) # rs))" using ewf.remove_law [OF T2 i(1)] by blast
    moreover have "remove_first i (qs @ (z, w) # rs) = qs @ rs" using i(2,3) by (induction qs) auto
    ultimately show ?thesis using run False S(5) by simp
  qed
qed

subsection \<open>Examples\<close>

definition ex_conf_get :: "string \<Rightarrow> buf \<Rightarrow> u32 \<Rightarrow> (int \<times> buf) exec" where
  "ex_conf_get name b sz = (if name = ''web_auth'' then Some (EWF_SUCCESS, ''all'' @ NUL # drop 4 b)
     else if name = ''web_password'' then Some (EWF_SUCCESS, sha_hex ex_ext ''pw'' @ NUL # drop 65 b)
     else Some (EWF_ERROR, b))"

definition ex_matrix :: "(string \<times> string) list ewf_matrix_ops" where
  "ex_matrix = \<lparr>conf_get = Some ex_conf_get, conf_set = None, login_alt_method = None\<rparr>"

definition ex_state :: "nat \<Rightarrow> (string \<times> string) list \<Rightarrow> (string \<times> string) list ewf_state" where
  "ex_state k h = \<lparr>e_hdf = h, e_sess = ex_sess k, e_cookies = [], e_redirects = []\<rparr>"

lemma ex_state_simps [simp]: "e_hdf (ex_state k h) = h" "e_sess (ex_state k h) = ex_sess k" "e_cookies (ex_state k h) = []"
  "e_mem (ex_state k h) = ss_mem (ex_sess k)"
  by (simp_all add: ex_state_def e_mem_def)

lemma ex_sha2_laws [simp]: "sha2_laws ex_ext"
  by (auto simp: sha2_laws_def ex_ext_def pad32_def min_def)

lemma ex_config [simp]:
  "config_is ex_matrix ''web_auth'' 16 ''all''" "config_is ex_matrix ''web_password'' 65 (sha_hex ex_ext ''pw'')"
  "config_is ex_matrix ''web_login'' 65 ''admin''"
proof -
  show "config_is ex_matrix ''web_auth'' 16 ''all''"
    by (simp add: config_is_def ewf_config_get_def ex_matrix_def ex_conf_get_def set_byte_def uninit_def read_str_def c_str_def)
  show "config_is ex_matrix ''web_password'' 65 (sha_hex ex_ext ''pw'')"
    by (simp add: config_is_def ewf_config_get_def ex_matrix_def ex_conf_get_def set_byte_def uninit_def)
  have "length ((uninit 65)[0 := NUL]) = 65" by (simp add: uninit_def)
  then have r: "room ((uninit 65)[0 := NUL]) 65" by (simp add: room_def)
  obtain c b' where "nbu_string_copy (Some ((uninit 65)[0 := NUL])) 65 (Some ''admin'') = Some (c, Some b')"
    "read_str b' = Some ''admin''"
    by (rule copy_into [OF r, of "''admin''"]) simp_all
  then show "config_is ex_matrix ''web_login'' 65 ''admin''"
    by (simp add: config_is_def ewf_config_get_def ex_matrix_def ex_conf_get_def set_byte_def conf_default_value_def
        nbu_string_compare_def uninit_def)
qed

subsection \<open>Properties\<close>

text \<open>
  C2: Access control is the abstract check.  With authentication on, a request is granted exactly
  when its cookie names a session of the table that has not timed out, public pages are
  served otherwise, private pages are refused, and the table is refreshed or cleaned accordingly.
\<close>

theorem access_control_refines:
  assumes "table (e_sess st) ps" and "clean_text (cookie_sid X st)" and "time_ok tv"
    and "config_is M ''web_auth'' 16 auth" and "auth \<noteq> ''off''"
    and "spec_check (cookie_sid X st) tv ps = (ok, qs)"
  shows "\<exists>ss. ewf_smith_access_control X M tv policy st =
    Some (if ok then EWF_SMITH_CTL_SUCCESS
          else if policy = EWF_ACCESS_PUBLIC then EWF_SMITH_CTL_PUBLICPAGE else EWF_SMITH_CTL_NOT_ALLOWED,
          st\<lparr>e_sess := ss\<rparr>) \<and> table ss qs"
  by (rule access_control_ok [OF assms])

theorem access_control_refines_witness:
  "\<exists>ss. ewf_smith_access_control ex_ext ex_matrix \<lparr>tv_sec = 5000, tv_usec = 0\<rparr> EWF_ACCESS_PRIVATE
      (ex_state 9 [(''Cookie.sid'', ''ab'')]) =
    Some (EWF_SMITH_CTL_NOT_ALLOWED, (ex_state 9 [(''Cookie.sid'', ''ab'')])\<lparr>e_sess := ss\<rparr>) \<and> table ss []"
  using access_control_refines [of "ex_state 9 [(''Cookie.sid'', ''ab'')]" "[(2, ex_session)]" ex_ext
      "\<lparr>tv_sec = 5000, tv_usec = 0\<rparr>" ex_matrix "''all''" False "[]" EWF_ACCESS_PRIVATE]
  by (simp add: clean_text_def cookie_sid_def time_ok_def spec_check_def)

text \<open>A log-in form with clear-text fields, and one that answers a challenge.\<close>

definition clear_request :: "'h ewf_ext \<Rightarrow> 'h ewf_state \<Rightarrow> string \<Rightarrow> string \<Rightarrow> bool" where
  "clear_request X st login password \<longleftrightarrow> hdf_get_value X (e_hdf st) ''Query.zsid'' \<in> {None, Some []} \<and>
     NUL \<notin> set login \<and> NUL \<notin> set password \<and>
     (\<exists>h0 h1 h2. ewf_hdf_sget X ''hash'' (e_hdf st) = Some (None, h0) \<and>
        ewf_hdf_sget X ''login'' h0 = Some (Some login, h1) \<and> ewf_hdf_sget X ''password'' h1 = Some (Some password, h2))"

definition challenge_request :: "'h ewf_ext \<Rightarrow> 'h ewf_state \<Rightarrow> string \<Rightarrow> string \<Rightarrow> bool" where
  "challenge_request X st i hash \<longleftrightarrow> hdf_get_value X (e_hdf st) ''Query.zsid'' = Some i \<and> i \<noteq> [] \<and> NUL \<notin> set i \<and>
     NUL \<notin> set hash \<and> 128 \<le> length hash \<and> (\<exists>h. ewf_hdf_sget X ''hash'' (e_hdf st) = Some (Some hash, h))"

definition new_session :: "u8 list \<Rightarrow> timeval \<Rightarrow> ewf_session_t" where
  "new_session bytes tv = \<lparr>s_activated = 0, s_id = hex_id bytes @ [NUL], s_tv = tv\<rparr>"

lemma sid_new_session [simp]: "sid (new_session bytes tv) = hex_id bytes"
  by (simp add: sid_def new_session_def)

lemma login_fresh_ok:
  assumes T: "table (e_sess st) ps" and X: "sha2_laws X" and al: "passwd_allowed X M st"
    and cl: "config_is M ''web_login'' 65 cfg_login" and cp: "config_is M ''web_password'' 65 cfg_password"
    and q: "clear_request X st login password"
    and len: "length bytes = 20" and tv: "time_ok tv0" "time_ok tv" and av: "8 < m_avail (e_mem st)"
  obtains z st' where "ewf_smith_login X M (Some tv0) (Some bytes) tv st = Some (
      if hmac_hex X (hex_id bytes) (sha_hex X (take 255 login)) = hmac_hex X (hex_id bytes) (sha_hex X cfg_login) \<and>
         hmac_hex X (hex_id bytes) (sha_hex X (take 255 password)) = hmac_hex X (hex_id bytes) cfg_password
      then EWF_SMITH_LOGIN_SUCCESS else EWF_SMITH_LOGIN_INVALID_ARGS, st')"
    and "if hmac_hex X (hex_id bytes) (sha_hex X (take 255 login)) = hmac_hex X (hex_id bytes) (sha_hex X cfg_login) \<and>
         hmac_hex X (hex_id bytes) (sha_hex X (take 255 password)) = hmac_hex X (hex_id bytes) cfg_password
      then table (e_sess st') (ps @ [(z, logged_in tv (new_session bytes tv0))]) \<and>
        e_cookies st' = e_cookies st @ [(''sid'', Some (hex_id bytes))]
      else table (e_sess st') ps \<and> e_cookies st' = e_cookies st"
proof -
  obtain z m' w where c: "ewf_session_create (Some tv0) (Some bytes) (ss_mem (e_sess st)) = Some (z, m')"
    "table ((e_sess st)\<lparr>ss_mem := m'\<rparr>) ps" "m_objs m' z = Some w" "session_ok w" "0 < z" "z < m_brk m'"
    "z \<noteq> ewf_session_list (e_sess st)" "z \<notin> fst ` set ps"
    "w = \<lparr>s_activated = 0, s_id = hex_id bytes @ [NUL], s_tv = tv0\<rparr>" "m_avail m' = m_avail (ss_mem (e_sess st)) - 1"
    by (rule session_create_table [OF T _ len]) (use av tv in \<open>auto simp: e_mem_def time_ok_def\<close>)
  define st1 where "st1 = set_e_mem m' st"
  have s1: "e_sess st1 = (e_sess st)\<lparr>ss_mem := m'\<rparr>" "e_hdf st1 = e_hdf st" "e_mem st1 = m'" "e_cookies st1 = e_cookies st"
    by (simp_all add: st1_def set_e_mem_def e_mem_def)
  have w: "w = new_session bytes tv0" and sw: "sid w = hex_id bytes" using c(9) by (simp_all add: new_session_def sid_def)
  have si: "session_id z st1 = Some (hex_id bytes)" using c(3) sw by (simp add: session_id_def s1 sid_def)
  obtain h0 h1 h2 where h: "ewf_hdf_sget X ''hash'' (e_hdf st1) = Some (None, h0)"
    "ewf_hdf_sget X ''login'' h0 = Some (Some login, h1)" "ewf_hdf_sget X ''password'' h1 = Some (Some password, h2)"
    "NUL \<notin> set login" "NUL \<notin> set password"
    using q by (auto simp: clear_request_def s1)
  have av1: "6 < m_avail (e_mem st1)" using av c(10) s1(3) by (simp add: e_mem_def)
  let ?P = "hmac_hex X (hex_id bytes) (sha_hex X (take 255 login)) = hmac_hex X (hex_id bytes) (sha_hex X cfg_login) \<and>
         hmac_hex X (hex_id bytes) (sha_hex X (take 255 password)) = hmac_hex X (hex_id bytes) cfg_password"
  let ?r = "if ?P then EWF_SMITH_LOGIN_SUCCESS else EWF_SMITH_LOGIN_INVALID_ARGS"
  obtain n where n: "n \<le> 7" "ewf_smith_login_passwd X M z st1 = Some (?r, set_e_mem (spend n (e_mem st1)) (st1\<lparr>e_hdf := h2\<rparr>))"
    using login_passwd_clear_ok [OF X cl cp si av1 h(1,2,4,3,5)] by blast
  have "0 < m_avail (e_mem (set_e_mem (spend n (e_mem st1)) (st1\<lparr>e_hdf := h2\<rparr>)))"
    using n(1) av c(10) s1(3) by (simp add: e_mem_def set_e_mem_def)
  with login_local_ok [of st1 ps X M tv z w ?r _ "hex_id bytes"] n(2) c al tv(2)
  obtain st' where "login_with X M True z (hex_id bytes) tv st1 = Some (?r, st')"
    "if ?r = EWF_SMITH_LOGIN_SUCCESS
     then table (e_sess st') (ps @ [(z, logged_in tv w)]) \<and> e_cookies st' = e_cookies st1 @ [(''sid'', Some (sid w))]
     else table (e_sess st') ps \<and> e_cookies st' = e_cookies st1"
    by (auto simp: s1 passwd_allowed_def)
  moreover have "ewf_smith_login X M (Some tv0) (Some bytes) tv st = login_with X M True z (hex_id bytes) tv st1"
    using q c(1,5) si by (auto simp: ewf_smith_login_def clear_request_def e_mem_def st1_def)
  ultimately show ?thesis using that s1(4) w by (auto split: if_splits)
qed



lemma ex_clear_request [simp]:
  "clear_request ex_ext (ex_state k [(''Query.login'', ''admin''), (''Query.password'', ''pw'')]) ''admin'' ''pw''"
  "clear_request ex_ext (ex_state k [(''Query.login'', ''admin''), (''Query.password'', ''no'')]) ''admin'' ''no''"
  by (simp_all add: clear_request_def ewf_hdf_sget_def ewf_hdf_get_def ewf_hdf_get_default_def ewf_hdf_validate_def c_string)

lemma ex_passwd_allowed [simp]:
  "passwd_allowed ex_ext ex_matrix (ex_state k [(''Query.login'', l), (''Query.password'', p)])"
  by (simp add: passwd_allowed_def)

lemma ex_avail [simp]: "m_avail (ss_mem (ex_sess k)) = k"
  by (simp add: ex_sess_def)

abbreviation (input) ex_bytes :: "u8 list" where "ex_bytes \<equiv> replicate 20 7"
abbreviation (input) ex_now :: timeval where "ex_now \<equiv> \<lparr>tv_sec = 1200, tv_usec = 0\<rparr>"

lemma ex_hash_differs:
  "hmac_hex ex_ext (hex_id ex_bytes) (sha_hex ex_ext ''no'') \<noteq> hmac_hex ex_ext (hex_id ex_bytes) (sha_hex ex_ext ''pw'')"
  by (simp add: hmac_hex_def sha_hex_def ex_ext_def pad32_def hex_id_def hex2_def digit_chr_def)

lemma ex_time_ok [simp]: "time_ok ex_now"
  by (simp add: time_ok_def)




text \<open>
  C10: Log-out with a cookie of the table removes its session and clears the cookie, and a
  later request with the same cookie is refused on private pages.
\<close>

theorem logout_then_refused:
  assumes T: "table (e_sess st) ps" and u: "unique_ids ps" and i: "cookie_sid X st = Some i" "NUL \<notin> set i"
    and found: "lookup i ps \<noteq> 0" and auth: "config_is M ''web_auth'' 16 auth" "auth \<noteq> ''off''" and now: "time_ok now"
  shows "\<exists>st' st''. ewf_smith_logout X st = Some (EWF_SUCCESS, st') \<and> table (e_sess st') (remove_first i ps) \<and>
    e_cookies st' = e_cookies st @ [(''sid'', None)] \<and>
    ewf_smith_access_control X M now EWF_ACCESS_PRIVATE st' = Some (EWF_SMITH_CTL_NOT_ALLOWED, st'')"
proof -
  obtain ss where ss: "ewf_session_list_remove (Some i) (e_sess st) = Some (EWF_SUCCESS, ss)" "table ss (remove_first i ps)"
    using ewf.remove_law [OF T i(2)] found by auto
  let ?st = "st\<lparr>e_sess := ss, e_cookies := e_cookies st @ [(''sid'', None)]\<rparr>"
  have lo: "ewf_smith_logout X st = Some (EWF_SUCCESS, ?st)"
    using i(1) ss(1) by (simp add: ewf_smith_logout_def cookie_sid_def)
  have T': "table (e_sess ?st) (remove_first i ps)" and c: "cookie_sid X ?st = Some i"
    using ss(2) i(1) by (simp_all add: cookie_sid_def)
  have "spec_session i now (remove_first i ps) = (False, remove_first i ps)"
    by (rule spec_session_none) (rule table_lookup_none [OF T' lookup_remove_unique [OF u]])
  then have spec: "spec_check (cookie_sid X ?st) now (remove_first i ps) = (False, remove_first i ps)"
    using c by (simp add: spec_check_def)
  have "clean_text (cookie_sid X ?st)" using c i(2) by (simp add: clean_text_def)
  from access_control_ok [OF T' this now auth spec, of EWF_ACCESS_PRIVATE] obtain ss' where
    "ewf_smith_access_control X M now EWF_ACCESS_PRIVATE ?st = Some (EWF_SMITH_CTL_NOT_ALLOWED, ?st\<lparr>e_sess := ss'\<rparr>)" by auto
  then show ?thesis using lo T' by (intro exI [of _ ?st] exI) auto
qed

theorem logout_then_refused_witness:
  "\<exists>st' st''. ewf_smith_logout ex_ext (ex_state 9 [(''Cookie.sid'', ''ab'')]) = Some (EWF_SUCCESS, st') \<and>
    ewf_smith_access_control ex_ext ex_matrix ex_now EWF_ACCESS_PRIVATE st' = Some (EWF_SMITH_CTL_NOT_ALLOWED, st'')"
  using logout_then_refused [of "ex_state 9 [(''Cookie.sid'', ''ab'')]" "[(2, ex_session)]" ex_ext "''ab''" ex_matrix "''all''" ex_now]
  by (simp add: unique_ids_def cookie_sid_def) blast

definition ex_answer :: string where
  "ex_answer = hmac_hex ex_ext ''ab'' (sha_hex ex_ext ''admin'') @ hmac_hex ex_ext ''ab'' (sha_hex ex_ext ''pw'')"

lemma ex_answer_simps [simp]: "length ex_answer = 128" "NUL \<notin> set ex_answer" "take 128 ex_answer = ex_answer"
  by (simp_all add: ex_answer_def)


end
