(* ===== verification/Ewf_Web.thy ===== *)
theory Ewf_Web
  imports Ewf_Smith
begin

text \<open>
  Requests, pages, the dispatcher, the controller and the renderer of libewf:
  \<open>core/ewf_request.c\<close>, \<open>ewf_page.c\<close>, \<open>core/ewf_dispatcher.c\<close>, \<open>core/ewf_controller.c\<close>, \<open>core/ewf_renderer.c\<close>
  and the request loop of \<open>core/ewf_core.c\<close> under \<open>efixo-libewf/src/src\<close>.

  A handler is a function on the state of the web server.  The CGI and HDF calls of
  ClearSilver that these files make are the fields of \<open>cgi_ext\<close>; a page is rendered by
  appending the path of its template to \<open>w_display\<close>.  \<open>w_buffer\<close> is the array \<open>buffer\<close>
  that \<open>ewf_page.h\<close> gives to the pages, and \<open>w_calls\<close> are the calls that they made to the
  configuration daemon.
\<close>

subsection \<open>State\<close>

datatype request_type = display_request | form_request | ajax_request

record ewf_request_t =
  r_type :: request_type
  r_uri :: "string option"

record 'h web =
  w_st :: "'h ewf_state"
  force_raw_out :: int
  force_content_type :: int
  w_display :: "string list"
  w_buffer :: buf
  w_calls :: "string list list"

type_synonym 'h handler = "'h web \<Rightarrow> 'h web exec"

record 'h ewf_page_t =
  p_name :: string
  p_access_policy :: ewf_page_access
  p_display_handler :: "'h handler option"
  p_form_handler :: "'h handler option"
  p_ajax_handler :: "'h handler option"

record 'h cgi_ext =
  cgi_init :: 'h
  cgi_parse :: "'h \<Rightarrow> 'h"
  hdf_read_file :: "'h \<Rightarrow> string \<Rightarrow> 'h"
  hdf_get_int_value :: "'h \<Rightarrow> string \<Rightarrow> int \<Rightarrow> int"

record 'h matrix_hooks =
  pre_dispatch :: "(ewf_request_t \<Rightarrow> 'h web \<Rightarrow> (ewf_request_t \<times> 'h web) exec) option"
  pre_render :: "(ewf_request_t \<Rightarrow> 'h ewf_page_t \<Rightarrow> 'h handler) option"

abbreviation (input) CONTENT_TYPE_AUTO :: int where "CONTENT_TYPE_AUTO \<equiv> 0"
abbreviation (input) CONTENT_TYPE_HTML :: int where "CONTENT_TYPE_HTML \<equiv> 1"
abbreviation (input) CONTENT_TYPE_XML :: int where "CONTENT_TYPE_XML \<equiv> 2"
abbreviation (input) APP_ERROR_112 :: int where "APP_ERROR_112 \<equiv> 112"
abbreviation (input) APP_ERROR_115 :: int where "APP_ERROR_115 \<equiv> 115"
abbreviation (input) HTTP_ERROR_404 :: int where "HTTP_ERROR_404 \<equiv> 404"
abbreviation (input) URI_PAGE_INDEX :: string where "URI_PAGE_INDEX \<equiv> ''/index''"
abbreviation (input) URI_PAGE_LOGIN :: string where "URI_PAGE_LOGIN \<equiv> ''/login''"
abbreviation (input) URI_PAGE_ERROR :: string where "URI_PAGE_ERROR \<equiv> ''/error''"
abbreviation (input) MAX_PAGES_NUM :: nat where "MAX_PAGES_NUM \<equiv> 100"

abbreviation w_hdf :: "'h web \<Rightarrow> 'h" where "w_hdf w \<equiv> e_hdf (w_st w)"

definition upd_hdf :: "('h \<Rightarrow> 'h) \<Rightarrow> 'h web \<Rightarrow> 'h web" where
  "upd_hdf f w = w\<lparr>w_st := (w_st w)\<lparr>e_hdf := f (w_hdf w)\<rparr>\<rparr>"

definition web_set :: "'h ewf_ext \<Rightarrow> string \<Rightarrow> string \<Rightarrow> 'h web \<Rightarrow> 'h web" where
  "web_set X name value = upd_hdf (\<lambda>h. hdf_set_value X h name value)"

definition ewf_utils_redirect :: "string \<Rightarrow> 'h web \<Rightarrow> 'h web" where
  "ewf_utils_redirect uri w = w\<lparr>w_st := (w_st w)\<lparr>e_redirects := e_redirects (w_st w) @ [uri]\<rparr>\<rparr>"

definition ewf_hdf_read_file :: "'h cgi_ext \<Rightarrow> string \<Rightarrow> 'h web \<Rightarrow> 'h web" where
  "ewf_hdf_read_file C name = upd_hdf (\<lambda>h. hdf_read_file C h name)"

definition ewf_hdf_cgi_parse :: "'h cgi_ext \<Rightarrow> 'h web \<Rightarrow> 'h web" where
  "ewf_hdf_cgi_parse C = upd_hdf (cgi_parse C)"

subsection \<open>\<open>core/ewf_request.c\<close>\<close>

definition ewf_request_type :: "'h ewf_ext \<Rightarrow> 'h \<Rightarrow> request_type" where
  "ewf_request_type X h = (
     if (case hdf_get_value X h ''HTTP.XRequestedHandler'' of None \<Rightarrow> False
         | Some v \<Rightarrow> nbu_string_matches v ''ajax'' = NBU_STRING_EQUAL) then ajax_request
     else if (case hdf_get_value X h ''CGI.RequestMethod'' of None \<Rightarrow> False
         | Some v \<Rightarrow> nbu_string_matches v ''POST'' = NBU_STRING_EQUAL) then form_request
     else display_request)"

definition ewf_request_init :: "'h ewf_ext \<Rightarrow> 'h cgi_ext \<Rightarrow> 'h web \<Rightarrow> ewf_request_t \<times> 'h web" where
  "ewf_request_init X C w = (let w = upd_hdf (\<lambda>_. cgi_init C) w in
     (\<lparr>r_type = ewf_request_type X (w_hdf w),
       r_uri = Some (case hdf_get_value X (w_hdf w) ''CGI.RequestURI'' of None \<Rightarrow> ''/'' | Some u \<Rightarrow> u)\<rparr>, w))"

subsection \<open>\<open>core/ewf_renderer.c\<close>\<close>

definition ewf_renderer :: "'h ewf_ext \<Rightarrow> string \<Rightarrow> ewf_request_t \<Rightarrow> 'h ewf_page_t \<Rightarrow> 'h handler" where
  "ewf_renderer X dir_webapproot request page w =
     (if force_raw_out w \<noteq> 0 then Some (w\<lparr>force_raw_out := 0\<rparr>)
      else do {
        let (ext, w) =
          (if force_content_type w = CONTENT_TYPE_HTML
           then (''html'', web_set X ''cgiout.ContentType'' ''text/html'' (w\<lparr>force_content_type := CONTENT_TYPE_AUTO\<rparr>))
           else if force_content_type w = CONTENT_TYPE_XML
           then (''xml'', web_set X ''cgiout.ContentType'' ''text/xml'' (w\<lparr>force_content_type := CONTENT_TYPE_AUTO\<rparr>))
           else if r_type request = ajax_request then (''xml'', web_set X ''cgiout.ContentType'' ''text/xml'' w)
           else (''html'', web_set X ''cgiout.ContentType'' ''text/html'' w));
        (_, path) \<leftarrow> bprintf 256 (dir_webapproot @ ''/fcgiroot/tpl'' @ p_name page @ ''.'' @ ext);
        Some (w\<lparr>w_display := w_display w @ [path]\<rparr>) })"

definition ewf_renderer_force_raw_output :: "'h web \<Rightarrow> 'h web" where
  "ewf_renderer_force_raw_output w = w\<lparr>force_raw_out := 1\<rparr>"

definition ewf_renderer_force_content_type_output :: "int \<Rightarrow> 'h web \<Rightarrow> 'h web" where
  "ewf_renderer_force_content_type_output type w = w\<lparr>force_content_type := type\<rparr>"

subsection \<open>\<open>core/ewf_controller.c\<close>\<close>

text \<open>\<open>page_error\<close> is the global \<open>ewf_page_error\<close>, \<open>None\<close> when it is \<open>NULL\<close>.\<close>

definition ewf_controller_error ::
  "'h ewf_ext \<Rightarrow> 'h ewf_page_t option \<Rightarrow> ewf_request_t \<Rightarrow> 'h ewf_page_t \<Rightarrow> int \<Rightarrow> 'h web \<Rightarrow> ('h ewf_page_t option \<times> 'h web) exec" where
  "ewf_controller_error X page_error request page errnum w = do {
     w \<leftarrow> (if errnum = APP_ERROR_112
           then Some (web_set X ''Var.error.method.Value'' (if r_type request = ajax_request then ''ajax'' else ''display'') w)
           else if errnum = APP_ERROR_115 \<and> r_type request \<noteq> ajax_request
           then do {
             (_, b) \<leftarrow> bprintf 128 (URI_PAGE_LOGIN @ ''?page_ref='' @ p_name page);
             Some (ewf_utils_redirect b w) }
           else Some w);
     Some (page_error, web_set X ''Var.error.Value'' (dec_int errnum) w) }"

text \<open>The branch of a form request: the form handler, and the query copied back after an error.\<close>

definition controller_form :: "'h ewf_ext \<Rightarrow> 'h cgi_ext \<Rightarrow> 'h ewf_page_t \<Rightarrow> 'h handler" where
  "controller_form X C page w = (case p_form_handler page of
      None \<Rightarrow> Some w
    | Some form_handler \<Rightarrow> do {
        w \<leftarrow> form_handler (ewf_hdf_cgi_parse C w);
        if hdf_get_int_value C (w_hdf w) ''Form.Status'' 0 = - 1
        then do {
          (_, h) \<leftarrow> ewf_hdf_copy_cgi_query_tree X (w_hdf w);
          Some (upd_hdf (\<lambda>_. h) w) }
        else Some w })"

text \<open>The handlers of a page that access control lets through.\<close>

definition controller_run ::
  "'h ewf_ext \<Rightarrow> 'h cgi_ext \<Rightarrow> 'h ewf_page_t option \<Rightarrow> ewf_request_t \<Rightarrow> 'h ewf_page_t \<Rightarrow> 'h web \<Rightarrow> ('h ewf_page_t option \<times> 'h web) exec" where
  "controller_run X C page_error request page w = do {
     (_, b) \<leftarrow> bprintf 256 (''rgx/'' @ p_name page @ ''.hdf'');
     let w = ewf_hdf_read_file C b w;
     (disp_handler, w) \<leftarrow> (if r_type request = ajax_request then Some (p_ajax_handler page, w)
        else do {
          w \<leftarrow> (if r_type request = form_request then controller_form X C page w else Some w);
          Some (p_display_handler page, w) });
     case disp_handler of
       Some f \<Rightarrow> do { w \<leftarrow> f w; Some (Some page, w) }
     | None \<Rightarrow> ewf_controller_error X page_error request page APP_ERROR_112 w }"

definition controller_render ::
  "'h ewf_ext \<Rightarrow> 'h cgi_ext \<Rightarrow> 'h ewf_matrix_ops \<Rightarrow> 'h matrix_hooks \<Rightarrow> string \<Rightarrow> ewf_request_t \<Rightarrow> 'h ewf_page_t option \<Rightarrow> 'h handler" where
  "controller_render X C M H dir request page w = do {
     page \<leftarrow> page;
     w \<leftarrow> (case pre_render H of None \<Rightarrow> Some w | Some f \<Rightarrow> f request page w);
     (_, l) \<leftarrow> ewf_config_get M ''web_lang'' (uninit 8) 8;
     lang \<leftarrow> read_str l;
     (_, b) \<leftarrow> bprintf 256 (''lng/'' @ lang @ ''/text.hdf'');
     let w = ewf_hdf_read_file C b w;
     (_, b) \<leftarrow> bprintf 256 (''lng/'' @ lang @ ''/'' @ p_name page @ ''.hdf'');
     let w = ewf_hdf_read_file C b w;
     ewf_renderer X dir request page w }"

definition ewf_controller ::
  "'h ewf_ext \<Rightarrow> 'h cgi_ext \<Rightarrow> 'h ewf_matrix_ops \<Rightarrow> 'h matrix_hooks \<Rightarrow> string \<Rightarrow> timeval \<Rightarrow> 'h ewf_page_t option
     \<Rightarrow> ewf_request_t \<Rightarrow> 'h ewf_page_t \<Rightarrow> 'h handler" where
  "ewf_controller X C M H dir tv page_error request page w = do {
     (ret, st) \<leftarrow> ewf_smith_access_control X M tv (p_access_policy page) (w_st w);
     let w = w\<lparr>w_st := st\<rparr>;
     if ret \<ge> EWF_SMITH_CTL_SUCCESS then do {
       let authed = (ret = EWF_SMITH_CTL_SUCCESS \<or> ret = EWF_SMITH_CTL_AUTH_OFF);
       let w = (if authed then web_set X ''User.authenticated'' (if ret = EWF_SMITH_CTL_SUCCESS then ''1'' else ''-1'') w else w);
       if authed \<and> nbu_string_matches (p_name page) URI_PAGE_LOGIN = NBU_STRING_EQUAL
       then Some (ewf_utils_redirect URI_PAGE_INDEX w)
       else do {
         (page, w) \<leftarrow> controller_run X C page_error request page w;
         controller_render X C M H dir request page w } }
     else do {
       let w = web_set X ''User.authenticated'' ''0'' w;
       (page, w) \<leftarrow> ewf_controller_error X page_error request page APP_ERROR_115 w;
       controller_render X C M H dir request page w } }"

subsection \<open>\<open>core/ewf_dispatcher.c\<close>\<close>

text \<open>
  The table of \<open>hsearch_r\<close>: entering a key that is present leaves its entry, and a table that is
  full refuses new keys.
\<close>

type_synonym 'h htable = "(string \<times> 'h ewf_page_t) list"

fun cut_query :: "string \<Rightarrow> string" where
  "cut_query [] = []"
| "cut_query (c # cs) = (if c = CHR ''?'' then [] else c # cut_query cs)"

definition ewf_dispatcher_getpage :: "'h htable \<Rightarrow> ewf_request_t \<Rightarrow> 'h ewf_page_t option exec" where
  "ewf_dispatcher_getpage htable_page request = (case r_uri request of
      None \<Rightarrow> Some None
    | Some uri \<Rightarrow> do {
        (_, pgname) \<leftarrow> bcopy 128 (if uri = [] \<or> uri = ''/'' then URI_PAGE_INDEX else uri);
        Some (map_of htable_page (cut_query pgname)) })"

definition ewf_dispatcher_registerpage :: "nat \<Rightarrow> 'h ewf_page_t \<Rightarrow> 'h htable \<Rightarrow> int \<times> 'h htable" where
  "ewf_dispatcher_registerpage capacity page htable_page =
     (if map_of htable_page (p_name page) \<noteq> None then (EWF_SUCCESS, htable_page)
      else if length htable_page < capacity then (EWF_SUCCESS, (p_name page, page) # htable_page)
      else (EWF_ERROR, htable_page))"

definition ewf_page_register :: "'h ewf_page_t \<Rightarrow> 'h htable \<Rightarrow> 'h htable" where
  "ewf_page_register page t = snd (ewf_dispatcher_registerpage MAX_PAGES_NUM page t)"

definition ewf_dispatcher_error ::
  "'h ewf_ext \<Rightarrow> 'h cgi_ext \<Rightarrow> 'h ewf_matrix_ops \<Rightarrow> 'h matrix_hooks \<Rightarrow> string \<Rightarrow> timeval \<Rightarrow> 'h ewf_page_t option
     \<Rightarrow> ewf_request_t \<Rightarrow> int \<Rightarrow> 'h handler" where
  "ewf_dispatcher_error X C M H dir tv page_error request errnum w = do {
     let w = web_set X ''Var.error.Value'' (dec_int errnum) w;
     let w = (if errnum = HTTP_ERROR_404
              then web_set X ''Var.error.uri.Value'' (case r_uri request of None \<Rightarrow> ''NULL'' | Some u \<Rightarrow> u) w else w);
     page \<leftarrow> page_error;
     ewf_controller X C M H dir tv page_error request page w }"

definition ewf_dispatcher_request ::
  "'h ewf_ext \<Rightarrow> 'h cgi_ext \<Rightarrow> 'h ewf_matrix_ops \<Rightarrow> 'h matrix_hooks \<Rightarrow> string \<Rightarrow> timeval \<Rightarrow> 'h ewf_page_t option
     \<Rightarrow> 'h htable \<Rightarrow> ewf_request_t \<Rightarrow> 'h handler" where
  "ewf_dispatcher_request X C M H dir tv page_error htable_page request w = do {
     (request, w) \<leftarrow> (case pre_dispatch H of None \<Rightarrow> Some (request, w) | Some f \<Rightarrow> f request w);
     page \<leftarrow> ewf_dispatcher_getpage htable_page request;
     case page of
       Some p \<Rightarrow> ewf_controller X C M H dir tv page_error request p w
     | None \<Rightarrow> ewf_dispatcher_error X C M H dir tv page_error request HTTP_ERROR_404 w }"

definition ewf_dispatcher_checkup :: "'h htable \<Rightarrow> (int \<times> 'h ewf_page_t option) exec" where
  "ewf_dispatcher_checkup htable_page = do {
     page_error \<leftarrow> ewf_dispatcher_getpage htable_page \<lparr>r_type = display_request, r_uri = Some URI_PAGE_ERROR\<rparr>;
     Some (case page_error of
         None \<Rightarrow> EWF_ERROR
       | Some p \<Rightarrow> if Option.is_none (p_display_handler p) \<or> Option.is_none (p_ajax_handler p) then EWF_ERROR else EWF_SUCCESS, page_error) }"

subsection \<open>\<open>core/ewf_core.c\<close>\<close>

text \<open>One turn of the accept loop, after the reload signal was handled.\<close>

definition core_serve ::
  "'h ewf_ext \<Rightarrow> 'h cgi_ext \<Rightarrow> 'h ewf_matrix_ops \<Rightarrow> 'h matrix_hooks \<Rightarrow> string \<Rightarrow> timeval \<Rightarrow> 'h ewf_page_t option
     \<Rightarrow> 'h htable \<Rightarrow> 'h handler" where
  "core_serve X C M H dir tv page_error htable_page w = do {
     let (request, w) = ewf_request_init X C w;
     let w = web_set X ''Config.TimeFooter'' ''0'' w;
     ewf_dispatcher_request X C M H dir tv page_error htable_page request w }"

subsection \<open>Pages\<close>

lemma cut_query_append: "CHR ''?'' \<notin> set s \<Longrightarrow> cut_query (s @ t) = s @ cut_query t"
  by (induction s) auto

definition page_name_ok :: "string \<Rightarrow> bool" where
  "page_name_ok n \<longleftrightarrow> length n < 128 \<and> NUL \<notin> set n \<and> CHR ''?'' \<notin> set n \<and> n \<noteq> [] \<and> n \<noteq> ''/''"

lemma getpage_name:
  assumes "page_name_ok n" and "NUL \<notin> set q" and "q = [] \<or> hd q = CHR ''?''"
  shows "ewf_dispatcher_getpage t \<lparr>r_type = ty, r_uri = Some (n @ q)\<rparr> = Some (map_of t n)"
proof -
  have ne: "n @ q \<noteq> []" "n @ q \<noteq> ''/''"
    using assms by (auto simp: page_name_ok_def append_eq_Cons_conv)
  have "bcopy 128 (n @ q) = Some (if length (n @ q) < 128 then NBU_SUCCESS else NBU_ERROR, take 127 (n @ q))"
    using assms by (subst bcopy_ok) (auto simp: page_name_ok_def)
  moreover have "cut_query (take 127 (n @ q)) = n"
  proof -
    have "take 127 (n @ q) = n @ take (127 - length n) q" using assms(1) by (simp add: page_name_ok_def)
    moreover have "cut_query (take k q) = []" for k using assms(3) by (cases q; cases k) auto
    ultimately show ?thesis using assms(1) by (simp add: cut_query_append page_name_ok_def)
  qed
  ultimately show ?thesis using ne by (simp add: ewf_dispatcher_getpage_def del: take_append append_eq_Cons_conv append_is_Nil_conv)
qed

text \<open>
  A page that was registered under a fresh name is what the dispatcher finds for this name,
  whatever query string follows it in the URI, and every other page is still found as before.
\<close>

theorem registered_page_found:
  assumes "map_of t (p_name page) = None" and "length t < MAX_PAGES_NUM" and "page_name_ok (p_name page)"
    and "NUL \<notin> set q" and "q = [] \<or> hd q = CHR ''?''"
  shows "ewf_dispatcher_getpage (ewf_page_register page t) \<lparr>r_type = ty, r_uri = Some (p_name page @ q)\<rparr> = Some (Some page) \<and>
    (\<forall>n. page_name_ok n \<and> n \<noteq> p_name page \<longrightarrow>
      ewf_dispatcher_getpage (ewf_page_register page t) \<lparr>r_type = ty, r_uri = Some (n @ q)\<rparr> =
      ewf_dispatcher_getpage t \<lparr>r_type = ty, r_uri = Some (n @ q)\<rparr>)"
proof -
  have t: "ewf_page_register page t = (p_name page, page) # t"
    using assms(1,2) by (simp add: ewf_page_register_def ewf_dispatcher_registerpage_def)
  show ?thesis using assms(3) by (simp add: t getpage_name [OF _ assms(4,5)])
qed

definition ex_page :: "ewf_page_access \<Rightarrow> (string \<times> string) list ewf_page_t" where
  "ex_page a = \<lparr>p_name = ''/network'', p_access_policy = a, p_display_handler = Some Some, p_form_handler = None, p_ajax_handler = None\<rparr>"

theorem registered_page_found_witness:
  "ewf_dispatcher_getpage (ewf_page_register (ex_page EWF_ACCESS_PRIVATE) []) \<lparr>r_type = form_request, r_uri = Some ''/network?a=1''\<rparr> =
    Some (Some (ex_page EWF_ACCESS_PRIVATE))"
  using registered_page_found [of "[]" "ex_page EWF_ACCESS_PRIVATE" "''?a=1''" form_request]
  by (simp add: ex_page_def page_name_ok_def)

subsection \<open>Refused requests\<close>


definition ex_web :: "nat \<Rightarrow> (string \<times> string) list \<Rightarrow> (string \<times> string) list web" where
  "ex_web k h = \<lparr>w_st = ex_state k h, force_raw_out = 0, force_content_type = CONTENT_TYPE_AUTO, w_display = [],
     w_buffer = replicate 256 NUL, w_calls = []\<rparr>"

definition ex_cgi :: "(string \<times> string) list cgi_ext" where
  "ex_cgi = \<lparr>cgi_init = [], cgi_parse = (\<lambda>h. h), hdf_read_file = (\<lambda>h n. h), hdf_get_int_value = (\<lambda>h n d. d)\<rparr>"

definition ex_hooks :: "(string \<times> string) list matrix_hooks" where
  "ex_hooks = \<lparr>pre_dispatch = None, pre_render = None\<rparr>"

lemma ex_web_simps [simp]: "w_st (ex_web k h) = ex_state k h" "force_raw_out (ex_web k h) = 0" "w_display (ex_web k h) = []"
  by (simp_all add: ex_web_def)


text \<open>
  A browser request for a private page without a live session is answered by a redirection to
  the log-in page that names the refused page, and by the template of the error page.
\<close>

theorem refused_page_redirects:
  assumes "table (e_sess (w_st w)) ps" and "clean_text (cookie_sid X (w_st w))" and "time_ok tv"
    and "config_is M ''web_auth'' 16 auth" and "auth \<noteq> ''off''"
    and "spec_check (cookie_sid X (w_st w)) tv ps = (False, qs)"
    and "p_access_policy page = EWF_ACCESS_PRIVATE" and ty: "r_type request \<noteq> ajax_request"
    and n: "NUL \<notin> set (p_name page)" "NUL \<notin> set (p_name err)" "NUL \<notin> set dir"
    and lang: "config_is M ''web_lang'' 8 lang" "NUL \<notin> set lang"
    and raw: "force_raw_out w = 0" "force_content_type w = CONTENT_TYPE_AUTO"
  shows "\<exists>w'. ewf_controller X C M \<lparr>pre_dispatch = None, pre_render = None\<rparr> dir tv (Some err) request page w = Some w' \<and>
    e_redirects (w_st w') = e_redirects (w_st w) @ [take 127 (''/login?page_ref='' @ p_name page)] \<and>
    w_display w' = w_display w @ [take 255 (dir @ ''/fcgiroot/tpl'' @ p_name err @ ''.html'')]"
proof -
  obtain ss where ac: "ewf_smith_access_control X M tv EWF_ACCESS_PRIVATE (w_st w) =
      Some (EWF_SMITH_CTL_NOT_ALLOWED, (w_st w)\<lparr>e_sess := ss\<rparr>)"
    using access_control_ok [OF assms(1-6), of EWF_ACCESS_PRIVATE] by auto
  obtain r b where l: "ewf_config_get M ''web_lang'' (uninit 8) 8 = Some (r, b)" "read_str b = Some lang"
    using config_isE [OF lang(1)] by auto
  show ?thesis
    using ac l n lang(2) raw assms(7) ty
    by (simp add: ewf_controller_def ewf_controller_error_def controller_render_def ewf_renderer_def bprintf_ok
        web_set_def upd_hdf_def ewf_utils_redirect_def ewf_hdf_read_file_def)
qed

lemma ex_config_lang [simp]: "config_is ex_matrix ''web_lang'' 8 ''en''"
proof -
  have r: "room ((uninit 8)[0 := NUL]) 8" by (simp add: room_def uninit_def)
  obtain c b' where "nbu_string_copy (Some ((uninit 8)[0 := NUL])) 8 (Some ''en'') = Some (c, Some b')"
    "read_str b' = Some ''en''"
    by (rule copy_into [OF r, of "''en''"]) simp_all
  then show ?thesis
    by (simp add: config_is_def ewf_config_get_def ex_matrix_def ex_conf_get_def set_byte_def conf_default_value_def
        nbu_string_compare_def uninit_def)
qed

theorem refused_page_redirects_witness:
  "\<exists>w'. ewf_controller ex_ext ex_cgi ex_matrix \<lparr>pre_dispatch = None, pre_render = None\<rparr> ''/www'' ex_now
      (Some ((ex_page EWF_ACCESS_PUBLIC)\<lparr>p_name := ''/error''\<rparr>)) \<lparr>r_type = display_request, r_uri = None\<rparr>
      (ex_page EWF_ACCESS_PRIVATE) (ex_web 9 [(''Cookie.sid'', ''zz'')]) = Some w' \<and>
    e_redirects (w_st w') = [''/login?page_ref=/network''] \<and> w_display w' = [''/www/fcgiroot/tpl/error.html'']"
proof -
  have "\<exists>w'. ewf_controller ex_ext ex_cgi ex_matrix \<lparr>pre_dispatch = None, pre_render = None\<rparr> ''/www'' ex_now
      (Some ((ex_page EWF_ACCESS_PUBLIC)\<lparr>p_name := ''/error''\<rparr>)) \<lparr>r_type = display_request, r_uri = None\<rparr>
      (ex_page EWF_ACCESS_PRIVATE) (ex_web 9 [(''Cookie.sid'', ''zz'')]) = Some w' \<and>
    e_redirects (w_st w') = e_redirects (w_st (ex_web 9 [(''Cookie.sid'', ''zz'')])) @
      [take 127 (''/login?page_ref='' @ p_name (ex_page EWF_ACCESS_PRIVATE))] \<and>
    w_display w' = w_display (ex_web 9 [(''Cookie.sid'', ''zz'')]) @
      [take 255 (''/www'' @ ''/fcgiroot/tpl'' @ p_name ((ex_page EWF_ACCESS_PUBLIC)\<lparr>p_name := ''/error''\<rparr>) @ ''.html'')]"
    by (rule refused_page_redirects [where ps = "[(2, ex_session)]" and auth = "''all''" and qs = "[(2, ex_session)]" and lang = "''en''"])
       (simp_all add: clean_text_def cookie_sid_def spec_check_def ex_page_def ex_web_def)
  then show ?thesis by (auto simp: ex_page_def ex_state_def)
qed

end
