(* ===== verification/Nbd_Core.thy ===== *)
theory Nbd_Core
  imports Nbu_String
begin

text \<open>
  The client side of the configuration daemon's protocol, \<open>efixo-libnbd/src/lib/core.c\<close>: the
  read and write loops on the socket, the layout of a query, the answer, and the
  reconnection after a broken pipe.

  The socket is the sequence of results that its system calls give: \<open>read\<close> returns a chunk
  of the byte stream, is interrupted, or fails, and an empty sequence is the end of the
  stream; \<open>write\<close> likewise.  Integers are 32 bits, most significant byte first, as on the
  MIPS boards of the firmware.  The query is built in an automatic array, whose first
  content is an argument of \<open>nbd_query_send\<close>.
\<close>

datatype read_result = Chunk string | Read_intr | Read_fail

datatype write_result = Wrote nat | Write_intr | Write_pipe | Write_fail

datatype connect_result = Connected | Connect_intr | Connect_fail

subsection \<open>Bytes of an integer\<close>

definition be32 :: "nat \<Rightarrow> string" where
  "be32 n = map char_of [n div 16777216, n div 65536, n div 256, n]"

definition val32 :: "string \<Rightarrow> nat" where
  "val32 bs = foldl (\<lambda>v c. 256 * v + of_char c) 0 bs"

definition s32_val :: "string \<Rightarrow> int" where
  "s32_val bs = sint (word_of_nat (val32 bs) :: u32)"

definition s32_bytes :: "int \<Rightarrow> string" where
  "s32_bytes i = be32 (unat (word_of_int i :: u32))"

text \<open>Bytes written over the start of an array.\<close>

definition overlay :: "string \<Rightarrow> string \<Rightarrow> string" where
  "overlay old new = new @ drop (length new) old"

subsection \<open>Reading\<close>

fun safe_read :: "nat \<Rightarrow> read_result list \<Rightarrow> int \<times> string \<times> read_result list" where
  "safe_read count [] = (0, [], [])"
| "safe_read count (Read_intr # rs) = safe_read count rs"
| "safe_read count (Read_fail # rs) = (- 1, [], rs)"
| "safe_read count (Chunk cs # rs) =
     (int (length (take count cs)), take count cs, if length cs \<le> count then rs else Chunk (drop count cs) # rs)"

lemma safe_read_length: "safe_read count rs = (cc, bs, rs') \<Longrightarrow> 0 < cc \<Longrightarrow> cc = int (length bs) \<and> length bs \<le> count"
  by (induction count rs rule: safe_read.induct) auto

function full_read :: "nat \<Rightarrow> read_result list \<Rightarrow> int \<times> string \<times> read_result list" where
  "full_read len rs = (if len = 0 then (0, [], rs)
     else let (cc, bs, rs) = safe_read len rs in
       if cc < 0 then (cc, [], rs)
       else if cc = 0 then (0, [], rs)
       else let (t, bs', rs) = full_read (len - nat cc) rs in
         (if t < 0 then t else cc + t, bs @ bs', rs))"
  by pat_completeness auto
termination
  by (relation "measure fst") auto

declare full_read.simps [simp del]

definition nbd_query_receive ::
  "buf option \<Rightarrow> u32 \<Rightarrow> int \<Rightarrow> read_result list \<Rightarrow> (int \<times> buf option \<times> int \<times> read_result list) exec" where
  "nbd_query_receive b len ret rs = (let (n, bs, rs) = full_read 4 rs in
     if n < 0 then Some (- 1, b, - 1, rs)
     else let ret = s32_val (overlay (s32_bytes ret) bs); (n, bs, rs) = full_read 4 rs in
       if n < 0 then Some (- 1, b, - 1, rs)
       else do {
         guard (length bs = 4);
         let count = val32 bs;
         if count > unat len
         then Some (- 1, b, - 1, if count < 512 then snd (snd (full_read count rs)) else rs)
         else if count = 0 then (case b of
             None \<Rightarrow> Some (0, None, ret, rs)
           | Some c \<Rightarrow> do { c \<leftarrow> set_byte c 0 NUL; Some (0, Some c, ret, rs) })
         else do {
           c \<leftarrow> b;
           guard (unat len \<le> length c);
           let c = overlay c (replicate (unat len) NUL);
           let (n, bs, rs) = full_read count rs;
           Some (if n < 0 then - 1 else int count, Some (overlay c bs), ret, rs) } })"

subsection \<open>Sending a query\<close>

text \<open>
  What one attempt to open the socket meets: the descriptor that \<open>socket\<close> returns, the results of
  \<open>connect\<close>, and what the daemon sends first.
\<close>

record nbd_attempt =
  at_socket :: int
  at_connect :: "connect_result list"
  at_answer :: "read_result list"

record nbd_link =
  link_fd :: int
  link_writes :: "write_result list"
  link_opens :: "nbd_attempt list"
  link_sent :: string

fun safe_write :: "string \<Rightarrow> write_result list \<Rightarrow> int \<times> bool \<times> string \<times> write_result list" where
  "safe_write bytes [] = (- 1, False, [], [])"
| "safe_write bytes (Write_intr # ws) = safe_write bytes ws"
| "safe_write bytes (Write_pipe # ws) = (- 1, True, [], ws)"
| "safe_write bytes (Write_fail # ws) = (- 1, False, [], ws)"
| "safe_write bytes (Wrote n # ws) = (int (min n (length bytes)), False, take n bytes, ws)"

text \<open>The write on the socket of the link, with whether it failed with \<open>EPIPE\<close>.\<close>

definition link_write :: "string \<Rightarrow> nbd_link \<Rightarrow> int \<times> bool \<times> nbd_link" where
  "link_write bytes l = (let (n, pipe, out, ws) = safe_write bytes (link_writes l) in
     (n, pipe, l\<lparr>link_writes := ws, link_sent := link_sent l @ out\<rparr>))"

fun safe_connect :: "connect_result list \<Rightarrow> int" where
  "safe_connect [] = - 1"
| "safe_connect (Connect_intr # cs) = safe_connect cs"
| "safe_connect (Connect_fail # cs) = - 1"
| "safe_connect (Connected # cs) = 0"

abbreviation (input) ACK :: char where "ACK \<equiv> CHR 0x06"

definition attempt_fd :: "nbd_attempt \<Rightarrow> int" where
  "attempt_fd a = (if at_socket a < 0 then - 1
     else if safe_connect (at_connect a) < 0 then - 1
     else let (n, answer, _) = safe_read 1 (at_answer a) in
       if n \<le> 0 then - 1 else if answer \<noteq> [ACK] then - 1 else at_socket a)"

text \<open>\<open>__nbd_open\<close> is the next attempt; a list that has run out is a socket that cannot be made.\<close>

definition nbd_open1 :: "nbd_link \<Rightarrow> int \<times> nbd_link" where
  "nbd_open1 l = (case link_opens l of [] \<Rightarrow> (- 1, l) | a # as \<Rightarrow> (attempt_fd a, l\<lparr>link_opens := as\<rparr>))"

definition nbd_close :: "nbd_link \<Rightarrow> nbd_link" where
  "nbd_close l = (if link_fd l > 0 then l\<lparr>link_fd := - 1\<rparr> else l)"

definition nbd_open :: "nbd_link \<Rightarrow> int \<times> nbd_link" where
  "nbd_open l = (if link_fd l > 0 then (link_fd l, l)
     else let (fd, l) = nbd_open1 l in (fd, l\<lparr>link_fd := fd\<rparr>))"

primrec reopen_loop :: "nat \<Rightarrow> nbd_link \<Rightarrow> nbd_link" where
  "reopen_loop 0 l = l"
| "reopen_loop (Suc k) l = (let (fd, l) = nbd_open1 l; l = l\<lparr>link_fd := fd\<rparr> in if fd > 0 then l else reopen_loop k l)"

abbreviation (input) QUERY_SIZE :: nat where "QUERY_SIZE \<equiv> 52"

text \<open>
  The loop over the arguments: \<open>argv\<close> are the offsets stored so far, \<open>e\<close> is the position of \<open>end\<close>
  in the array and \<open>len\<close> what is left of it, a \<open>size_t\<close> that wraps around.
\<close>

fun send_loop :: "string list \<Rightarrow> nat list \<Rightarrow> buf \<Rightarrow> nat \<Rightarrow> u32 \<Rightarrow> (nat list \<times> buf \<times> nat) exec" where
  "send_loop [] argv b e len = Some (argv, b, e)"
| "send_loop (a # as) argv b e len = do {
     (n, t) \<leftarrow> snprintf (drop e b) (unat len) a;
     guard (length argv < 12);
     send_loop as (argv @ [e - QUERY_SIZE]) (take e b @ t) (e + nat n + 1) (len - of_nat (nat n + 1)) }"

definition query_header :: "nat list \<Rightarrow> string" where
  "query_header argv = be32 (length argv) @ concat (map be32 (argv @ replicate (12 - length argv) 0))"

text \<open>The bytes of a query: header, arguments, and the gap byte that \<open>++end\<close> skips.\<close>

definition build_query :: "string list \<Rightarrow> buf \<Rightarrow> string exec" where
  "build_query args b0 = do {
     guard (length b0 = 512);
     b \<leftarrow> set_byte (overlay b0 (replicate QUERY_SIZE NUL)) (int QUERY_SIZE) NUL;
     (argv, b, e) \<leftarrow> send_loop args [] b QUERY_SIZE (512 - 52 - 1);
     b \<leftarrow> set_byte b (int e + 1) NUL;
     Some (overlay (take (e + 1) b) (query_header argv)) }"

definition nbd_query_send :: "string list \<Rightarrow> buf \<Rightarrow> nbd_link \<Rightarrow> (int \<times> nbd_link) exec" where
  "nbd_query_send args b0 l = do {
     q \<leftarrow> build_query args b0;
     let (n, pipe, l) = link_write (be32 (length q)) l;
     if n < 0 then
       (if pipe then
          let l = reopen_loop 60 (nbd_close l) in
          if link_fd l < 0 then Some (- 1, l)
          else let (n, _, l) = link_write (be32 (length q)) l in
            if n < 0 then Some (- 1, l) else (let (n, _, l) = link_write q l in Some (n, l))
        else Some (- 1, l))
     else (let (n, _, l) = link_write q l in Some (n, l)) }"

text \<open>\<open>nbd_query\<close>, with the answer of the daemon as the read results that follow the query.\<close>

definition nbd_query ::
  "buf option \<Rightarrow> u32 \<Rightarrow> string list \<Rightarrow> buf \<Rightarrow> read_result list \<Rightarrow> nbd_link \<Rightarrow> (int \<times> buf option \<times> read_result list \<times> nbd_link) exec" where
  "nbd_query out outlen args b0 rs l = do {
     (ret, l) \<leftarrow> nbd_query_send args b0 l;
     if ret < 0 then Some (ret, out, rs, nbd_close l)
     else do {
       (_, out, ret, rs) \<leftarrow> nbd_query_receive out outlen ret rs;
       Some (ret, out, rs, l) } }"

text \<open>
  The variant that allocates the buffer for the answer.  \<open>malloc\<close> gives a fresh block of the size, with
  whatever it holds, or nothing; \<open>size0\<close> is what the size variable held before.  The code and the
  size are read by one \<open>safe_read\<close> each.
\<close>

definition nbd_query_receive_new ::
  "(nat \<Rightarrow> string option) \<Rightarrow> string \<Rightarrow> int \<Rightarrow> read_result list \<Rightarrow> int \<times> string option \<times> string \<times> int \<times> read_result list" where
  "nbd_query_receive_new malloc size0 ret rs = (let (n, bs, rs) = safe_read 4 rs in
     if n < 0 then (- 1, None, size0, ret, rs)
     else let ret = s32_val (overlay (s32_bytes ret) bs); (n, bs, rs) = safe_read 4 rs in
       if n < 0 then (- 1, None, size0, ret, rs)
       else let size = overlay size0 bs in
         case malloc (val32 size) of
           None \<Rightarrow> (- 1, None, size, ret, rs)
         | Some block \<Rightarrow> (let (n, bs, rs) = full_read (val32 size) rs in
             (if n < 0 then - 1 else 0, Some (overlay block bs), size, ret, rs)))"

definition nbd_query_new ::
  "(nat \<Rightarrow> string option) \<Rightarrow> string \<Rightarrow> string list \<Rightarrow> buf \<Rightarrow> read_result list \<Rightarrow> nbd_link
     \<Rightarrow> (int \<times> string option \<times> string \<times> read_result list \<times> nbd_link) exec" where
  "nbd_query_new malloc size0 args b0 rs l = do {
     (ret, l) \<leftarrow> nbd_query_send args b0 l;
     if ret < 0 then Some (ret, None, size0, rs, nbd_close l)
     else let (_, out, size, ret, rs) = nbd_query_receive_new malloc size0 ret rs in Some (ret, out, size, rs, l) }"

subsection \<open>Integers survive the wire\<close>

lemma be32_length [simp]: "length (be32 n) = 4"
  by (simp add: be32_def)

lemma val32_be32 [simp]: "n < 2 ^ 32 \<Longrightarrow> val32 (be32 n) = n"
proof -
  assume "n < 2 ^ 32"
  then have "n div 16777216 mod 256 = n div 16777216" by simp
  moreover have "n div 65536 = n div 256 div 256" "n div 16777216 = n div 256 div 256 div 256"
    by (simp_all add: div_mult2_eq [symmetric])
  ultimately show ?thesis by (simp add: val32_def be32_def)
qed

lemma s32_val_bytes [simp]: "- 2147483648 \<le> i \<Longrightarrow> i < 2147483648 \<Longrightarrow> s32_val (s32_bytes i) = i"
proof -
  assume i: "- 2147483648 \<le> i" "i < 2147483648"
  have "unat (word_of_int i :: u32) < 2 ^ 32" by (rule unat_u32_less)
  then have "s32_val (s32_bytes i) = sint (word_of_int i :: u32)" by (simp add: s32_val_def s32_bytes_def)
  also have "\<dots> = signed_take_bit 31 i" by (simp add: signed_of_int)
  also have "\<dots> = i" using i by (intro signed_take_bit_int_eq_self) simp_all
  finally show ?thesis .
qed

lemma s32_bytes_length [simp]: "length (s32_bytes i) = 4"
  by (simp add: s32_bytes_def)

lemma overlay_all [simp]: "length old = length new \<Longrightarrow> overlay old new = new"
  by (simp add: overlay_def)

lemma overlay_length: "length new \<le> length old \<Longrightarrow> length (overlay old new) = length old"
  by (simp add: overlay_def)

subsection \<open>The read loop sees one stream\<close>

fun stream :: "read_result list \<Rightarrow> string" where
  "stream [] = []"
| "stream (Chunk cs # rs) = cs @ stream rs"
| "stream (Read_intr # rs) = stream rs"
| "stream (Read_fail # rs) = stream rs"

definition clean :: "read_result list \<Rightarrow> bool" where
  "clean rs \<longleftrightarrow> Read_fail \<notin> set rs \<and> Chunk [] \<notin> set rs"

lemma safe_read_end: "clean rs \<Longrightarrow> stream rs = [] \<Longrightarrow> safe_read n rs = (0, [], [])"
  by (induction rs rule: stream.induct) (auto simp: clean_def)

lemma safe_read_some:
  assumes "clean rs" and "stream rs \<noteq> []" and "0 < n"
  obtains k rs' where "safe_read n rs = (int k, take k (stream rs), rs')" and "0 < k" and "k \<le> n"
    and "k \<le> length (stream rs)" and "clean rs'" and "stream rs' = drop k (stream rs)"
  using assms
proof (induction rs arbitrary: thesis rule: stream.induct)
  case (2 cs rs)
  let ?k = "min n (length cs)"
  have "cs \<noteq> []" using "2.prems"(2) by (auto simp: clean_def)
  then show ?case
    using "2.prems" by (intro "2.prems"(1) [of ?k "if length cs \<le> n then rs else Chunk (drop n cs) # rs"])
      (auto simp: clean_def min_def take_Cons')
qed (auto simp: clean_def)

lemma full_read_ok:
  assumes "clean rs"
  shows "\<exists>rs'. full_read len rs = (int (min len (length (stream rs))), take len (stream rs), rs') \<and> clean rs' \<and>
    stream rs' = drop len (stream rs)"
  using assms
proof (induction len arbitrary: rs rule: less_induct)
  case (less len)
  show ?case
  proof (cases "len = 0 \<or> stream rs = []")
    case True
    then show ?thesis
      using less.prems safe_read_end [OF less.prems, of len] by (auto simp: full_read.simps [of len] clean_def)
  next
    case False
    then obtain k rs1 where k: "safe_read len rs = (int k, take k (stream rs), rs1)" "0 < k" "k \<le> len"
      "k \<le> length (stream rs)" "clean rs1" "stream rs1 = drop k (stream rs)"
      using safe_read_some [OF less.prems, of len] by (metis not_gr_zero)
    obtain rs2 where rs2: "full_read (len - k) rs1 = (int (min (len - k) (length (stream rs) - k)), take (len - k) (drop k (stream rs)), rs2)"
      "clean rs2" "stream rs2 = drop (len - k) (drop k (stream rs))"
      using less.IH [of "len - k" rs1] k(2,3,5,6) by auto
    have "take k (stream rs) @ take (len - k) (drop k (stream rs)) = take len (stream rs)"
      using k(3) by (metis le_add_diff_inverse take_add)
    moreover have "int k + int (min (len - k) (length (stream rs) - k)) = int (min len (length (stream rs)))"
      using k(3,4) by (auto simp: min_def)
    ultimately show ?thesis
      using False k rs2 by (auto simp: full_read.simps [of len])
  qed
qed

text \<open>
  The read loop assembles exactly the bytes that were asked for, however the socket cuts
  the stream into chunks and however often the calls are interrupted; what follows stays in the
  stream, and a stream that ends early gives what there was.
\<close>

theorem full_read_any_chunking:
  assumes "clean rs"
  shows "\<exists>rs'. full_read len rs = (int (min len (length (stream rs))), take len (stream rs), rs') \<and>
    stream rs' = drop len (stream rs)"
  using full_read_ok [OF assms, of len] by blast

theorem full_read_any_chunking_witness:
  "\<exists>rs'. full_read 4 [Chunk ''ab'', Read_intr, Chunk ''c'', Chunk ''def''] = (4, ''abcd'', rs') \<and> stream rs' = ''ef''"
  using full_read_any_chunking [of "[Chunk ''ab'', Read_intr, Chunk ''c'', Chunk ''def'']" 4] by (simp add: clean_def)

subsection \<open>The answer\<close>

text \<open>What \<open>nbd_query\<close> hands to its caller for an answer with a code and data.\<close>

definition answer_spec :: "buf option \<Rightarrow> u32 \<Rightarrow> int \<Rightarrow> string \<Rightarrow> int \<times> buf option" where
  "answer_spec out outlen ret data =
     (if length data > unat outlen then (- 1, out)
      else if data = [] then (ret, map_option (\<lambda>b. b[0 := NUL]) out)
      else (ret, map_option (\<lambda>b. data @ replicate (unat outlen - length data) NUL @ drop (unat outlen) b) out))"

definition out_ok :: "buf option \<Rightarrow> u32 \<Rightarrow> bool" where
  "out_ok out outlen \<longleftrightarrow> (case out of None \<Rightarrow> outlen = 0 | Some b \<Rightarrow> b \<noteq> [] \<and> unat outlen \<le> length b)"

lemma receive_ok:
  assumes rs: "clean rs" "stream rs = s32_bytes ret @ be32 (length data) @ data @ rest"
    and ret: "- 2147483648 \<le> ret" "ret < 2147483648" and len: "length data < 2 ^ 32" and out: "out_ok out outlen"
  shows "\<exists>n rs'. nbd_query_receive out outlen ret0 rs =
    (case answer_spec out outlen ret data of (r, b) \<Rightarrow> Some (n, b, r, rs')) \<and>
    (length data \<le> unat outlen \<longrightarrow> stream rs' = rest)"
proof -
  obtain rs1 where r1: "full_read 4 rs = (4, s32_bytes ret, rs1)" "clean rs1" "stream rs1 = be32 (length data) @ data @ rest"
    using full_read_ok [OF rs(1), of 4] rs(2) by auto
  obtain rs2 where r2: "full_read 4 rs1 = (4, be32 (length data), rs2)" "clean rs2" "stream rs2 = data @ rest"
    using full_read_ok [OF r1(2), of 4] r1(3) by auto
  obtain rs3 where r3: "full_read (length data) rs2 = (int (length data), data, rs3)" "stream rs3 = rest"
    using full_read_ok [OF r2(2), of "length data"] r2(3) by auto
  have v: "val32 (be32 (length data)) = length data" using len by simp
  show ?thesis
  proof (cases "length data > unat outlen")
    case True
    then show ?thesis using r1(1) r2(1) v by (auto simp: nbd_query_receive_def answer_spec_def Let_def)
  next
    case False
    show ?thesis
    proof (cases out)
      case None
      then have "data = []" using False out by (simp add: out_ok_def)
      then show ?thesis
        using r1(1) r2(1,3) v None ret by (auto simp: nbd_query_receive_def answer_spec_def)
    next
      case (Some b)
      then show ?thesis
        using False r1(1) r2(1,3) r3 v ret out
        by (auto simp: nbd_query_receive_def answer_spec_def out_ok_def set_byte_def overlay_def Let_def)
    qed
  qed
qed

text \<open>
  C15: A query that was sent returns the daemon's code and puts its data, padded with NUL bytes, into the
  caller's buffer, for every way the answer arrives in chunks.  An answer that does not
  fit is an error and leaves the buffer alone.  What follows the answer stays in the stream.
\<close>

theorem query_answer:
  assumes "nbd_query_send args b0 l = Some (n, l')" and "0 \<le> n"
    and "clean rs" and "stream rs = s32_bytes ret @ be32 (length data) @ data @ rest"
    and "- 2147483648 \<le> ret" and "ret < 2147483648" and "length data < 2 ^ 32" and "out_ok out outlen"
  shows "\<exists>rs'. nbd_query out outlen args b0 rs l =
    Some (fst (answer_spec out outlen ret data), snd (answer_spec out outlen ret data), rs', l') \<and>
    (length data \<le> unat outlen \<longrightarrow> stream rs' = rest)"
  using receive_ok [OF assms(3-8), of n] assms(1,2)
  by (cases "answer_spec out outlen ret data") (auto simp: nbd_query_def)

subsection \<open>The query\<close>

definition query_room :: "string list \<Rightarrow> nat" where
  "query_room args = sum_list (map (\<lambda>a. length a + 1) args)"

definition query_fits :: "string list \<Rightarrow> bool" where
  "query_fits args \<longleftrightarrow> length args \<le> 12 \<and> query_room args \<le> 458"

fun offsets :: "nat \<Rightarrow> string list \<Rightarrow> nat list" where
  "offsets e [] = []"
| "offsets e (a # as) = e # offsets (e + length a + 1) as"

definition query_body :: "string list \<Rightarrow> string" where
  "query_body args = concat (map (\<lambda>a. a @ [NUL]) args)"

lemma query_body_length [simp]: "length (query_body args) = query_room args"
  by (induction args) (simp_all add: query_body_def query_room_def)

lemma offsets_length [simp]: "length (offsets e as) = length as"
  by (induction as arbitrary: e) simp_all

lemma send_loop_ConsE:
  assumes "send_loop (a # as) argv b e len = Some r"
  obtains t where "snprintf (drop e b) (unat len) a = Some (int (length a), t)" and "length argv < 12"
    and "send_loop as (argv @ [e - 52]) (take e b @ t) (e + length a + 1) (len - of_nat (length a + 1)) = Some r"
proof -
  obtain n t where "snprintf (drop e b) (unat len) a = Some (n, t)" "length argv < 12"
    "send_loop as (argv @ [e - 52]) (take e b @ t) (e + nat n + 1) (len - of_nat (nat n + 1)) = Some r"
    using assms by (auto simp: bind_Some_iff guard_def split: if_splits)
  moreover from this(1) have "n = int (length a)" by (auto simp: snprintf_def bind_Some_iff split: if_splits)
  ultimately show ?thesis using that [of t] by simp
qed

lemma send_loop_end: "send_loop args argv b e len = Some (argv', b', e') \<Longrightarrow> e' = e + query_room args \<and> length b' = length b"
proof (induction args arbitrary: argv b e len)
  case (Cons a as)
  obtain t where t: "snprintf (drop e b) (unat len) a = Some (int (length a), t)"
    and rest: "send_loop as (argv @ [e - 52]) (take e b @ t) (e + length a + 1) (len - of_nat (length a + 1)) = Some (argv', b', e')"
    by (rule send_loop_ConsE [OF Cons.prems])
  have "length (take e b @ t) = length b"
    using t by (auto simp: snprintf_def bind_Some_iff split: if_splits dest!: blit_length)
  with Cons.IH [OF rest] show ?case by (simp add: query_room_def)
qed (simp add: query_room_def)

lemma send_loop_ok:
  assumes "e + query_room args \<le> length b" and "unat len = k" and "query_room args \<le> k" and "length argv + length args \<le> 12"
  shows "send_loop args argv b e len =
    Some (argv @ map (\<lambda>p. p - 52) (offsets e args), take e b @ query_body args @ drop (e + query_room args) b, e + query_room args)"
  using assms
proof (induction args arbitrary: argv b e len k)
  case (Cons a as)
  let ?n = "length a + 1" and ?b = "take e b @ (a @ [NUL]) @ drop (e + length a + 1) b"
  have room: "query_room (a # as) = ?n + query_room as" by (simp add: query_room_def)
  have n32: "?n < 2 ^ 32" using Cons.prems(2,3) room unat_u32_less [of len] by simp
  have u: "unat (of_nat ?n :: u32) = ?n" using n32 by (rule unat_of_nat_u32)
  moreover have "of_nat ?n \<le> len" unfolding word_le_nat_alt u using Cons.prems(2,3) room by simp
  ultimately have len': "unat (len - of_nat ?n) = k - ?n" using Cons.prems(2) by (simp add: unat_sub)
  have sn: "snprintf (drop e b) (unat len) a = Some (int (length a), a @ [NUL] @ drop (e + length a + 1) b)"
    using Cons.prems(1-3) room by (simp add: snprintf_def blit_def add.commute)
  have "take (e + ?n) ?b = take e b @ a @ [NUL]" and "drop (e + ?n + query_room as) ?b = drop (e + ?n + query_room as) b"
    using Cons.prems(1) room by (simp_all add: ac_simps)
  moreover have "send_loop as (argv @ [e - 52]) ?b (e + ?n) (len - of_nat ?n) =
      Some ((argv @ [e - 52]) @ map (\<lambda>p. p - 52) (offsets (e + ?n) as),
        take (e + ?n) ?b @ query_body as @ drop (e + ?n + query_room as) ?b, e + ?n + query_room as)"
    using Cons.prems room len' by (intro Cons.IH [of _ _ _ "k - ?n"]) simp_all
  ultimately show ?case
    using sn Cons.prems(4) room by (simp add: guard_def query_body_def add.commute add.left_commute)
qed (simp add: query_room_def query_body_def)

text \<open>How a receiver reads a query: the count, the offsets, and the string at each of them.\<close>

definition decode_query :: "string \<Rightarrow> string list" where
  "decode_query q = map (\<lambda>i. c_str (drop (QUERY_SIZE + val32 (take 4 (drop (4 + 4 * i) q))) q)) [0..<val32 (take 4 q)]"

lemma header_word: "i < length xs \<Longrightarrow> take 4 (drop (4 * i) (concat (map be32 xs) @ t)) = be32 (xs ! i)"
proof (induction xs arbitrary: i)
  case (Cons x xs)
  show ?case
  proof (cases i)
    case (Suc j)
    then have "drop (4 * i) (concat (map be32 (x # xs)) @ t) = drop (4 * j) (concat (map be32 xs) @ t)" by simp
    then show ?thesis using Cons Suc by simp
  qed simp
qed simp

lemma concat_be32_length: "length (concat (map be32 xs)) = 4 * length xs"
  by (induction xs) simp_all

lemma query_header_length: "length argv \<le> 12 \<Longrightarrow> length (query_header argv) = QUERY_SIZE"
  unfolding query_header_def by (simp only: length_append concat_be32_length be32_length) simp

lemma offsets_shift: "offsets (e + d) as = map (\<lambda>p. p + d) (offsets e as)"
proof (induction as arbitrary: e)
  case (Cons a as)
  from Cons.IH [of "e + length a + 1"] show ?case by (simp add: ac_simps)
qed simp

lemma offsets_minus: "map (\<lambda>p. p - e) (offsets e as) = offsets 0 as"
  using offsets_shift [of 0 e as] by (simp add: comp_def)

lemma offsets_bound: "p \<in> set (offsets e as) \<Longrightarrow> p < e + query_room as"
  by (induction as arbitrary: e) (fastforce simp: query_room_def)+

lemma query_string:
  assumes "i < length args" and "\<forall>a \<in> set args. NUL \<notin> set a"
  shows "c_str (drop (offsets 0 args ! i) (query_body args @ t)) = args ! i"
  using assms
proof (induction args arbitrary: i)
  case (Cons a as)
  show ?case
  proof (cases i)
    case 0
    then show ?thesis using Cons.prems(2) by (simp add: query_body_def)
  next
    case (Suc j)
    then have "offsets 0 (a # as) ! i = offsets 0 as ! j + (length a + 1)"
      using offsets_shift [of 0 "length a + 1" as] Cons.prems(1) by simp
    then have "drop (offsets 0 (a # as) ! i) (query_body (a # as) @ t) = drop (offsets 0 as ! j) (query_body as @ t)"
      by (simp add: query_body_def add.commute [of _ "Suc (length a)"] drop_drop [symmetric] del: drop_drop)
    then show ?thesis using Cons Suc by simp
  qed
qed simp

lemma build_query_ok:
  assumes f: "query_fits args" and b0: "length b0 = 512"
  obtains g where "build_query args b0 = Some (query_header (offsets 0 args) @ query_body args @ [g])"
proof -
  let ?b = "(overlay b0 (replicate 52 NUL))[52 := NUL]" and ?e = "52 + query_room args"
  have lb: "length ?b = 512" using b0 by (simp add: overlay_length)
  have e: "?e \<le> 510" "length args \<le> 12" using f by (simp_all add: query_fits_def)
  have "unat (459 :: u32) = 459" by simp
  then have loop: "send_loop args [] ?b 52 459 = Some (offsets 0 args, take 52 ?b @ query_body args @ drop ?e ?b, ?e)"
    using send_loop_ok [of 52 args ?b 459 459 "[]"] e lb f by (simp add: query_fits_def offsets_minus)
  let ?b2 = "take 52 ?b @ query_body args @ drop ?e ?b"
  have "take (?e + 1) (?b2[?e + 1 := NUL]) = take 52 ?b @ query_body args @ [?b ! ?e]"
    using lb e by (simp add: take_Suc_conv_app_nth)
  then have "overlay (take (?e + 1) (?b2[?e + 1 := NUL])) (query_header (offsets 0 args)) =
      query_header (offsets 0 args) @ query_body args @ [?b ! ?e]"
    using lb e query_header_length [of "offsets 0 args"] by (simp add: overlay_def)
  moreover have "set_byte (overlay b0 (replicate 52 NUL)) 52 NUL = Some ?b"
    using b0 by (simp add: set_byte_def overlay_length)
  moreover have "set_byte ?b2 (int ?e + 1) NUL = Some (?b2[?e + 1 := NUL])"
    using lb e by (simp add: set_byte_def nat_add_distrib)
  ultimately have "build_query args b0 = Some (query_header (offsets 0 args) @ query_body args @ [?b ! ?e])"
    using b0 loop by (simp add: build_query_def guard_def)
  then show ?thesis by (rule that)
qed

lemma decode_ok:
  assumes f: "query_fits args" and n: "\<forall>a \<in> set args. NUL \<notin> set a"
  shows "decode_query (query_header (offsets 0 args) @ query_body args @ [g]) = args" (is "decode_query ?q = _")
proof -
  have len: "length args \<le> 12" "query_room args \<le> 458" using f by (simp_all add: query_fits_def)
  have hd: "length (query_header (offsets 0 args)) = 52" using len(1) by (simp add: query_header_length)
  have c: "val32 (take 4 ?q) = length args" using len(1) by (simp add: query_header_def)
  have o: "val32 (take 4 (drop (4 + 4 * i) ?q)) = offsets 0 args ! i" if i: "i < length args" for i
  proof -
    let ?xs = "offsets 0 args @ replicate (12 - length args) 0"
    have "drop (4 + 4 * i) ?q = drop (4 * i) (concat (map be32 ?xs) @ query_body args @ [g])"
      by (simp add: query_header_def)
    moreover have "take 4 (drop (4 * i) (concat (map be32 ?xs) @ query_body args @ [g])) = be32 (?xs ! i)"
      using i by (intro header_word) simp
    moreover have "?xs ! i = offsets 0 args ! i" using i by (simp add: nth_append)
    moreover have "offsets 0 args ! i < 2 ^ 32" using offsets_bound [of "offsets 0 args ! i" 0 args] i len(2) by simp
    ultimately show ?thesis by simp
  qed
  have "c_str (drop (52 + offsets 0 args ! i) ?q) = args ! i" if "i < length args" for i
    using query_string [OF that n, of "[g]"] hd by (simp add: drop_drop [symmetric] del: drop_drop)
  then have "c_str (drop (52 + val32 (take 4 (drop (4 + 4 * i) ?q))) ?q) = args ! i" if "i < length args" for i
    unfolding o [OF that] using that .
  then show ?thesis
    unfolding decode_query_def c by (intro nth_equalityI) (simp_all only: length_map length_upt nth_map nth_upt minus_nat.diff_0 add_0)
qed

text \<open>
  C16: A query of at most twelve arguments that fit the array is laid out so that a receiver
  which follows its offsets reads back the arguments, in order.
\<close>

theorem query_round_trip:
  assumes "query_fits args" and "length b0 = 512" and "\<forall>a \<in> set args. NUL \<notin> set a"
  shows "\<exists>q. build_query args b0 = Some q \<and> decode_query q = args"
  using build_query_ok [OF assms(1,2)] decode_ok [OF assms(1,3)] by metis

theorem query_round_trip_witness:
  "\<exists>q. build_query [''nvram'', ''set'', ''web_lang'', ''en''] (replicate 512 NUL) = Some q \<and>
     decode_query q = [''nvram'', ''set'', ''web_lang'', ''en'']"
  using query_round_trip [of "[''nvram'', ''set'', ''web_lang'', ''en'']" "replicate 512 NUL"]
  by (simp add: query_fits_def query_room_def)

lemma send_loop_argv: "send_loop args argv b e len = Some (argv', b', e') \<Longrightarrow> length argv' = length argv + length args \<and> (args = [] \<or> length argv' \<le> 12)"
proof (induction args arbitrary: argv b e len)
  case (Cons a as)
  obtain t where "length argv < 12"
    and "send_loop as (argv @ [e - 52]) (take e b @ t) (e + length a + 1) (len - of_nat (length a + 1)) = Some (argv', b', e')"
    by (rule send_loop_ConsE [OF Cons.prems])
  with Cons.IH [OF this(2)] show ?case by (cases as) auto
qed simp

lemma build_query_defined:
  assumes "args \<noteq> []"
  shows "build_query args b0 \<noteq> None \<longleftrightarrow> query_fits args \<and> length b0 = 512"
proof
  assume "query_fits args \<and> length b0 = 512"
  then show "build_query args b0 \<noteq> None" using build_query_ok [of args b0] by auto
next
  assume "build_query args b0 \<noteq> None"
  then obtain b1 argv b2 e b3 where b0: "length b0 = 512" and b1: "set_byte (overlay b0 (replicate 52 NUL)) 52 NUL = Some b1"
    and loop: "send_loop args [] b1 52 459 = Some (argv, b2, e)" and b3: "set_byte b2 (int e + 1) NUL = Some b3"
    by (auto simp: build_query_def guard_def bind_Some_iff split: if_splits)
  have "length b2 = 512"
    using b0 b1 send_loop_end [OF loop] by (auto simp: set_byte_def overlay_length split: if_splits)
  then show "query_fits args \<and> length b0 = 512"
    using b3 b0 assms send_loop_end [OF loop] send_loop_argv [OF loop]
    by (auto simp: query_fits_def set_byte_def split: if_splits)
qed

text \<open>
  C31: Arguments that do not fit are written past the end of the array: \<open>nbd_query_send\<close> has no
  defined outcome for more than twelve arguments or for more than 458 bytes of them.
\<close>

theorem query_overflow:
  assumes "args \<noteq> []"
  shows "build_query args b0 \<noteq> None \<longleftrightarrow> query_fits args \<and> length b0 = 512"
  by (rule build_query_defined [OF assms])

theorem query_overflow_witness:
  "build_query [''nvram'', ''set'', ''web_lang'', replicate 500 (CHR ''a'')] (replicate 512 NUL) = None"
  using query_overflow [of "[''nvram'', ''set'', ''web_lang'', replicate 500 (CHR ''a'')]" "replicate 512 NUL"]
  by (simp add: query_fits_def query_room_def)

definition ex_link :: nbd_link where
  "ex_link = \<lparr>link_fd = 3, link_writes = [Wrote 4, Wrote 512], link_opens = [], link_sent = []\<rparr>"

theorem query_answer_witness:
  "\<exists>rs' l'. nbd_query (Some (replicate 8 NUL)) 8 [''status'', ''get'', ''wan''] (replicate 512 NUL)
      [Chunk (s32_bytes 0), Read_intr, Chunk (be32 2 @ ''u''), Chunk ''p''] ex_link =
    Some (0, Some (''up'' @ replicate 6 NUL), rs', l') \<and> stream rs' = []"
proof -
  have f: "query_fits [''status'', ''get'', ''wan'']" by (simp add: query_fits_def query_room_def)
  obtain q where q: "build_query [''status'', ''get'', ''wan''] (replicate 512 NUL) = Some q"
    by (rule build_query_ok [OF f, of "replicate 512 NUL"]) simp_all
  obtain n l' where s: "nbd_query_send [''status'', ''get'', ''wan''] (replicate 512 NUL) ex_link = Some (n, l')" "0 \<le> n"
    by (simp add: nbd_query_send_def q link_write_def ex_link_def)
  let ?rs = "[Chunk (s32_bytes 0), Read_intr, Chunk (be32 2 @ ''u''), Chunk ''p'']"
  have "clean ?rs" by (auto simp: clean_def s32_bytes_def be32_def)
  moreover have "stream ?rs = s32_bytes 0 @ be32 (length ''up'') @ ''up'' @ []" by (simp add: numeral_2_eq_2)
  ultimately have "\<exists>rs'. nbd_query (Some (replicate 8 NUL)) 8 [''status'', ''get'', ''wan''] (replicate 512 NUL) ?rs ex_link =
      Some (fst (answer_spec (Some (replicate 8 NUL)) 8 0 ''up''), snd (answer_spec (Some (replicate 8 NUL)) 8 0 ''up''), rs', l') \<and>
      (length ''up'' \<le> unat (8 :: u32) \<longrightarrow> stream rs' = [])"
    by (rule query_answer [OF s]) (simp_all add: out_ok_def)
  then show ?thesis by (auto simp: answer_spec_def)
qed

subsection \<open>Answers of any size\<close>

lemma query_new_ok:
  assumes "nbd_query_send args b0 l = Some (n, l')" and "0 \<le> n"
    and "clean rs" and "stream rs = data @ rest"
    and "- 2147483648 \<le> ret" and "ret < 2147483648" and "length data < 2 ^ 32" and "length size0 = 4"
    and "malloc (length data) = None \<or> (\<exists>block. malloc (length data) = Some block \<and> length block = length data)"
  shows "\<exists>rs'. nbd_query_new malloc size0 args b0 (Chunk (s32_bytes ret) # Chunk (be32 (length data)) # rs) l =
    Some (ret, if malloc (length data) = None then None else Some data, be32 (length data), rs', l') \<and>
    (malloc (length data) \<noteq> None \<longrightarrow> stream rs' = rest)"
proof -
  obtain rs' where r: "full_read (length data) rs = (int (length data), data, rs')" "stream rs' = rest"
    using full_read_ok [OF assms(3), of "length data"] assms(4) by auto
  show ?thesis
    using assms(1,2,5-9) r
    by (cases "malloc (length data)") (auto simp: nbd_query_new_def nbd_query_receive_new_def Let_def overlay_def)
qed

text \<open>
  When the code and the size of the answer arrive in one piece each, the allocating variant
  returns the code and a block with exactly the data, however the data are cut; without memory
  for the block it returns the code and no data.
\<close>

theorem query_new_answer:
  assumes "nbd_query_send args b0 l = Some (n, l')" and "0 \<le> n"
    and "clean rs" and "stream rs = data @ rest"
    and "- 2147483648 \<le> ret" and "ret < 2147483648" and "length data < 2 ^ 32" and "length size0 = 4"
    and "malloc (length data) = None \<or> (\<exists>block. malloc (length data) = Some block \<and> length block = length data)"
  shows "\<exists>rs'. nbd_query_new malloc size0 args b0 (Chunk (s32_bytes ret) # Chunk (be32 (length data)) # rs) l =
    Some (ret, if malloc (length data) = None then None else Some data, be32 (length data), rs', l') \<and>
    (malloc (length data) \<noteq> None \<longrightarrow> stream rs' = rest)"
  using assms by (rule query_new_ok)

theorem query_new_answer_witness:
  "\<exists>rs' l'. nbd_query_new (\<lambda>n. Some (replicate n (CHR ''x''))) (replicate 4 NUL) [''nvram'', ''xml'', ''lan''] (replicate 512 NUL)
      (Chunk (s32_bytes 0) # Chunk (be32 (length ''<a/>'')) # [Chunk ''<a'', Read_intr, Chunk ''/>'']) ex_link =
    Some (0, Some ''<a/>'', be32 (length ''<a/>''), rs', l') \<and> stream rs' = []"
proof -
  have f: "query_fits [''nvram'', ''xml'', ''lan'']" by (simp add: query_fits_def query_room_def)
  obtain q where q: "build_query [''nvram'', ''xml'', ''lan''] (replicate 512 NUL) = Some q"
    by (rule build_query_ok [OF f, of "replicate 512 NUL"]) simp_all
  obtain n l' where s: "nbd_query_send [''nvram'', ''xml'', ''lan''] (replicate 512 NUL) ex_link = Some (n, l')" "0 \<le> n"
    by (simp add: nbd_query_send_def q link_write_def ex_link_def)
  have "clean [Chunk ''<a'', Read_intr, Chunk ''/>'']" by (simp add: clean_def)
  then show ?thesis
    using query_new_answer [OF s, of "[Chunk ''<a'', Read_intr, Chunk ''/>'']" "''<a/>''" "[]" 0 "replicate 4 NUL"
        "\<lambda>n. Some (replicate n (CHR ''x''))"]
    by auto
qed

text \<open>
  C34: The allocating variant depends on how the socket cuts the stream: an answer whose code
  arrives in two pieces is misread, the size being taken from the second half of the code, whereas
  \<open>nbd_query\<close> returns the same code and data for every cut.
\<close>

theorem query_new_split_code:
  assumes "length c1 = 2" and "length c2 = 2" and "length size0 = 4" and "malloc (val32 (c2 @ drop 2 size0)) = Some block"
  shows "\<exists>n out rs'. nbd_query_receive_new malloc size0 ret0 (Chunk c1 # Chunk c2 # rs) =
    (n, Some out, c2 @ drop 2 size0, s32_val (c1 @ drop 2 (s32_bytes ret0)), rs')"
  using assms
  by (cases "full_read (val32 (c2 @ drop 2 size0)) rs") (auto simp: nbd_query_receive_new_def overlay_def)

theorem query_new_split_code_witness:
  "\<exists>n out rs'. nbd_query_receive_new (\<lambda>n. Some (replicate n NUL)) ''abcd'' 104
      (Chunk [NUL, NUL] # Chunk [NUL, NUL] # [Chunk (be32 2 @ ''up'')]) =
    (n, Some out, [NUL, NUL, CHR ''c'', CHR ''d''], s32_val ([NUL, NUL] @ drop 2 (s32_bytes 104)), rs')"
proof -
  have "\<exists>n out rs'. nbd_query_receive_new (\<lambda>n. Some (replicate n NUL)) ''abcd'' 104
      (Chunk [NUL, NUL] # Chunk [NUL, NUL] # [Chunk (be32 2 @ ''up'')]) =
    (n, Some out, [NUL, NUL] @ drop 2 ''abcd'', s32_val ([NUL, NUL] @ drop 2 (s32_bytes 104)), rs')"
    by (rule query_new_split_code) simp_all
  then show ?thesis by simp
qed

end
