(* ===== verification/Nbd_Client.thy ===== *)
theory Nbd_Client
  imports Nbd_Core
begin

text \<open>
  The calls that the programs make to the nbd daemon, one file of \<open>efixo-libnbd/src/lib\<close> per
  section.  Each is one \<open>nbd_query\<close> with a fixed argument vector.

  The daemon is not part of the repository: it is a function from the calls of \<open>nbd_set\<close> so
  far and the arguments of a query to the code and the data of its answer.  \<open>nbd_ask\<close> is
  what \<open>nbd_query\<close> returns over such a daemon (\<open>nbd_ask_query\<close> below); arguments that
  do not fit the query array are a fault.
\<close>

type_synonym calls = "string list list"
type_synonym nbd_daemon = "calls \<Rightarrow> string list \<Rightarrow> int \<times> string"

definition nbd_ask :: "nbd_daemon \<Rightarrow> calls \<Rightarrow> string list \<Rightarrow> buf option \<Rightarrow> u32 \<Rightarrow> (int \<times> buf option) exec" where
  "nbd_ask D h args out outlen = do {
     guard (query_fits args \<and> out_ok out outlen);
     let (ret, data) = D h args;
     Some (answer_spec out outlen ret data) }"

definition nbd_set :: "nbd_daemon \<Rightarrow> string list \<Rightarrow> calls \<Rightarrow> (int \<times> calls) exec" where
  "nbd_set D args h = do {
     (ret, _) \<leftarrow> nbd_ask D h args None 0;
     Some (ret, h @ [args]) }"

definition nbd_get :: "nbd_daemon \<Rightarrow> calls \<Rightarrow> string list \<Rightarrow> buf \<Rightarrow> u32 \<Rightarrow> (int \<times> buf) exec" where
  "nbd_get D h args b len = do {
     (ret, b) \<leftarrow> nbd_ask D h args (Some b) len;
     b \<leftarrow> b;
     Some (ret, b) }"

text \<open>Asking for a number: the answer goes into an array of \<open>n\<close> bytes and through \<open>strtol\<close>.\<close>

definition nbd_get_count :: "nbd_daemon \<Rightarrow> calls \<Rightarrow> string list \<Rightarrow> nat \<Rightarrow> int \<Rightarrow> int exec" where
  "nbd_get_count D h args n err = do {
     (ret, b) \<leftarrow> nbd_get D h args (replicate n (CHR 0xFF)) (of_nat n);
     if ret < 0 then Some err
     else do { s \<leftarrow> read_str b; Some (fst (strtol 10 s)) } }"

text \<open>\<open>snprintf (buf, n, "%u", i)\<close>\<close>

definition print_num :: "nat \<Rightarrow> int \<Rightarrow> string exec" where
  "print_num n i = do {
     (_, b) \<leftarrow> snprintf (replicate n (CHR 0xFF)) n (dec_int i);
     read_str b }"

subsection \<open>\<open>nvram.c\<close>\<close>

definition nbd_system_config_get :: "nbd_daemon \<Rightarrow> calls \<Rightarrow> string \<Rightarrow> buf \<Rightarrow> u32 \<Rightarrow> (int \<times> buf) exec" where
  "nbd_system_config_get D h key = nbd_get D h [''nvram'', ''get'', key]"

definition nbd_user_config_get :: "nbd_daemon \<Rightarrow> calls \<Rightarrow> string \<Rightarrow> buf \<Rightarrow> u32 \<Rightarrow> (int \<times> buf) exec" where
  "nbd_user_config_get D h key = nbd_get D h [''nvram'', ''get'', key]"

definition nbd_system_config_set :: "nbd_daemon \<Rightarrow> string \<Rightarrow> string \<Rightarrow> calls \<Rightarrow> (int \<times> calls) exec" where
  "nbd_system_config_set D key data = nbd_set D [''nvram'', ''set'', key, data]"

definition nbd_user_config_set :: "nbd_daemon \<Rightarrow> string \<Rightarrow> string \<Rightarrow> calls \<Rightarrow> (int \<times> calls) exec" where
  "nbd_user_config_set D key data = nbd_set D [''nvram'', ''set'', key, data]"

definition nbd_user_config_add :: "nbd_daemon \<Rightarrow> string \<Rightarrow> string \<Rightarrow> calls \<Rightarrow> (int \<times> calls) exec" where
  "nbd_user_config_add D key data = nbd_set D [''nvram'', ''add'', key, data]"

definition nbd_user_config_del :: "nbd_daemon \<Rightarrow> string \<Rightarrow> calls \<Rightarrow> (int \<times> calls) exec" where
  "nbd_user_config_del D key = nbd_set D [''nvram'', ''del'', key]"

definition nbd_system_config_list :: "nbd_daemon \<Rightarrow> calls \<Rightarrow> string \<Rightarrow> buf \<Rightarrow> u32 \<Rightarrow> (int \<times> buf) exec" where
  "nbd_system_config_list D h lst = nbd_get D h [''nvram'', ''list'', lst]"

definition nbd_user_config_list :: "nbd_daemon \<Rightarrow> calls \<Rightarrow> string \<Rightarrow> buf \<Rightarrow> u32 \<Rightarrow> (int \<times> buf) exec" where
  "nbd_user_config_list D h lst = nbd_get D h [''nvram'', ''list'', lst]"

definition nbd_system_config_list_long :: "nbd_daemon \<Rightarrow> calls \<Rightarrow> string \<Rightarrow> buf \<Rightarrow> u32 \<Rightarrow> (int \<times> buf) exec" where
  "nbd_system_config_list_long D h lst = nbd_get D h [''nvram'', ''list_long'', lst]"

definition nbd_user_config_list_long :: "nbd_daemon \<Rightarrow> calls \<Rightarrow> string \<Rightarrow> buf \<Rightarrow> u32 \<Rightarrow> (int \<times> buf) exec" where
  "nbd_user_config_list_long D h lst = nbd_get D h [''nvram'', ''list_long'', lst]"

definition nbd_user_config_list_flush :: "nbd_daemon \<Rightarrow> string \<Rightarrow> calls \<Rightarrow> (int \<times> calls) exec" where
  "nbd_user_config_list_flush D lst = nbd_set D [''nvram'', ''list_flush'', lst]"

definition nbd_user_config_list_contains :: "nbd_daemon \<Rightarrow> string \<Rightarrow> string \<Rightarrow> calls \<Rightarrow> (int \<times> calls) exec" where
  "nbd_user_config_list_contains D lst key = nbd_set D [''nvram'', ''list_contain'', lst, key]"

definition nbd_system_config_commit :: "nbd_daemon \<Rightarrow> calls \<Rightarrow> (int \<times> calls) exec" where
  "nbd_system_config_commit D = nbd_set D [''nvram'', ''commit'', ''system'']"

definition nbd_user_config_commit :: "nbd_daemon \<Rightarrow> calls \<Rightarrow> (int \<times> calls) exec" where
  "nbd_user_config_commit D = nbd_set D [''nvram'', ''commit'', ''user'']"

definition nbd_system_config_erase :: "nbd_daemon \<Rightarrow> calls \<Rightarrow> (int \<times> calls) exec" where
  "nbd_system_config_erase D = nbd_set D [''nvram'', ''erase'', ''system'']"

definition nbd_user_config_erase :: "nbd_daemon \<Rightarrow> calls \<Rightarrow> (int \<times> calls) exec" where
  "nbd_user_config_erase D = nbd_set D [''nvram'', ''erase'', ''user'']"

definition nbd_system_config_export :: "nbd_daemon \<Rightarrow> string \<Rightarrow> calls \<Rightarrow> (int \<times> calls) exec" where
  "nbd_system_config_export D file = nbd_set D [''nvram'', ''export'', ''system'', file]"

definition nbd_user_config_export :: "nbd_daemon \<Rightarrow> string \<Rightarrow> calls \<Rightarrow> (int \<times> calls) exec" where
  "nbd_user_config_export D file = nbd_set D [''nvram'', ''export'', ''user'', file]"

definition nbd_system_config_import :: "nbd_daemon \<Rightarrow> string \<Rightarrow> calls \<Rightarrow> (int \<times> calls) exec" where
  "nbd_system_config_import D file = nbd_set D [''nvram'', ''import'', ''system'', file]"

definition nbd_user_config_import :: "nbd_daemon \<Rightarrow> string \<Rightarrow> calls \<Rightarrow> (int \<times> calls) exec" where
  "nbd_user_config_import D file = nbd_set D [''nvram'', ''import'', ''user'', file]"

definition nbd_nv_get :: "nbd_daemon \<Rightarrow> calls \<Rightarrow> string \<Rightarrow> buf \<Rightarrow> u32 \<Rightarrow> (int \<times> buf) exec" where
  "nbd_nv_get D h key = nbd_get D h [''nvram'', ''get'', key]"

definition nbd_nv_set :: "nbd_daemon \<Rightarrow> string \<Rightarrow> string \<Rightarrow> calls \<Rightarrow> (int \<times> calls) exec" where
  "nbd_nv_set D key data = nbd_set D [''nvram'', ''set'', key, data]"

definition nbd_nv_commit :: "nbd_daemon \<Rightarrow> string \<Rightarrow> calls \<Rightarrow> (int \<times> calls) exec" where
  "nbd_nv_commit D xml = nbd_set D [''nvram'', ''commit'', xml]"

definition nbd_system_config_list_count :: "nbd_daemon \<Rightarrow> calls \<Rightarrow> string \<Rightarrow> int exec" where
  "nbd_system_config_list_count D h lst = nbd_get_count D h [''nvram'', ''list_count'', lst] 16 (- 1)"

definition nbd_user_config_list_count :: "nbd_daemon \<Rightarrow> calls \<Rightarrow> string \<Rightarrow> int exec" where
  "nbd_user_config_list_count D h lst = nbd_get_count D h [''nvram'', ''list_count'', lst] 16 (- 1)"

text \<open>A new cursor is a query that changes the daemon; its number comes back as an \<open>unsigned int\<close>.\<close>

definition nbd_user_config_cursor_new :: "nbd_daemon \<Rightarrow> calls \<Rightarrow> (u32 \<times> calls) exec" where
  "nbd_user_config_cursor_new D h = do {
     n \<leftarrow> nbd_get_count D h [''nvram'', ''cursor'', ''new''] 16 0;
     Some (word_of_int n, h @ [[''nvram'', ''cursor'', ''new'']]) }"

definition nbd_user_config_cursor_close :: "nbd_daemon \<Rightarrow> u32 \<Rightarrow> calls \<Rightarrow> (int \<times> calls) exec" where
  "nbd_user_config_cursor_close D cid h = do {
     s \<leftarrow> print_num 16 (uint cid);
     nbd_set D [''nvram'', ''cursor'', ''close'', s] h }"

definition nbd_user_config_cursor_revert :: "nbd_daemon \<Rightarrow> u32 \<Rightarrow> calls \<Rightarrow> (int \<times> calls) exec" where
  "nbd_user_config_cursor_revert D cid h = do {
     s \<leftarrow> print_num 16 (uint cid);
     nbd_set D [''nvram'', ''cursor'', ''revert'', s] h }"

definition nbd_user_config_cursor_commit :: "nbd_daemon \<Rightarrow> u32 \<Rightarrow> calls \<Rightarrow> (int \<times> calls) exec" where
  "nbd_user_config_cursor_commit D cid h = do {
     s \<leftarrow> print_num 16 (uint cid);
     nbd_set D [''nvram'', ''cursor'', ''commit'', s] h }"

definition nbd_user_config_cset :: "nbd_daemon \<Rightarrow> u32 \<Rightarrow> string \<Rightarrow> string \<Rightarrow> calls \<Rightarrow> (int \<times> calls) exec" where
  "nbd_user_config_cset D cid key data h = do {
     s \<leftarrow> print_num 16 (uint cid);
     nbd_set D [''nvram'', ''cset'', s, key, data] h }"

text \<open>The \<open>matches\<close> macros compare the bytes of the literal and its NUL.\<close>

definition answer_matches :: "(int \<times> buf) exec \<Rightarrow> string \<Rightarrow> bool exec" where
  "answer_matches r lit = do {
     (ret, b) \<leftarrow> r;
     Some (\<not> ret < 0 \<and> b = lit @ [NUL]) }"

definition nbd_user_config_matches :: "nbd_daemon \<Rightarrow> calls \<Rightarrow> string \<Rightarrow> string \<Rightarrow> bool exec" where
  "nbd_user_config_matches D h key lit =
     answer_matches (nbd_user_config_get D h key (replicate (length lit + 1) (CHR 0xFF)) (of_nat (length lit + 1))) lit"

subsection \<open>\<open>status.c\<close>\<close>

definition nbd_status_get :: "nbd_daemon \<Rightarrow> calls \<Rightarrow> string \<Rightarrow> buf \<Rightarrow> u32 \<Rightarrow> (int \<times> buf) exec" where
  "nbd_status_get D h key = nbd_get D h [''status'', ''get'', key]"

definition nbd_status_set :: "nbd_daemon \<Rightarrow> string \<Rightarrow> string \<Rightarrow> calls \<Rightarrow> (int \<times> calls) exec" where
  "nbd_status_set D key data = nbd_set D [''status'', ''set'', key, data]"

definition nbd_status_add :: "nbd_daemon \<Rightarrow> string \<Rightarrow> string \<Rightarrow> calls \<Rightarrow> (int \<times> calls) exec" where
  "nbd_status_add D key data = nbd_set D [''status'', ''add'', key, data]"

definition nbd_status_del :: "nbd_daemon \<Rightarrow> string \<Rightarrow> calls \<Rightarrow> (int \<times> calls) exec" where
  "nbd_status_del D key = nbd_set D [''status'', ''del'', key]"

definition nbd_status_list :: "nbd_daemon \<Rightarrow> calls \<Rightarrow> string \<Rightarrow> buf \<Rightarrow> u32 \<Rightarrow> (int \<times> buf) exec" where
  "nbd_status_list D h lst = nbd_get D h [''status'', ''list'', lst]"

definition nbd_status_list_long :: "nbd_daemon \<Rightarrow> calls \<Rightarrow> string \<Rightarrow> buf \<Rightarrow> u32 \<Rightarrow> (int \<times> buf) exec" where
  "nbd_status_list_long D h lst = nbd_get D h [''status'', ''list_long'', lst]"

definition nbd_status_list_contains :: "nbd_daemon \<Rightarrow> string \<Rightarrow> string \<Rightarrow> calls \<Rightarrow> (int \<times> calls) exec" where
  "nbd_status_list_contains D lst key = nbd_set D [''status'', ''list_contain'', lst, key]"

definition nbd_status_list_flush :: "nbd_daemon \<Rightarrow> string \<Rightarrow> calls \<Rightarrow> (int \<times> calls) exec" where
  "nbd_status_list_flush D lst = nbd_set D [''status'', ''list_flush'', lst]"

definition nbd_status_show :: "nbd_daemon \<Rightarrow> calls \<Rightarrow> buf \<Rightarrow> u32 \<Rightarrow> (int \<times> buf) exec" where
  "nbd_status_show D h = nbd_get D h [''status'', ''show'']"

definition nbd_status_list_count :: "nbd_daemon \<Rightarrow> calls \<Rightarrow> string \<Rightarrow> int exec" where
  "nbd_status_list_count D h lst = nbd_get_count D h [''status'', ''list_count'', lst] 16 (- 1)"

definition nbd_status_matches :: "nbd_daemon \<Rightarrow> calls \<Rightarrow> string \<Rightarrow> string \<Rightarrow> bool exec" where
  "nbd_status_matches D h key lit =
     answer_matches (nbd_status_get D h key (replicate (length lit + 1) (CHR 0xFF)) (of_nat (length lit + 1))) lit"

subsection \<open>\<open>nbctl.c\<close>\<close>

definition nbd_sys_reboot :: "nbd_daemon \<Rightarrow> calls \<Rightarrow> (int \<times> calls) exec" where
  "nbd_sys_reboot D = nbd_set D [''nbctl'', ''reboot'']"

definition nbd_sys_hard_reboot :: "nbd_daemon \<Rightarrow> calls \<Rightarrow> (int \<times> calls) exec" where
  "nbd_sys_hard_reboot D = nbd_set D [''nbctl'', ''reboot'', ''now'']"

definition nbd_sys_dump :: "nbd_daemon \<Rightarrow> string \<Rightarrow> calls \<Rightarrow> (int \<times> calls) exec" where
  "nbd_sys_dump D file = nbd_set D [''nbctl'', ''diag_report'', file]"

definition nbd_sys_mac :: "nbd_daemon \<Rightarrow> calls \<Rightarrow> string \<Rightarrow> string \<Rightarrow> buf \<Rightarrow> u32 \<Rightarrow> (int \<times> buf) exec" where
  "nbd_sys_mac D h offset fmt = nbd_get D h [''nbctl'', ''mac'', offset, fmt]"

definition nbd_sys_set_rootfs :: "nbd_daemon \<Rightarrow> string \<Rightarrow> calls \<Rightarrow> (int \<times> calls) exec" where
  "nbd_sys_set_rootfs D target = nbd_set D [''nbctl'', ''rootfs'', target]"

definition nbd_sys_delay_run :: "nbd_daemon \<Rightarrow> string \<Rightarrow> string \<Rightarrow> string \<Rightarrow> calls \<Rightarrow> (int \<times> calls) exec" where
  "nbd_sys_delay_run D delay script arg = nbd_set D [''nbctl'', ''delay_run'', delay, script, arg]"

definition nbd_sys_async_run :: "nbd_daemon \<Rightarrow> string \<Rightarrow> string \<Rightarrow> calls \<Rightarrow> (int \<times> calls) exec" where
  "nbd_sys_async_run D script arg = nbd_set D [''nbctl'', ''async_run'', script, arg]"

definition nbd_sys_sync_run :: "nbd_daemon \<Rightarrow> string \<Rightarrow> string \<Rightarrow> calls \<Rightarrow> (int \<times> calls) exec" where
  "nbd_sys_sync_run D script arg = nbd_set D [''nbctl'', ''sync_run'', script, arg]"

definition nbd_halt_webautologin :: "nbd_daemon \<Rightarrow> calls \<Rightarrow> (int \<times> calls) exec" where
  "nbd_halt_webautologin D = nbd_set D [''nbctl'', ''halt_webautologin'']"

definition nbd_notify_failure :: "nbd_daemon \<Rightarrow> int \<Rightarrow> calls \<Rightarrow> (int \<times> calls) exec" where
  "nbd_notify_failure D errcode h = do {
     s \<leftarrow> print_num 16 errcode;
     nbd_set D [''nbctl'', ''failure'', s] h }"

subsection \<open>\<open>autoconf.c\<close>\<close>

definition nbd_autoconf_start :: "nbd_daemon \<Rightarrow> calls \<Rightarrow> (int \<times> calls) exec" where
  "nbd_autoconf_start D = nbd_set D [''autoconf'', ''start'']"

definition nbd_autoconf_stop :: "nbd_daemon \<Rightarrow> calls \<Rightarrow> (int \<times> calls) exec" where
  "nbd_autoconf_stop D = nbd_set D [''autoconf'', ''stop'']"

definition nbd_autoconf_get :: "nbd_daemon \<Rightarrow> calls \<Rightarrow> string \<Rightarrow> buf \<Rightarrow> u32 \<Rightarrow> (int \<times> buf) exec" where
  "nbd_autoconf_get D h key = nbd_get D h [''autoconf'', ''get'', key]"

definition nbd_autoconf_set :: "nbd_daemon \<Rightarrow> string \<Rightarrow> string \<Rightarrow> calls \<Rightarrow> (int \<times> calls) exec" where
  "nbd_autoconf_set D key data = nbd_set D [''autoconf'', ''set'', key, data]"

definition nbd_autoconf_list :: "nbd_daemon \<Rightarrow> calls \<Rightarrow> string \<Rightarrow> buf \<Rightarrow> u32 \<Rightarrow> (int \<times> buf) exec" where
  "nbd_autoconf_list D h lst = nbd_get D h [''autoconf'', ''list'', lst]"

definition nbd_autoconf_list_long :: "nbd_daemon \<Rightarrow> calls \<Rightarrow> string \<Rightarrow> buf \<Rightarrow> u32 \<Rightarrow> (int \<times> buf) exec" where
  "nbd_autoconf_list_long D h lst = nbd_get D h [''autoconf'', ''list_long'', lst]"

definition nbd_autoconf_list_count :: "nbd_daemon \<Rightarrow> calls \<Rightarrow> string \<Rightarrow> int exec" where
  "nbd_autoconf_list_count D h lst = nbd_get_count D h [''autoconf'', ''list_count'', lst] 16 (- 1)"

subsection \<open>\<open>hotspot.c\<close>\<close>

definition nbd_hotspot_start :: "nbd_daemon \<Rightarrow> calls \<Rightarrow> (int \<times> calls) exec" where
  "nbd_hotspot_start D = nbd_set D [''hotspot'', ''start'']"

definition nbd_hotspot_stop :: "nbd_daemon \<Rightarrow> calls \<Rightarrow> (int \<times> calls) exec" where
  "nbd_hotspot_stop D = nbd_set D [''hotspot'', ''stop'']"

definition nbd_hotspot_restart :: "nbd_daemon \<Rightarrow> calls \<Rightarrow> (int \<times> calls) exec" where
  "nbd_hotspot_restart D = nbd_set D [''hotspot'', ''restart'']"

definition nbd_hotspot_ssid :: "nbd_daemon \<Rightarrow> calls \<Rightarrow> buf \<Rightarrow> u32 \<Rightarrow> (int \<times> buf) exec" where
  "nbd_hotspot_ssid D h = nbd_get D h [''hotspot'', ''ssid'']"

definition nbd_hotspot_client_add :: "nbd_daemon \<Rightarrow> string \<Rightarrow> string \<Rightarrow> calls \<Rightarrow> (int \<times> calls) exec" where
  "nbd_hotspot_client_add D ipaddr macaddr = nbd_set D [''hotspot'', ''client_add'', ipaddr, macaddr]"

definition nbd_hotspot_client_del :: "nbd_daemon \<Rightarrow> string \<Rightarrow> calls \<Rightarrow> (int \<times> calls) exec" where
  "nbd_hotspot_client_del D i = nbd_set D [''hotspot'', ''client_del'', i]"

definition nbd_hotspot_mac2ip :: "nbd_daemon \<Rightarrow> calls \<Rightarrow> string \<Rightarrow> buf \<Rightarrow> u32 \<Rightarrow> (int \<times> buf) exec" where
  "nbd_hotspot_mac2ip D h macaddr = nbd_get D h [''hotspot'', ''mac2ip'', macaddr]"

subsection \<open>\<open>wlan.c\<close>\<close>

definition nbd_wlan_active :: "nbd_daemon \<Rightarrow> calls \<Rightarrow> buf \<Rightarrow> u32 \<Rightarrow> (int \<times> buf) exec" where
  "nbd_wlan_active D h = nbd_get D h [''wlan'', ''active'']"

definition nbd_wlan_enable :: "nbd_daemon \<Rightarrow> calls \<Rightarrow> (int \<times> calls) exec" where
  "nbd_wlan_enable D = nbd_set D [''wlan'', ''active'', ''on'']"

definition nbd_wlan_disable :: "nbd_daemon \<Rightarrow> calls \<Rightarrow> (int \<times> calls) exec" where
  "nbd_wlan_disable D = nbd_set D [''wlan'', ''active'', ''off'']"

definition nbd_wlan_start :: "nbd_daemon \<Rightarrow> calls \<Rightarrow> (int \<times> calls) exec" where
  "nbd_wlan_start D = nbd_set D [''wlan'', ''start'']"

definition nbd_wlan_stop :: "nbd_daemon \<Rightarrow> calls \<Rightarrow> (int \<times> calls) exec" where
  "nbd_wlan_stop D = nbd_set D [''wlan'', ''stop'']"

definition nbd_wlan_restart :: "nbd_daemon \<Rightarrow> calls \<Rightarrow> (int \<times> calls) exec" where
  "nbd_wlan_restart D = nbd_set D [''wlan'', ''restart'']"

definition nbd_wlan_ses_done :: "nbd_daemon \<Rightarrow> calls \<Rightarrow> (int \<times> calls) exec" where
  "nbd_wlan_ses_done D = nbd_set D [''wlan'', ''ses_done'']"

definition nbd_wlan_add_mac :: "nbd_daemon \<Rightarrow> string \<Rightarrow> calls \<Rightarrow> (int \<times> calls) exec" where
  "nbd_wlan_add_mac D mac = nbd_set D [''wlan'', ''add'', ''mac'', mac]"

definition nbd_wlan_del_mac :: "nbd_daemon \<Rightarrow> string \<Rightarrow> calls \<Rightarrow> (int \<times> calls) exec" where
  "nbd_wlan_del_mac D mac = nbd_set D [''wlan'', ''del'', ''mac'', mac]"

definition nbd_wlan_macfiltering :: "nbd_daemon \<Rightarrow> string \<Rightarrow> calls \<Rightarrow> (int \<times> calls) exec" where
  "nbd_wlan_macfiltering D mode = nbd_set D [''wlan'', ''macfiltering'', mode]"

definition nbd_wlan_macfiltering_mode :: "nbd_daemon \<Rightarrow> calls \<Rightarrow> buf \<Rightarrow> u32 \<Rightarrow> (int \<times> buf) exec" where
  "nbd_wlan_macfiltering_mode D h = nbd_get D h [''wlan'', ''macfiltering'']"

definition nbd_wlan_list_contains_mac :: "nbd_daemon \<Rightarrow> string \<Rightarrow> calls \<Rightarrow> (int \<times> calls) exec" where
  "nbd_wlan_list_contains_mac D mac = nbd_set D [''wlan'', ''list_contains'', ''mac'', mac]"

definition nbd_wlan_list_contains_assoc :: "nbd_daemon \<Rightarrow> string \<Rightarrow> string \<Rightarrow> calls \<Rightarrow> (int \<times> calls) exec" where
  "nbd_wlan_list_contains_assoc D mac ifname = nbd_set D [''wlan'', ''list_contains'', ''assoc'', mac, ifname]"

definition nbd_wlan_get_current_channel :: "nbd_daemon \<Rightarrow> calls \<Rightarrow> buf \<Rightarrow> u32 \<Rightarrow> (int \<times> buf) exec" where
  "nbd_wlan_get_current_channel D h = nbd_get D h [''wlan'', ''currentchannel'']"

definition nbd_wlan_bss :: "nbd_daemon \<Rightarrow> calls \<Rightarrow> string \<Rightarrow> buf \<Rightarrow> u32 \<Rightarrow> (int \<times> buf) exec" where
  "nbd_wlan_bss D h idx = nbd_get D h [''wlan'', ''bss'', idx]"

definition nbd_wlan_assoc_count :: "nbd_daemon \<Rightarrow> calls \<Rightarrow> string \<Rightarrow> int exec" where
  "nbd_wlan_assoc_count D h ifname = nbd_get_count D h [''wlan'', ''list'', ''assoc_count'', ifname] 4 (- 1)"

subsection \<open>\<open>dsl.c\<close>\<close>

definition nbd_dsl_start :: "nbd_daemon \<Rightarrow> calls \<Rightarrow> (int \<times> calls) exec" where
  "nbd_dsl_start D = nbd_set D [''dsl'', ''start'']"

definition nbd_dsl_stop :: "nbd_daemon \<Rightarrow> calls \<Rightarrow> (int \<times> calls) exec" where
  "nbd_dsl_stop D = nbd_set D [''dsl'', ''stop'']"

definition nbd_dsl_restart :: "nbd_daemon \<Rightarrow> calls \<Rightarrow> (int \<times> calls) exec" where
  "nbd_dsl_restart D = nbd_set D [''dsl'', ''restart'']"

definition nbd_dsl_diag_start :: "nbd_daemon \<Rightarrow> calls \<Rightarrow> (int \<times> calls) exec" where
  "nbd_dsl_diag_start D = nbd_set D [''dsl'', ''diag'', ''start'']"

definition nbd_dsl_diag_stop :: "nbd_daemon \<Rightarrow> calls \<Rightarrow> (int \<times> calls) exec" where
  "nbd_dsl_diag_stop D = nbd_set D [''dsl'', ''diag'', ''stop'']"

definition nbd_dsl_get :: "nbd_daemon \<Rightarrow> calls \<Rightarrow> string \<Rightarrow> buf \<Rightarrow> u32 \<Rightarrow> (int \<times> buf) exec" where
  "nbd_dsl_get D h name = nbd_get D h [''dsl'', ''get'', name]"

definition nbd_dsl_mod_set :: "nbd_daemon \<Rightarrow> string \<Rightarrow> calls \<Rightarrow> (int \<times> calls) exec" where
  "nbd_dsl_mod_set D md = nbd_user_config_set D ''adsl_userprofile_mod'' md"

definition nbd_dsl_mod_get :: "nbd_daemon \<Rightarrow> calls \<Rightarrow> buf \<Rightarrow> u32 \<Rightarrow> (int \<times> buf) exec" where
  "nbd_dsl_mod_get D h = nbd_user_config_get D h ''adsl_userprofile_mod''"

definition nbd_dsl_lpair_set :: "nbd_daemon \<Rightarrow> string \<Rightarrow> calls \<Rightarrow> (int \<times> calls) exec" where
  "nbd_dsl_lpair_set D lpair = nbd_user_config_set D ''adsl_userprofile_lpair'' lpair"

definition nbd_dsl_lpair_get :: "nbd_daemon \<Rightarrow> calls \<Rightarrow> buf \<Rightarrow> u32 \<Rightarrow> (int \<times> buf) exec" where
  "nbd_dsl_lpair_get D h = nbd_user_config_get D h ''adsl_userprofile_lpair''"

definition nbd_dsl_trellis_set :: "nbd_daemon \<Rightarrow> string \<Rightarrow> calls \<Rightarrow> (int \<times> calls) exec" where
  "nbd_dsl_trellis_set D trellis = nbd_user_config_set D ''adsl_userprofile_trellis'' trellis"

definition nbd_dsl_trellis_get :: "nbd_daemon \<Rightarrow> calls \<Rightarrow> buf \<Rightarrow> u32 \<Rightarrow> (int \<times> buf) exec" where
  "nbd_dsl_trellis_get D h = nbd_user_config_get D h ''adsl_userprofile_trellis''"

definition nbd_dsl_snr_set :: "nbd_daemon \<Rightarrow> string \<Rightarrow> calls \<Rightarrow> (int \<times> calls) exec" where
  "nbd_dsl_snr_set D snr = nbd_user_config_set D ''adsl_userprofile_snr'' snr"

definition nbd_dsl_snr_get :: "nbd_daemon \<Rightarrow> calls \<Rightarrow> buf \<Rightarrow> u32 \<Rightarrow> (int \<times> buf) exec" where
  "nbd_dsl_snr_get D h = nbd_user_config_get D h ''adsl_userprofile_snr''"

definition nbd_dsl_bitswap_set :: "nbd_daemon \<Rightarrow> string \<Rightarrow> calls \<Rightarrow> (int \<times> calls) exec" where
  "nbd_dsl_bitswap_set D bitswap = nbd_user_config_set D ''adsl_userprofile_bitswap'' bitswap"

definition nbd_dsl_bitswap_get :: "nbd_daemon \<Rightarrow> calls \<Rightarrow> buf \<Rightarrow> u32 \<Rightarrow> (int \<times> buf) exec" where
  "nbd_dsl_bitswap_get D h = nbd_user_config_get D h ''adsl_userprofile_bitswap''"

definition nbd_dsl_sesdrop_set :: "nbd_daemon \<Rightarrow> string \<Rightarrow> calls \<Rightarrow> (int \<times> calls) exec" where
  "nbd_dsl_sesdrop_set D sesdrop = nbd_user_config_set D ''adsl_userprofile_sesdrop'' sesdrop"

definition nbd_dsl_sesdrop_get :: "nbd_daemon \<Rightarrow> calls \<Rightarrow> buf \<Rightarrow> u32 \<Rightarrow> (int \<times> buf) exec" where
  "nbd_dsl_sesdrop_get D h = nbd_user_config_get D h ''adsl_userprofile_sesdrop''"

definition nbd_dsl_sra_set :: "nbd_daemon \<Rightarrow> string \<Rightarrow> calls \<Rightarrow> (int \<times> calls) exec" where
  "nbd_dsl_sra_set D sra = nbd_user_config_set D ''adsl_userprofile_sra'' sra"

definition nbd_dsl_sra_get :: "nbd_daemon \<Rightarrow> calls \<Rightarrow> buf \<Rightarrow> u32 \<Rightarrow> (int \<times> buf) exec" where
  "nbd_dsl_sra_get D h = nbd_user_config_get D h ''adsl_userprofile_sra''"

definition nbd_dsl_rate_up_get :: "nbd_daemon \<Rightarrow> calls \<Rightarrow> buf \<Rightarrow> u32 \<Rightarrow> (int \<times> buf) exec" where
  "nbd_dsl_rate_up_get D h = nbd_get D h [''dsl'', ''get'', ''adsl_rate_up'']"

definition nbd_dsl_rate_down_get :: "nbd_daemon \<Rightarrow> calls \<Rightarrow> buf \<Rightarrow> u32 \<Rightarrow> (int \<times> buf) exec" where
  "nbd_dsl_rate_down_get D h = nbd_get D h [''dsl'', ''get'', ''adsl_rate_down'']"

definition nbd_dsl_noise_up_get :: "nbd_daemon \<Rightarrow> calls \<Rightarrow> buf \<Rightarrow> u32 \<Rightarrow> (int \<times> buf) exec" where
  "nbd_dsl_noise_up_get D h = nbd_get D h [''dsl'', ''get'', ''adsl_noise_up'']"

definition nbd_dsl_noise_down_get :: "nbd_daemon \<Rightarrow> calls \<Rightarrow> buf \<Rightarrow> u32 \<Rightarrow> (int \<times> buf) exec" where
  "nbd_dsl_noise_down_get D h = nbd_get D h [''dsl'', ''get'', ''adsl_noise_down'']"

definition nbd_dsl_attenuation_up_get :: "nbd_daemon \<Rightarrow> calls \<Rightarrow> buf \<Rightarrow> u32 \<Rightarrow> (int \<times> buf) exec" where
  "nbd_dsl_attenuation_up_get D h = nbd_get D h [''dsl'', ''get'', ''adsl_attenuation_up'']"

definition nbd_dsl_attenuation_down_get :: "nbd_daemon \<Rightarrow> calls \<Rightarrow> buf \<Rightarrow> u32 \<Rightarrow> (int \<times> buf) exec" where
  "nbd_dsl_attenuation_down_get D h = nbd_get D h [''dsl'', ''get'', ''adsl_attenuation_down'']"

definition nbd_dsl_linemode_get :: "nbd_daemon \<Rightarrow> calls \<Rightarrow> buf \<Rightarrow> u32 \<Rightarrow> (int \<times> buf) exec" where
  "nbd_dsl_linemode_get D h = nbd_get D h [''dsl'', ''get'', ''adsl_linemode'']"

definition nbd_dsl_crc_get :: "nbd_daemon \<Rightarrow> calls \<Rightarrow> buf \<Rightarrow> u32 \<Rightarrow> (int \<times> buf) exec" where
  "nbd_dsl_crc_get D h = nbd_get D h [''dsl'', ''get'', ''adsl_crc'']"

subsection \<open>\<open>lan.c\<close>\<close>

definition nbd_lan_set_ipaddr :: "nbd_daemon \<Rightarrow> string \<Rightarrow> string \<Rightarrow> calls \<Rightarrow> (int \<times> calls) exec" where
  "nbd_lan_set_ipaddr D ip netmask = nbd_set D [''lan'', ''set_ipaddr'', ip, netmask]"

definition nbd_dhcpd_static_init :: "nbd_daemon \<Rightarrow> calls \<Rightarrow> (int \<times> calls) exec" where
  "nbd_dhcpd_static_init D = nbd_set D [''lan'', ''dhcpd_static_init'']"

definition nbd_dhcpd_add_static_ip :: "nbd_daemon \<Rightarrow> string \<Rightarrow> string \<Rightarrow> calls \<Rightarrow> (int \<times> calls) exec" where
  "nbd_dhcpd_add_static_ip D ip mac = nbd_set D [''lan'', ''dhcpd_add_static_ip'', ip, mac]"

definition nbd_lan_topology_update :: "nbd_daemon \<Rightarrow> string \<Rightarrow> string \<Rightarrow> string \<Rightarrow> calls \<Rightarrow> (int \<times> calls) exec" where
  "nbd_lan_topology_update D macaddr ipaddr hostname = nbd_set D [''lan'', ''topology_update'', macaddr, ipaddr, hostname]"

definition nbd_dnshosts_add :: "nbd_daemon \<Rightarrow> string \<Rightarrow> string \<Rightarrow> calls \<Rightarrow> (int \<times> calls) exec" where
  "nbd_dnshosts_add D ipaddr domain = nbd_set D [''lan'', ''dnshosts_add'', ipaddr, domain]"

definition nbd_lan_mac2ip :: "nbd_daemon \<Rightarrow> calls \<Rightarrow> string \<Rightarrow> buf \<Rightarrow> u32 \<Rightarrow> (int \<times> buf) exec" where
  "nbd_lan_mac2ip D h mac = nbd_get D h [''lan'', ''mac2ip'', mac]"

definition nbd_lan_ip2mac :: "nbd_daemon \<Rightarrow> calls \<Rightarrow> string \<Rightarrow> buf \<Rightarrow> u32 \<Rightarrow> (int \<times> buf) exec" where
  "nbd_lan_ip2mac D h ip = nbd_get D h [''lan'', ''ip2mac'', ip]"

text \<open>An index is printed with \<open>%d\<close> into eight bytes.\<close>

definition nbd_dhcpd_del_static_ip :: "nbd_daemon \<Rightarrow> u32 \<Rightarrow> calls \<Rightarrow> (int \<times> calls) exec" where
  "nbd_dhcpd_del_static_ip D idx h = do {
     s \<leftarrow> print_num 8 (sint idx);
     nbd_set D [''lan'', ''dhcpd_del_static_ip'', s] h }"

definition nbd_dnshosts_del :: "nbd_daemon \<Rightarrow> u32 \<Rightarrow> calls \<Rightarrow> (int \<times> calls) exec" where
  "nbd_dnshosts_del D idx h = do {
     s \<leftarrow> print_num 8 (sint idx);
     nbd_set D [''lan'', ''dnshosts_del'', s] h }"

subsection \<open>\<open>nat.c\<close>\<close>

definition nbd_nat_add :: "nbd_daemon \<Rightarrow> string \<Rightarrow> string \<Rightarrow> string \<Rightarrow> string \<Rightarrow> string \<Rightarrow> string \<Rightarrow> calls \<Rightarrow> (int \<times> calls) exec" where
  "nbd_nat_add D rulename proto ext_port dst_ip dst_port activated = nbd_set D [''nat'', ''add'', rulename, proto, ext_port, dst_ip, dst_port, activated]"

definition nbd_nat_dmz_setup :: "nbd_daemon \<Rightarrow> calls \<Rightarrow> (int \<times> calls) exec" where
  "nbd_nat_dmz_setup D = nbd_set D [''nat'', ''dmz_setup'']"

definition nbd_nat_sipalg :: "nbd_daemon \<Rightarrow> string \<Rightarrow> calls \<Rightarrow> (int \<times> calls) exec" where
  "nbd_nat_sipalg D target_state = nbd_set D [''nat'', ''sipalg'', target_state]"

definition nbd_nat_del_by_index :: "nbd_daemon \<Rightarrow> u32 \<Rightarrow> calls \<Rightarrow> (int \<times> calls) exec" where
  "nbd_nat_del_by_index D idx h = do {
     s \<leftarrow> print_num 8 (sint idx);
     nbd_set D [''nat'', ''del'', s] h }"

definition nbd_nat_active :: "nbd_daemon \<Rightarrow> u32 \<Rightarrow> string \<Rightarrow> calls \<Rightarrow> (int \<times> calls) exec" where
  "nbd_nat_active D idx activation h = do {
     s \<leftarrow> print_num 8 (sint idx);
     nbd_set D [''nat'', ''active'', s, activation] h }"

named_theorems nbd

subsection \<open>The daemon over the socket\<close>

lemma nbd_ask_Some:
  "nbd_ask D h args out outlen = Some r \<longleftrightarrow>
     query_fits args \<and> out_ok out outlen \<and> r = answer_spec out outlen (fst (D h args)) (snd (D h args))"
  by (auto simp: nbd_ask_def guard_def split_beta)

lemma nbd_set_Some [nbd]:
  "nbd_set D args h = Some (r, h') \<longleftrightarrow>
     query_fits args \<and> h' = h @ [args] \<and> r = (if snd (D h args) = [] then fst (D h args) else - 1)"
proof -
  have "fst (answer_spec None 0 c d) = (if d = [] then c else - 1)" for c d by (simp add: answer_spec_def)
  moreover have "out_ok None 0" by (simp add: out_ok_def)
  ultimately show ?thesis by (auto simp: nbd_set_def bind_Some_iff nbd_ask_Some split_beta)
qed

lemma nbd_get_Some [nbd]:
  "nbd_get D h args b len = Some (r, b') \<longleftrightarrow>
     query_fits args \<and> b \<noteq> [] \<and> unat len \<le> length b \<and> answer_spec (Some b) len (fst (D h args)) (snd (D h args)) = (r, Some b')"
  by (auto simp: nbd_get_def bind_Some_iff nbd_ask_Some split_beta out_ok_def prod_eq_iff)

text \<open>Over a socket that delivers the daemon's answer, \<open>nbd_query\<close> returns what \<open>nbd_ask\<close> says.\<close>

lemma nbd_ask_query:
  assumes "nbd_ask D h args out outlen = Some (r, b)" and "nbd_query_send args b0 l = Some (n, l')" and "0 \<le> n"
    and "clean rs" and "stream rs = s32_bytes (fst (D h args)) @ be32 (length (snd (D h args))) @ snd (D h args) @ rest"
    and "- 2147483648 \<le> fst (D h args)" and "fst (D h args) < 2147483648" and "length (snd (D h args)) < 2 ^ 32"
  shows "\<exists>rs'. nbd_query out outlen args b0 rs l = Some (r, b, rs', l')"
proof -
  have "out_ok out outlen" and rb: "answer_spec out outlen (fst (D h args)) (snd (D h args)) = (r, b)"
    using assms(1) by (auto simp: nbd_ask_Some)
  from receive_ok [OF assms(4-8) this(1), of n] show ?thesis using assms(2,3) rb by (auto simp: nbd_query_def)
qed

end
