(* ===== verification/Www_Dbl.thy ===== *)
theory Www_Dbl
  imports Ewf_Web Nbd_Client
begin

text \<open>
  How the pages of the web interface reach the configuration: \<open>dbl.c\<close>, the transactions of \<open>dbl.h\<close>,
  and the macros of \<open>ewf_hdf.h\<close> that leave a handler when a value is missing.  Sources are under
  \<open>efixo-www/src/src\<close>.

  A macro that may \<open>return\<close> takes the rest of the handler as an argument and does not call it when it
  returns.  The daemon \<open>D\<close> is an argument; the calls that change it are in \<open>w_calls\<close>.
\<close>

abbreviation (input) NBD_SUCCESS :: int where "NBD_SUCCESS \<equiv> 0"
abbreviation (input) NV_SET_INVALID_VALUE :: int where "NV_SET_INVALID_VALUE \<equiv> - 4"
abbreviation (input) NV_SET_ERROR :: int where "NV_SET_ERROR \<equiv> - 1"
abbreviation (input) NV_SET_SUCCESS :: int where "NV_SET_SUCCESS \<equiv> 0"
abbreviation (input) NV_SET_UNCHANGED :: int where "NV_SET_UNCHANGED \<equiv> 1"
abbreviation (input) NV_COMMIT_SUCCESS :: int where "NV_COMMIT_SUCCESS \<equiv> 0"
abbreviation (input) NV_COMMIT_UNCHANGED :: int where "NV_COMMIT_UNCHANGED \<equiv> 1"

subsection \<open>Running the library on the state of the server\<close>

definition web_hdf :: "('h \<Rightarrow> (int \<times> 'h) exec) \<Rightarrow> 'h handler" where
  "web_hdf f w = do { (_, h) \<leftarrow> f (w_hdf w); Some (upd_hdf (\<lambda>_. h) w) }"

definition web_sget :: "'h ewf_ext \<Rightarrow> string \<Rightarrow> 'h web \<Rightarrow> (string option \<times> 'h web) exec" where
  "web_sget X name w = do { (v, h) \<leftarrow> ewf_hdf_sget X name (w_hdf w); Some (v, upd_hdf (\<lambda>_. h) w) }"

definition web_call :: "(calls \<Rightarrow> (int \<times> calls) exec) \<Rightarrow> 'h web \<Rightarrow> (int \<times> 'h web) exec" where
  "web_call f w = do { (r, h) \<leftarrow> f (w_calls w); Some (r, w\<lparr>w_calls := h\<rparr>) }"

definition web_do :: "(calls \<Rightarrow> (int \<times> calls) exec) \<Rightarrow> 'h handler" where
  "web_do f w = map_option snd (web_call f w)"

subsection \<open>The macros of \<open>ewf_hdf.h\<close> and \<open>dbl.h\<close>\<close>

definition EWF_HDF_GET :: "'h ewf_ext \<Rightarrow> string \<Rightarrow> (string \<Rightarrow> 'h handler) \<Rightarrow> 'h handler" where
  "EWF_HDF_GET X varname k w = do {
     (v, w) \<leftarrow> web_sget X varname w;
     case v of None \<Rightarrow> Some w | Some s \<Rightarrow> k s w }"

definition EWF_HDF_GET_DEFAULT :: "'h ewf_ext \<Rightarrow> string \<Rightarrow> string \<Rightarrow> (string \<Rightarrow> 'h handler) \<Rightarrow> 'h handler" where
  "EWF_HDF_GET_DEFAULT X varname dflval k w = do {
     v \<leftarrow> ewf_hdf_sget_default X varname (Some dflval) (w_hdf w);
     v \<leftarrow> v;
     k v w }"

definition NV_GET :: "nbd_daemon \<Rightarrow> string \<Rightarrow> nat \<Rightarrow> (string \<Rightarrow> 'h handler) \<Rightarrow> 'h handler" where
  "NV_GET D nvvar n k w = do {
     (r, b) \<leftarrow> nbd_user_config_get D (w_calls w) nvvar (uninit n) (of_nat n);
     if r \<noteq> 0 then Some w
     else do { s \<leftarrow> read_str b; k s w } }"

subsection \<open>\<open>dbl.c\<close>\<close>

definition nv_to_hdf :: "'h ewf_ext \<Rightarrow> nbd_daemon \<Rightarrow> string \<Rightarrow> string \<Rightarrow> 'h web \<Rightarrow> (int \<times> 'h web) exec" where
  "nv_to_hdf X D nvram_name hdf_name w = do {
     (r, b) \<leftarrow> nbd_user_config_get D (w_calls w) nvram_name (uninit 256) 256;
     if r = NBD_SUCCESS then do {
       s \<leftarrow> read_str b;
       w \<leftarrow> web_hdf (ewf_hdf_set X (Some hdf_name) (Some s)) w;
       Some (EWF_SUCCESS, w) }
     else Some (EWF_ERROR, w) }"

definition status_to_hdf :: "'h ewf_ext \<Rightarrow> nbd_daemon \<Rightarrow> string \<Rightarrow> string \<Rightarrow> 'h web \<Rightarrow> (int \<times> 'h web) exec" where
  "status_to_hdf X D status_name hdf_name w = do {
     (r, b) \<leftarrow> nbd_status_get D (w_calls w) status_name (uninit 256) 256;
     if r = NBD_SUCCESS then do {
       s \<leftarrow> read_str b;
       w \<leftarrow> web_hdf (ewf_hdf_set X (Some hdf_name) (Some s)) w;
       Some (EWF_SUCCESS, w) }
     else Some (EWF_ERROR, w) }"

definition hdf_to_nv :: "'h ewf_ext \<Rightarrow> nbd_daemon \<Rightarrow> string \<Rightarrow> string \<Rightarrow> 'h web \<Rightarrow> (int \<times> 'h web) exec" where
  "hdf_to_nv X D hdf_name nvram_name w = do {
     (value, w) \<leftarrow> web_sget X hdf_name w;
     case value of Some v \<Rightarrow> web_call (nbd_user_config_set D nvram_name v) w
     | None \<Rightarrow> Some (NV_SET_ERROR, w) }"

text \<open>The calls of \<open>nv_to_hdf\<close> and \<open>status_to_hdf\<close> in a handler, whose result is not used.\<close>

fun nvs_to_hdf :: "'h ewf_ext \<Rightarrow> nbd_daemon \<Rightarrow> (string \<times> string) list \<Rightarrow> 'h handler" where
  "nvs_to_hdf X D [] w = Some w"
| "nvs_to_hdf X D ((n, v) # nvs) w = do { (_, w) \<leftarrow> nv_to_hdf X D n v w; nvs_to_hdf X D nvs w }"

fun statuses_to_hdf :: "'h ewf_ext \<Rightarrow> nbd_daemon \<Rightarrow> (string \<times> string) list \<Rightarrow> 'h handler" where
  "statuses_to_hdf X D [] w = Some w"
| "statuses_to_hdf X D ((n, v) # nvs) w = do { (_, w) \<leftarrow> status_to_hdf X D n v w; statuses_to_hdf X D nvs w }"

subsection \<open>Transactions\<close>

record trx =
  trx_id :: int
  sum_set_stat :: int

definition nv_trx_init :: "'h ewf_ext \<Rightarrow> nbd_daemon \<Rightarrow> 'h web \<Rightarrow> (int \<times> trx \<times> 'h web) exec" where
  "nv_trx_init X D w = do {
     (cid, h) \<leftarrow> nbd_user_config_cursor_new D (w_calls w);
     let w = w\<lparr>w_calls := h\<rparr>;
     let trx = \<lparr>trx_id = sint cid, sum_set_stat = 0\<rparr>;
     if trx_id trx \<le> 0 then Some (- 1, trx, upd_hdf (\<lambda>h. snd (ewf_hdf_form_set_error X ''system'' h)) w)
     else Some (0, trx, w) }"

definition nv_set_with_trx ::
  "'h ewf_ext \<Rightarrow> nbd_daemon \<Rightarrow> trx \<Rightarrow> string \<Rightarrow> string \<Rightarrow> string \<Rightarrow> 'h web \<Rightarrow> (int \<times> trx \<times> 'h web) exec" where
  "nv_set_with_trx X D trx nvname hdfname valuevar w = do {
     (ret, w) \<leftarrow> web_call (nbd_user_config_cset D (word_of_int (trx_id trx)) nvname valuevar) w;
     if ret = NV_SET_SUCCESS \<or> ret = NV_SET_UNCHANGED then Some (NV_SET_SUCCESS, trx, w)
     else if ret = NV_SET_INVALID_VALUE then do {
       w \<leftarrow> web_hdf (ewf_hdf_set_error X (Some hdfname) ''value'') w;
       Some (ret, trx\<lparr>sum_set_stat := - 1\<rparr>, w) }
     else Some (NV_SET_ERROR, trx, upd_hdf (\<lambda>h. snd (ewf_hdf_form_set_error X ''system'' h)) w) }"

definition nv_trx_commit :: "nbd_daemon \<Rightarrow> trx \<Rightarrow> 'h web \<Rightarrow> (int \<times> 'h web) exec" where
  "nv_trx_commit D trx w =
     (if sum_set_stat trx = - 1 then Some (NV_COMMIT_UNCHANGED, w)
      else web_call (nbd_user_config_cursor_commit D (word_of_int (trx_id trx))) w)"

definition nv_trx_close :: "nbd_daemon \<Rightarrow> trx \<Rightarrow> 'h web \<Rightarrow> (int \<times> 'h web) exec" where
  "nv_trx_close D trx w = web_call (nbd_user_config_cursor_close D (word_of_int (trx_id trx))) w"

definition NV_TRX_INIT :: "'h ewf_ext \<Rightarrow> nbd_daemon \<Rightarrow> (trx \<Rightarrow> 'h handler) \<Rightarrow> 'h handler" where
  "NV_TRX_INIT X D k w = do {
     (r, trx, w) \<leftarrow> nv_trx_init X D w;
     if r \<noteq> 0 then Some w else k trx w }"

definition NV_SET_WTRX ::
  "'h ewf_ext \<Rightarrow> nbd_daemon \<Rightarrow> trx \<Rightarrow> string \<Rightarrow> string \<Rightarrow> string \<Rightarrow> (trx \<Rightarrow> 'h handler) \<Rightarrow> 'h handler" where
  "NV_SET_WTRX X D trx nvname hdfname valuevar k w = do {
     (r, trx, w) \<leftarrow> nv_set_with_trx X D trx nvname hdfname valuevar w;
     if r = NV_SET_ERROR
     then map_option snd (nv_trx_close D trx w)
     else k trx w }"

definition NV_TRX_XCOMMIT :: "nbd_daemon \<Rightarrow> trx \<Rightarrow> (int \<Rightarrow> 'h handler) \<Rightarrow> 'h handler" where
  "NV_TRX_XCOMMIT D trx k w = do {
     (ret, w) \<leftarrow> nv_trx_commit D trx w;
     (_, w) \<leftarrow> nv_trx_close D trx w;
     k ret w }"

text \<open>A run of \<open>NV_SET_WTRX\<close>: configuration variable, name of the C variable, value.\<close>

fun nv_sets :: "'h ewf_ext \<Rightarrow> nbd_daemon \<Rightarrow> (string \<times> string \<times> string) list \<Rightarrow> trx \<Rightarrow> (trx \<Rightarrow> 'h handler) \<Rightarrow> 'h handler" where
  "nv_sets X D [] trx k w = k trx w"
| "nv_sets X D ((nv, var, val) # sets) trx k w = NV_SET_WTRX X D trx nv var val (\<lambda>trx. nv_sets X D sets trx k) w"

definition nv_transaction ::
  "'h ewf_ext \<Rightarrow> nbd_daemon \<Rightarrow> (string \<times> string \<times> string) list \<Rightarrow> (int \<Rightarrow> 'h handler) \<Rightarrow> 'h handler" where
  "nv_transaction X D sets k = NV_TRX_INIT X D (\<lambda>trx. nv_sets X D sets trx (\<lambda>trx. NV_TRX_XCOMMIT D trx k))"

subsection \<open>What a transaction does\<close>

definition set_code :: "nbd_daemon \<Rightarrow> calls \<Rightarrow> string list \<Rightarrow> int" where
  "set_code D h args = (if snd (D h args) = [] then fst (D h args) else - 1)"

definition cset_call :: "string \<Rightarrow> string \<times> string \<times> string \<Rightarrow> string list" where
  "cset_call c s = [''nvram'', ''cset'', c, fst s, snd (snd s)]"

definition cursor_call :: "string \<Rightarrow> string \<Rightarrow> string list" where
  "cursor_call c op = [''nvram'', ''cursor'', op, c]"

text \<open>The codes that the daemon gives to the settings of a transaction, one after the other.\<close>

fun cset_codes :: "nbd_daemon \<Rightarrow> string \<Rightarrow> calls \<Rightarrow> (string \<times> string \<times> string) list \<Rightarrow> int list" where
  "cset_codes D c h [] = []"
| "cset_codes D c h (s # ss) = set_code D h (cset_call c s) # cset_codes D c (h @ [cset_call c s]) ss"

definition soft :: "int \<Rightarrow> bool" where
  "soft r \<longleftrightarrow> r \<in> {NV_SET_SUCCESS, NV_SET_UNCHANGED, NV_SET_INVALID_VALUE}"

definition set_ok :: "string \<Rightarrow> string \<times> string \<times> string \<Rightarrow> bool" where
  "set_ok c s \<longleftrightarrow> query_fits (cset_call c s) \<and> NUL \<notin> set (fst (snd s))"

lemma cset_codes_length [simp]: "length (cset_codes D c h ss) = length ss"
  by (induction ss arbitrary: h) simp_all

lemma print_cursor [simp]: "print_num 16 (uint (cid :: u32)) = Some (dec_nat (unat cid))"
proof -
  have "unat cid < 10 ^ 10" using unat_u32_less [of cid] by simp
  then have l: "length (dec_nat (unat cid)) \<le> 10" by (rule dec_nat_length) simp
  have "dec_int (uint cid) = dec_nat (unat cid)" by (simp add: dec_int_def)
  moreover have "snprintf (replicate 16 (CHR 0xFF)) 16 (dec_nat (unat cid)) =
      Some (int (length (dec_nat (unat cid))), dec_nat (unat cid) @ NUL # replicate (15 - length (dec_nat (unat cid))) (CHR 0xFF))"
    using l by (simp add: snprintf_def blit_def)
  ultimately show ?thesis by (simp add: print_num_def)
qed

lemma web_call_set: "query_fits args \<Longrightarrow> web_call (nbd_set D args) w = Some (set_code D (w_calls w) args, w\<lparr>w_calls := w_calls w @ [args]\<rparr>)"
proof -
  assume "query_fits args"
  then have "nbd_set D args (w_calls w) = Some (set_code D (w_calls w) args, w_calls w @ [args])"
    by (simp add: nbd_set_Some set_code_def)
  then show ?thesis by (simp add: web_call_def)
qed

lemma calls_upd_hdf [simp]: "w_calls (upd_hdf f w) = w_calls w"
  by (simp add: upd_hdf_def)

lemma web_hdf_calls: "web_hdf f w = Some w' \<Longrightarrow> w_calls w' = w_calls w"
  by (auto simp: web_hdf_def bind_Some_iff)

lemma web_sget_calls: "web_sget X n w = Some (v, w') \<Longrightarrow> w_calls w' = w_calls w"
  by (auto simp: web_sget_def bind_Some_iff)

lemma set_error_calls:
  assumes "NUL \<notin> set n"
  obtains w' where "web_hdf (ewf_hdf_set_error X (Some n) e) w = Some w'" and "w_calls w' = w_calls w"
proof -
  have "NUL \<notin> set (''Var.'' @ n @ ''.Error'')" using assms by simp
  then obtain r m where "bprintf 256 (''Var.'' @ n @ ''.Error'') = Some (r, m)" by (simp add: bprintf_ok del: append.simps)
  then show ?thesis using that
    by (cases "hdf_get_value X (w_hdf w) m") (auto simp: web_hdf_def ewf_hdf_set_error_def Let_def)
qed

lemma nv_set_run:
  assumes ok: "set_ok c s" and c: "c = dec_nat (unat (cid :: u32))" and t: "trx_id trx = sint cid"
    and r_def: "r = set_code D (w_calls w) (cset_call c s)"
  obtains w' trx' where "nv_set_with_trx X D trx (fst s) (fst (snd s)) (snd (snd s)) w =
      Some (if r \<in> {0, 1} then 0 else if r = - 4 then - 4 else - 1, trx', w')"
    and "w_calls w' = w_calls w @ [cset_call c s]" and "trx' = (if r = - 4 then trx\<lparr>sum_set_stat := - 1\<rparr> else trx)"
proof -
  let ?w = "w\<lparr>w_calls := w_calls w @ [cset_call c s]\<rparr>"
  have "web_call (nbd_user_config_cset D cid (fst s) (snd (snd s))) w = web_call (nbd_set D (cset_call c s)) w"
    by (simp add: web_call_def nbd_user_config_cset_def cset_call_def c)
  also have "\<dots> = Some (r, ?w)" using ok web_call_set [of "cset_call c s" D w] by (simp add: set_ok_def r_def)
  finally have call: "web_call (nbd_user_config_cset D cid (fst s) (snd (snd s))) w = Some (r, ?w)" .
  obtain w2 where "web_hdf (ewf_hdf_set_error X (Some (fst (snd s))) ''value'') ?w = Some w2" "w_calls w2 = w_calls ?w"
    using ok set_error_calls [of "fst (snd s)" X "''value''" ?w] by (auto simp: set_ok_def)
  then show ?thesis
    using call t that [of trx ?w] that [of "trx\<lparr>sum_set_stat := - 1\<rparr>" w2]
      that [of trx "upd_hdf (\<lambda>h. snd (ewf_hdf_form_set_error X ''system'' h)) ?w"]
    by (cases "r = - 4"; cases "r \<in> {0, 1}") (auto simp: nv_set_with_trx_def)
qed

lemma cursor_fits:
  assumes "c = dec_nat (unat (cid :: u32))" and "length op \<le> 6"
  shows "query_fits (cursor_call c op)"
proof -
  have "unat cid < 10 ^ 10" using unat_u32_less [of cid] by simp
  then have "length c \<le> 10" unfolding assms(1) by (rule dec_nat_length) simp
  then show ?thesis using assms(2) by (simp add: query_fits_def query_room_def cursor_call_def)
qed

lemma nv_close_run:
  assumes "c = dec_nat (unat (cid :: u32))" and "trx_id trx = sint cid"
  shows "nv_trx_close D trx w =
    Some (set_code D (w_calls w) (cursor_call c ''close''), w\<lparr>w_calls := w_calls w @ [cursor_call c ''close'']\<rparr>)"
proof -
  have "nv_trx_close D trx w = web_call (nbd_set D (cursor_call c ''close'')) w"
    using assms by (simp add: nv_trx_close_def web_call_def nbd_user_config_cursor_close_def cursor_call_def)
  then show ?thesis using assms by (simp add: web_call_set cursor_fits)
qed

lemma nv_commit_run:
  assumes "c = dec_nat (unat (cid :: u32))" and "trx_id trx = sint cid" and "sum_set_stat trx \<noteq> - 1"
  shows "nv_trx_commit D trx w =
    Some (set_code D (w_calls w) (cursor_call c ''commit''), w\<lparr>w_calls := w_calls w @ [cursor_call c ''commit'']\<rparr>)"
proof -
  have "nv_trx_commit D trx w = web_call (nbd_set D (cursor_call c ''commit'')) w"
    using assms by (simp add: nv_trx_commit_def web_call_def nbd_user_config_cursor_commit_def cursor_call_def)
  then show ?thesis using assms by (simp add: web_call_set cursor_fits)
qed

text \<open>A run of settings stops at the first failure with the cursor closed, or reaches the rest of the handler.\<close>

lemma nv_sets_run:
  assumes "\<forall>s \<in> set ss. set_ok c s" and c: "c = dec_nat (unat (cid :: u32))" and "trx_id trx = sint cid"
    and codes: "codes = cset_codes D c (w_calls w) ss"
  shows "(\<exists>m w'. m < length ss \<and> \<not> soft (codes ! m) \<and> (\<forall>i < m. soft (codes ! i)) \<and> nv_sets X D ss trx k w = Some w' \<and>
      w_calls w' = w_calls w @ map (cset_call c) (take (Suc m) ss) @ [cursor_call c ''close'']) \<or>
    (\<exists>w'. (\<forall>r \<in> set codes. soft r) \<and> w_calls w' = w_calls w @ map (cset_call c) ss \<and>
      nv_sets X D ss trx k w = k (if - 4 \<in> set codes then trx\<lparr>sum_set_stat := - 1\<rparr> else trx) w')"
  using assms(1,3) unfolding codes
proof (induction ss arbitrary: trx w)
  case (Cons s ss)
  let ?r = "set_code D (w_calls w) (cset_call c s)"
  obtain w1 trx1 where s: "nv_set_with_trx X D trx (fst s) (fst (snd s)) (snd (snd s)) w =
      Some (if ?r \<in> {0, 1} then 0 else if ?r = - 4 then - 4 else - 1, trx1, w1)"
    and w1: "w_calls w1 = w_calls w @ [cset_call c s]" and t1: "trx1 = (if ?r = - 4 then trx\<lparr>sum_set_stat := - 1\<rparr> else trx)"
    using nv_set_run [OF _ c Cons.prems(2) refl, where s = s and D = D and w = w and X = X and thesis = thesis] Cons.prems(1) by auto
  have id: "trx_id trx1 = sint cid" using Cons.prems(2) t1 by simp
  have step: "nv_sets X D (s # ss) trx k w =
      (if soft ?r then nv_sets X D ss trx1 k w1 else map_option snd (nv_trx_close D trx1 w1))"
    using s by (cases s) (auto simp: NV_SET_WTRX_def soft_def)
  show ?case
  proof (cases "soft ?r")
    case False
    then show ?thesis
      using step nv_close_run [OF c id, of D w1] w1 by (intro disjI1 exI [of _ 0]) simp
  next
    case True
    let ?codes = "cset_codes D c (w_calls w1) ss"
    from Cons.IH [OF _ id, of w1] Cons.prems(1)
    consider m w' where "m < length ss" "\<not> soft (?codes ! m)" "\<forall>i < m. soft (?codes ! i)" "nv_sets X D ss trx1 k w1 = Some w'"
        "w_calls w' = w_calls w1 @ map (cset_call c) (take (Suc m) ss) @ [cursor_call c ''close'']"
      | w' where "\<forall>r \<in> set ?codes. soft r" "w_calls w' = w_calls w1 @ map (cset_call c) ss"
        "nv_sets X D ss trx1 k w1 = k (if - 4 \<in> set ?codes then trx1\<lparr>sum_set_stat := - 1\<rparr> else trx1) w'"
      by auto
    then show ?thesis
    proof cases
      case 1
      then show ?thesis
        using True step w1 by (intro disjI1 exI [of _ "Suc m"] exI [of _ w']) (auto simp: less_Suc_eq_0_disj)
    next
      case 2
      then show ?thesis using True step w1 t1 by (intro disjI2 exI [of _ w']) auto
    qed
  qed
qed auto

lemma transaction_run:
  assumes new: "nbd_user_config_cursor_new D (w_calls w) = Some (cid, h)" and pos: "0 < sint cid"
    and c: "c = dec_nat (unat cid)" and ok: "\<forall>s \<in> set ss. set_ok c s"
    and codes: "codes = cset_codes D c h ss"
  obtains m w' where "m < length ss" and "\<not> soft (codes ! m)" and "\<forall>i < m. soft (codes ! i)"
      and "nv_transaction X D ss k w = Some w'"
      and "w_calls w' = h @ map (cset_call c) (take (Suc m) ss) @ [cursor_call c ''close'']"
  | w' where "\<forall>r \<in> set codes. soft r" and "- 4 \<in> set codes" and "nv_transaction X D ss k w = k NV_COMMIT_UNCHANGED w'"
      and "w_calls w' = h @ map (cset_call c) ss @ [cursor_call c ''close'']"
  | w' where "set codes \<subseteq> {0, 1}"
      and "nv_transaction X D ss k w = k (set_code D (h @ map (cset_call c) ss) (cursor_call c ''commit'')) w'"
      and "w_calls w' = h @ map (cset_call c) ss @ [cursor_call c ''commit'', cursor_call c ''close'']"
proof -
  let ?w = "w\<lparr>w_calls := h\<rparr>" and ?trx = "\<lparr>trx_id = sint cid, sum_set_stat = 0\<rparr>"
  let ?k = "\<lambda>trx. NV_TRX_XCOMMIT D trx k"
  have run: "nv_transaction X D ss k w = nv_sets X D ss ?trx ?k ?w"
    using new pos by (simp add: nv_transaction_def NV_TRX_INIT_def nv_trx_init_def)
  have "codes = cset_codes D c (w_calls ?w) ss" using codes by simp
  from nv_sets_run [OF ok c _ this, of ?trx X ?k]
  consider m w' where "m < length ss" "\<not> soft (codes ! m)" "\<forall>i < m. soft (codes ! i)"
      "nv_sets X D ss ?trx ?k ?w = Some w'" "w_calls w' = h @ map (cset_call c) (take (Suc m) ss) @ [cursor_call c ''close'']"
    | w' where "\<forall>r \<in> set codes. soft r" "w_calls w' = h @ map (cset_call c) ss"
      "nv_sets X D ss ?trx ?k ?w = ?k (if - 4 \<in> set codes then ?trx\<lparr>sum_set_stat := - 1\<rparr> else ?trx) w'"
    by auto
  then show ?thesis
  proof cases
    case 1
    then show ?thesis using run that(1) by simp
  next
    case 2
    let ?bad = "?trx\<lparr>sum_set_stat := - 1\<rparr>"
    have close: "nv_trx_close D t v = Some (set_code D (w_calls v) (cursor_call c ''close''),
        v\<lparr>w_calls := w_calls v @ [cursor_call c ''close'']\<rparr>)" if "trx_id t = sint cid" for t and v :: "'a web"
      by (rule nv_close_run [OF c that])
    show ?thesis
    proof (cases "- 4 \<in> set codes")
      case True
      with 2 run have "nv_transaction X D ss k w = k NV_COMMIT_UNCHANGED (w'\<lparr>w_calls := w_calls w' @ [cursor_call c ''close'']\<rparr>)"
        by (simp add: NV_TRX_XCOMMIT_def nv_trx_commit_def close)
      with 2 True show ?thesis using that(2) by simp
    next
      case False
      with 2 run nv_commit_run [OF c, of ?trx D w']
      have "nv_transaction X D ss k w = k (set_code D (h @ map (cset_call c) ss) (cursor_call c ''commit''))
          (w'\<lparr>w_calls := w_calls w' @ [cursor_call c ''commit'', cursor_call c ''close'']\<rparr>)"
        by (simp add: NV_TRX_XCOMMIT_def close)
      moreover have "set codes \<subseteq> {0, 1}" using 2(1) False by (auto simp: soft_def)
      ultimately show ?thesis using 2 that(3) by simp
    qed
  qed
qed

text \<open>
  C20: A transaction of a page is all or nothing.  The daemon is asked to commit exactly when it
  accepted every setting.  An invalid value leaves the other settings uncommitted and the page
  sees \<open>NV_COMMIT_UNCHANGED\<close>; any other failure ends the page at once.  In every case the cursor is
  closed by the last call.
\<close>

theorem transaction_all_or_nothing:
  assumes "nbd_user_config_cursor_new D (w_calls w) = Some (cid, h)" and "0 < sint cid"
    and "\<forall>s \<in> set ss. set_ok (dec_nat (unat cid)) s"
  shows "\<exists>w' body. w_calls w' = h @ body @ [cursor_call (dec_nat (unat cid)) ''close''] \<and>
    (cursor_call (dec_nat (unat cid)) ''commit'' \<in> set body \<longleftrightarrow> set (cset_codes D (dec_nat (unat cid)) h ss) \<subseteq> {0, 1}) \<and>
    (if \<exists>r \<in> set (cset_codes D (dec_nat (unat cid)) h ss). \<not> soft r then nv_transaction X D ss k w = Some w'
     else if - 4 \<in> set (cset_codes D (dec_nat (unat cid)) h ss) then nv_transaction X D ss k w = k NV_COMMIT_UNCHANGED w'
     else nv_transaction X D ss k w = k (set_code D (h @ map (cset_call (dec_nat (unat cid))) ss) (cursor_call (dec_nat (unat cid)) ''commit'')) w')"
proof -
  let ?c = "dec_nat (unat cid)"
  let ?codes = "cset_codes D ?c h ss"
  have nc: "cursor_call ?c ''commit'' \<notin> set (map (cset_call ?c) ts)" for ts by (auto simp: cursor_call_def cset_call_def)
  show ?thesis
  proof (rule transaction_run [OF assms(1,2) refl assms(3) refl, where X = X and k = k])
    fix m w' assume 1: "m < length ss" "\<not> soft (?codes ! m)" "nv_transaction X D ss k w = Some w'"
      "w_calls w' = h @ map (cset_call ?c) (take (Suc m) ss) @ [cursor_call ?c ''close'']"
    then have "?codes ! m \<in> set ?codes" by simp
    with 1 nc [of "take (Suc m) ss"] show ?thesis
      by (intro exI [of _ w'] exI [of _ "map (cset_call ?c) (take (Suc m) ss)"]) (auto simp: soft_def)
  next
    fix w' assume 2: "\<forall>r \<in> set ?codes. soft r" "- 4 \<in> set ?codes" "nv_transaction X D ss k w = k NV_COMMIT_UNCHANGED w'"
      "w_calls w' = h @ map (cset_call ?c) ss @ [cursor_call ?c ''close'']"
    with nc [of ss] show ?thesis by (intro exI [of _ w'] exI [of _ "map (cset_call ?c) ss"]) auto
  next
    fix w' assume "set ?codes \<subseteq> {0, 1}"
      "nv_transaction X D ss k w = k (set_code D (h @ map (cset_call ?c) ss) (cursor_call ?c ''commit'')) w'"
      "w_calls w' = h @ map (cset_call ?c) ss @ [cursor_call ?c ''commit'', cursor_call ?c ''close'']"
    then show ?thesis
      by (intro exI [of _ w'] exI [of _ "map (cset_call ?c) ss @ [cursor_call ?c ''commit'']"]) (auto simp: soft_def)
  qed
qed

text \<open>A daemon for the examples: cursors are numbered 7, and \<open>bad\<close> is an invalid value.\<close>

definition ex_daemon :: nbd_daemon where
  "ex_daemon h args = (if args = [''nvram'', ''cursor'', ''new''] then (0, ''7'' @ [NUL])
     else if args ! 1 = ''cset'' \<and> last args = ''bad'' then (- 4, []) else (0, []))"

lemma ex_cursor_new: "nbd_user_config_cursor_new ex_daemon h = Some (7, h @ [[''nvram'', ''cursor'', ''new'']])"
proof -
  have "query_fits [''nvram'', ''cursor'', ''new'']" by (simp add: query_fits_def query_room_def)
  then have "nbd_get ex_daemon h [''nvram'', ''cursor'', ''new''] (replicate 16 (CHR 0xFF)) 16 =
      Some (0, ''7'' @ NUL # replicate 14 NUL)"
    by (simp add: nbd_get_Some ex_daemon_def answer_spec_def)
  moreover have "read_str (''7'' @ NUL # replicate 14 NUL) = Some ''7''" by (rule read_str_append_NUL) simp
  moreover have "strtol 10 ''7'' = (7, [], False)" by code_simp
  ultimately show ?thesis by (simp add: nbd_user_config_cursor_new_def nbd_get_count_def)
qed

theorem transaction_all_or_nothing_witness:
  "\<exists>w' body. w_calls w' = [[''nvram'', ''cursor'', ''new'']] @ body @ [cursor_call ''7'' ''close''] \<and>
    cursor_call ''7'' ''commit'' \<notin> set body \<and>
    nv_transaction ex_ext ex_daemon [(''ppp_login'', ''ppp_login'', ''bad''), (''ipv6_enable'', ''ipv6_enable'', ''on'')]
      (\<lambda>r. Some) (ex_web 9 []) = Some w'"
proof -
  let ?ss = "[(''ppp_login'', ''ppp_login'', ''bad''), (''ipv6_enable'', ''ipv6_enable'', ''on'')]"
  have d: "dec_nat (unat (7 :: u32)) = ''7''" by code_simp
  have new: "nbd_user_config_cursor_new ex_daemon (w_calls (ex_web 9 [])) = Some (7, [[''nvram'', ''cursor'', ''new'']])"
    by (simp add: ex_cursor_new ex_web_def)
  have ok: "\<forall>s \<in> set ?ss. set_ok (dec_nat (unat (7 :: u32))) s"
    unfolding d by (simp add: set_ok_def query_fits_def query_room_def cset_call_def)
  have "cset_codes ex_daemon ''7'' [[''nvram'', ''cursor'', ''new'']] ?ss = [- 4, 0]"
    by (simp add: cset_call_def set_code_def ex_daemon_def)
  with transaction_all_or_nothing [OF new _ ok, of ex_ext "\<lambda>r. Some", unfolded d] show ?thesis
    by (simp add: soft_def)
qed

end
