(* ===== verification/Www_Login.thy ===== *)
theory Www_Login
  imports Www_Dbl
begin

text \<open>
  The web application: its hooks into libewf (\<open>main.c\<close>), the log-in and log-out pages
  (\<open>wui/login.c\<close>, \<open>wui/logout.c\<close>) and the helpers of \<open>nbl_utils.c\<close>, under \<open>efixo-www/src/src\<close>, for
  the boxes where \<open>CIBOX\<close> is not defined.

  The lemmas follow a challenge through the log-in page: the page publishes the identifier of a session
  that is not activated, and access control does not look at the activation.
\<close>

abbreviation (input) WEBAPP_SMITH_AUTOLOGIN_OFF :: int where "WEBAPP_SMITH_AUTOLOGIN_OFF \<equiv> - 500"
abbreviation (input) WEBAPP_URI_UPGRADING :: string where "WEBAPP_URI_UPGRADING \<equiv> ''/upgrading''"

subsection \<open>\<open>nbl_utils.c\<close>\<close>

definition nbl_utils_box_upgrading :: "nbd_daemon \<Rightarrow> calls \<Rightarrow> int exec" where
  "nbl_utils_box_upgrading D h = do {
     (ret, b) \<leftarrow> nbd_autoconf_get D h ''status'' (replicate 256 NUL) 256;
     if ret = NBD_SUCCESS then do {
       s \<leftarrow> read_str b;
       Some (if nbu_string_matches s ''downloading'' = NBU_STRING_EQUAL \<or> nbu_string_matches s ''burning'' = NBU_STRING_EQUAL
             then NBU_SUCCESS else NBU_ERROR) }
     else Some ret }"

record nbl_utils_ltime_t =
  lt_sec :: int
  lt_min :: int
  lt_hour :: int
  lt_day :: int

text \<open>Division and remainder of C truncate towards zero.\<close>

definition c_div :: "int \<Rightarrow> int \<Rightarrow> int" where
  "c_div a b = sgn a * (\<bar>a\<bar> div b)"

definition c_mod :: "int \<Rightarrow> int \<Rightarrow> int" where
  "c_mod a b = a - c_div a b * b"

definition nbl_utils_timestamp2ltime :: "int \<Rightarrow> nbl_utils_ltime_t option \<Rightarrow> int \<times> nbl_utils_ltime_t option" where
  "nbl_utils_timestamp2ltime ts ltm = (case ltm of None \<Rightarrow> (NBU_ERROR, None)
     | Some _ \<Rightarrow> (NBU_SUCCESS, Some \<lparr>lt_sec = c_mod ts 60, lt_min = c_mod (c_div ts 60) 60,
         lt_hour = c_mod (c_div (c_div ts 60) 60) 24, lt_day = c_div (c_div (c_div ts 60) 60) 24\<rparr>))"

fun strcut_loop :: "string \<Rightarrow> char \<Rightarrow> nat \<Rightarrow> nat option \<Rightarrow> nat option" where
  "strcut_loop [] cr i icr = icr"
| "strcut_loop (c # cs) cr i icr = strcut_loop cs cr (Suc i) (if c = cr then Some i else icr)"

definition nbl_utils_strcut :: "string \<Rightarrow> char \<Rightarrow> buf \<Rightarrow> u32 \<Rightarrow> buf \<Rightarrow> u32 \<Rightarrow> (int \<times> buf \<times> buf) exec" where
  "nbl_utils_strcut str cr buf1 buf1_size buf2 buf2_size = do {
     ((_, b1), (_, b2)) \<leftarrow> (case strcut_loop str cr 0 None of
         Some icr \<Rightarrow> do {
           r1 \<leftarrow> nbu_string_printf (Some buf1) buf1_size (Some (take icr str));
           r2 \<leftarrow> nbu_string_copy (Some buf2) buf2_size (Some (drop (icr + 1) str));
           Some (r1, r2) }
       | None \<Rightarrow> do {
           r1 \<leftarrow> nbu_string_copy (Some buf1) buf1_size (Some str);
           r2 \<leftarrow> nbu_string_copy (Some buf2) buf2_size (Some []);
           Some (r1, r2) });
     b1 \<leftarrow> b1;
     b2 \<leftarrow> b2;
     Some (NBU_SUCCESS, b1, b2) }"

subsection \<open>\<open>main.c\<close>\<close>

definition webapp_config_set :: "nbd_daemon \<Rightarrow> string \<Rightarrow> string \<Rightarrow> calls \<Rightarrow> (int \<times> calls) exec" where
  "webapp_config_set D name value h = do {
     (r, h) \<leftarrow> nbd_user_config_set D name value h;
     Some (if r < NBD_SUCCESS then EWF_ERROR else EWF_SUCCESS, h) }"

definition webapp_alt_login :: "nbd_daemon \<Rightarrow> calls \<Rightarrow> addr \<Rightarrow> string \<Rightarrow> 'h ewf_state \<Rightarrow> (int \<times> 'h ewf_state) exec" where
  "webapp_alt_login D h session method st =
     (if nbu_string_matches method ''button'' = NBU_STRING_EQUAL then do {
        on \<leftarrow> nbd_status_matches D h ''web_autologin'' ''on'';
        Some (if on then EWF_SMITH_LOGIN_SUCCESS else WEBAPP_SMITH_AUTOLOGIN_OFF, st) }
      else Some (EWF_SMITH_LOGIN_METHOD_NOT_ALLOWED, st))"

definition webapp_matrix :: "nbd_daemon \<Rightarrow> calls \<Rightarrow> 'h ewf_matrix_ops" where
  "webapp_matrix D h = \<lparr>conf_get = Some (nbd_user_config_get D h), conf_set = Some (webapp_config_set D),
     login_alt_method = Some (webapp_alt_login D h)\<rparr>"

definition webapp_pre_dispatch :: "'h ewf_ext \<Rightarrow> nbd_daemon \<Rightarrow> ewf_request_t \<Rightarrow> 'h web \<Rightarrow> (ewf_request_t \<times> 'h web) exec" where
  "webapp_pre_dispatch X D request w = do {
     r \<leftarrow> nbl_utils_box_upgrading D (w_calls w);
     if r = 0 then do {
       w \<leftarrow> web_hdf (ewf_hdf_set X (Some ''old_uri'') (r_uri request)) w;
       Some (request\<lparr>r_uri := Some WEBAPP_URI_UPGRADING\<rparr>, w) }
     else Some (request, w) }"

text \<open>
  The parts of a page name between slashes, at most two, as \<open>Page.Name.Parent\<close> and
  \<open>Page.Name.Child\<close>; \<open>rest\<close> is the name from \<open>nodename\<close> on.  The loop ends when \<open>p\<close> stands on
  the terminating NUL.
\<close>

fun name_parts :: "string list \<Rightarrow> string \<Rightarrow> (string \<times> string) list" where
  "name_parts [] rest = []"
| "name_parts (k # ks) rest = (let part = takeWhile (\<lambda>c. c \<noteq> CHR ''/'') rest in
     (k, part) # (if length part < length rest then name_parts ks (drop (length part + 1) rest) else []))"

fun set_parts :: "'h ewf_ext \<Rightarrow> (string \<times> string) list \<Rightarrow> 'h handler" where
  "set_parts X [] w = Some w"
| "set_parts X ((k, part) # ps) w = do {
     (_, b) \<leftarrow> bprintf 32 part;
     w \<leftarrow> web_hdf (ewf_hdf_set_env X k b) w;
     set_parts X ps w }"

text \<open>The arrays of \<open>net_data_access\<close> and \<open>net_voip_access\<close> are read even when the daemon did not answer.\<close>

definition webapp_pre_render :: "'h ewf_ext \<Rightarrow> 'h cgi_ext \<Rightarrow> nbd_daemon \<Rightarrow> ewf_request_t \<Rightarrow> 'h ewf_page_t \<Rightarrow> 'h handler" where
  "webapp_pre_render X C D request page w =
     (if r_type request = ajax_request then Some w
      else do {
        (_, l) \<leftarrow> ewf_config_get (webapp_matrix D (w_calls w) :: 'h ewf_matrix_ops) ''web_lang'' (uninit 8) 8;
        lang \<leftarrow> read_str l;
        (_, b) \<leftarrow> bprintf 32 (''lng/'' @ lang @ ''/menu.hdf'');
        let w = ewf_hdf_read_file C b w;
        w \<leftarrow> web_hdf (ewf_hdf_set_env X ''Page.Name'' (p_name page)) w;
        let nodename = (if take 1 (p_name page) = ''/'' then drop 1 (p_name page) else p_name page);
        w \<leftarrow> set_parts X (if nodename = [] then [] else name_parts [''Page.Name.Parent'', ''Page.Name.Child''] nodename) w;
        w \<leftarrow> statuses_to_hdf X D [(''net_data_ipaddr'', ''Sys.IPAddress''), (''version_mainfirmware'', ''Sys.FirmwareVersion''),
              (''mac_addr'', ''Sys.MACAddress'')] w;
        w \<leftarrow> nvs_to_hdf X D [(''ipv6_enable'', ''ipv6_enable'')] w;
        w \<leftarrow> statuses_to_hdf X D [(''ipv6_lock'', ''ipv6_lock''), (''ipv6_status'', ''ipv6_status'')] w;
        (_, data) \<leftarrow> nbd_status_get D (w_calls w) ''net_data_access'' (uninit 16) 16;
        (_, voip) \<leftarrow> nbd_status_get D (w_calls w) ''net_voip_access'' (uninit 16) 16;
        net_data_access \<leftarrow> read_str data;
        net_voip_access \<leftarrow> read_str voip;
        (_, b) \<leftarrow> snprintf (replicate 32 NUL) 32
          (if strcmp net_data_access net_voip_access = 0 then net_data_access else net_data_access @ net_voip_access);
        s \<leftarrow> read_str b;
        web_hdf (ewf_hdf_set X (Some ''Sys.NetInfraExtra'') (Some s)) w })"

definition webapp_hooks :: "'h ewf_ext \<Rightarrow> 'h cgi_ext \<Rightarrow> nbd_daemon \<Rightarrow> 'h matrix_hooks" where
  "webapp_hooks X C D = \<lparr>pre_dispatch = Some (webapp_pre_dispatch X D), pre_render = Some (webapp_pre_render X C D)\<rparr>"

subsection \<open>\<open>wui/login.c\<close>\<close>

definition login_display :: "'h ewf_ext \<Rightarrow> nbd_daemon \<Rightarrow> 'h handler" where
  "login_display X D w = do {
     (page_ref, w) \<leftarrow> web_sget X ''page_ref'' w;
     w \<leftarrow> (case page_ref of Some p \<Rightarrow> web_hdf (ewf_hdf_set_env X ''Page.Referer'' p) w | None \<Rightarrow> Some w);
     w \<leftarrow> nvs_to_hdf X D [(''web_auth'', ''method'')] w;
     statuses_to_hdf X D [(''web_autologin'', ''web_auth_button_status'')] w }"

definition login_error :: "int \<Rightarrow> string" where
  "login_error ret =
     (if ret = EWF_SMITH_LOGIN_INVALID_ARGS then ''LOGINORPASS_INVALID''
      else if ret = EWF_SMITH_LOGIN_INVALID_SESSION then ''SESSION_INVALID''
      else if ret = EWF_SMITH_LOGIN_METHOD_NOT_ALLOWED then ''METHOD_NOT_ALLOWED''
      else if ret = WEBAPP_SMITH_AUTOLOGIN_OFF then ''AUTOLOGIN_OFF''
      else ''SYSTEM_ERROR'')"

definition login_form :: "'h ewf_ext \<Rightarrow> nbd_daemon \<Rightarrow> timeval option \<Rightarrow> u8 list option \<Rightarrow> timeval \<Rightarrow> 'h handler" where
  "login_form X D time rdm tv w = do {
     (page_ref, w) \<leftarrow> web_sget X ''page_ref'' w;
     (_, page_ref_norm) \<leftarrow> bcopy 64 (case page_ref of Some p \<Rightarrow> if strcmp p URI_PAGE_LOGIN \<noteq> 0 then p else URI_PAGE_LOGIN
                                      | None \<Rightarrow> URI_PAGE_LOGIN);
     (ret, st) \<leftarrow> ewf_smith_login X (webapp_matrix D (w_calls w)) time rdm tv (w_st w);
     let w = w\<lparr>w_st := st\<rparr>;
     if ret = EWF_SMITH_LOGIN_SUCCESS then do {
       w \<leftarrow> web_do (nbd_halt_webautologin D) w;
       Some (ewf_utils_redirect page_ref_norm w) }
     else do {
       w \<leftarrow> web_hdf (ewf_hdf_set_env X ''Page.Referer'' page_ref_norm) w;
       web_hdf (ewf_hdf_set X (Some ''Error.login'') (Some (login_error ret))) w } }"

definition login_challenge :: "'h ewf_ext \<Rightarrow> timeval option \<Rightarrow> u8 list option \<Rightarrow> 'h handler" where
  "login_challenge X time rdm w = do {
     (z, m) \<leftarrow> ewf_session_create time rdm (e_mem (w_st w));
     let w = w\<lparr>w_st := set_e_mem m (w_st w)\<rparr>;
     if z = 0 then Some w
     else do {
       (r, ss) \<leftarrow> ewf_session_list_add z (e_sess (w_st w));
       let w = w\<lparr>w_st := (w_st w)\<lparr>e_sess := ss\<rparr>\<rparr>;
       if r = EWF_SUCCESS then do {
         i \<leftarrow> session_id z (w_st w);
         web_hdf (ewf_hdf_set X (Some ''challenge'') (Some i)) w }
       else do {
         st \<leftarrow> free_session True z (w_st w);
         Some (w\<lparr>w_st := st\<rparr>) } } }"

definition login_autologin :: "'h ewf_ext \<Rightarrow> nbd_daemon \<Rightarrow> 'h handler" where
  "login_autologin X D w = do {
     (r, b) \<leftarrow> nbd_status_get D (w_calls w) ''web_autologin'' (w_buffer w) 256;
     let w = w\<lparr>w_buffer := b\<rparr>;
     if r = NBD_SUCCESS then do {
       s \<leftarrow> read_str b;
       web_hdf (ewf_hdf_set X (Some ''autologin'') (Some s)) w }
     else Some w }"

definition login_ajax :: "'h ewf_ext \<Rightarrow> 'h cgi_ext \<Rightarrow> nbd_daemon \<Rightarrow> timeval option \<Rightarrow> u8 list option \<Rightarrow> 'h handler" where
  "login_ajax X C D time rdm w = do {
     let w = ewf_hdf_cgi_parse C w;
     (action, w) \<leftarrow> web_sget X ''action'' w;
     case action of
       Some a \<Rightarrow>
         if nbu_string_matches a ''challenge'' = NBU_STRING_EQUAL then do {
           w \<leftarrow> web_hdf (ewf_hdf_set X (Some ''action'') (Some a)) w;
           login_challenge X time rdm w }
         else login_autologin X D w
     | None \<Rightarrow> login_autologin X D w }"

definition login_page ::
  "'h ewf_ext \<Rightarrow> 'h cgi_ext \<Rightarrow> nbd_daemon \<Rightarrow> timeval option \<Rightarrow> u8 list option \<Rightarrow> timeval \<Rightarrow> 'h ewf_page_t" where
  "login_page X C D time rdm tv = \<lparr>p_name = ''/login'', p_access_policy = EWF_ACCESS_PUBLIC,
     p_display_handler = Some (login_display X D), p_form_handler = Some (login_form X D time rdm tv),
     p_ajax_handler = Some (login_ajax X C D time rdm)\<rparr>"

subsection \<open>\<open>wui/logout.c\<close>\<close>

definition logout_display :: "'h ewf_ext \<Rightarrow> 'h handler" where
  "logout_display X w = do {
     (_, st) \<leftarrow> ewf_smith_logout X (w_st w);
     Some (ewf_utils_redirect URI_PAGE_INDEX (w\<lparr>w_st := st\<rparr>)) }"

definition logout_page :: "'h ewf_ext \<Rightarrow> 'h ewf_page_t" where
  "logout_page X = \<lparr>p_name = ''/logout'', p_access_policy = EWF_ACCESS_PUBLIC,
     p_display_handler = Some (logout_display X), p_form_handler = None, p_ajax_handler = None\<rparr>"

subsection \<open>Seconds, minutes, hours and days\<close>

lemma split_60_60_24:
  assumes "0 \<le> (ts :: int)"
  defines "m \<equiv> c_div ts 60"
  defines "h \<equiv> c_div m 60"
  shows "ts = 86400 * c_div h 24 + 3600 * c_mod h 24 + 60 * c_mod m 60 + c_mod ts 60 \<and> 0 \<le> c_mod ts 60 \<and> c_mod ts 60 < 60 \<and>
    0 \<le> c_mod m 60 \<and> c_mod m 60 < 60 \<and> 0 \<le> c_mod h 24 \<and> c_mod h 24 < 24 \<and> 0 \<le> c_div h 24"
proof -
  have d: "c_div a b = a div b" and m: "c_mod a b = a mod b" if "0 \<le> a" "0 < b" for a b
    using that by (simp_all add: c_div_def c_mod_def sgn_if minus_div_mult_eq_mod)
  have n: "0 \<le> m" "0 \<le> h" using assms(1) by (simp_all add: m_def h_def d pos_imp_zdiv_nonneg_iff)
  have "ts = 60 * m + c_mod ts 60" "m = 60 * h + c_mod m 60" "h = 24 * c_div h 24 + c_mod h 24"
    using n assms(1) by (simp_all add: c_mod_def m_def h_def)
  moreover have "0 \<le> c_mod ts 60 \<and> c_mod ts 60 < 60" "0 \<le> c_mod m 60 \<and> c_mod m 60 < 60" "0 \<le> c_mod h 24 \<and> c_mod h 24 < 24" "0 \<le> c_div h 24"
    using n assms(1) by (simp_all add: m d pos_imp_zdiv_nonneg_iff)
  ultimately show ?thesis by linarith
qed

text \<open>
  A time stamp that is not negative is split into days, hours, minutes and seconds, each in its
  range, and they add up to it.
\<close>

theorem timestamp_split:
  assumes "0 \<le> ts"
  shows "\<exists>t. nbl_utils_timestamp2ltime ts (Some ltm) = (NBU_SUCCESS, Some t) \<and>
    ts = 86400 * lt_day t + 3600 * lt_hour t + 60 * lt_min t + lt_sec t \<and>
    0 \<le> lt_sec t \<and> lt_sec t < 60 \<and> 0 \<le> lt_min t \<and> lt_min t < 60 \<and> 0 \<le> lt_hour t \<and> lt_hour t < 24 \<and> 0 \<le> lt_day t"
  unfolding nbl_utils_timestamp2ltime_def option.case
  by (rule exI, rule conjI, rule refl) (use split_60_60_24 [OF assms] in simp)

theorem timestamp_split_witness:
  "\<exists>t. nbl_utils_timestamp2ltime 90061 (Some \<lparr>lt_sec = 0, lt_min = 0, lt_hour = 0, lt_day = 0\<rparr>) = (NBU_SUCCESS, Some t) \<and>
    90061 = 86400 * lt_day t + 3600 * lt_hour t + 60 * lt_min t + lt_sec t"
  using timestamp_split [of 90061 "\<lparr>lt_sec = 0, lt_min = 0, lt_hour = 0, lt_day = 0\<rparr>"] by auto

subsection \<open>The challenge\<close>

lemma new_session_tv [simp]: "s_tv (new_session bytes tv) = tv"
  by (simp add: new_session_def)

lemma appended_session_granted:
  assumes T: "table (e_sess st) (ps @ [(z, w)])" and none: "\<forall>(d, v) \<in> set ps. sid v \<noteq> i"
    and i: "sid w = i" "NUL \<notin> set i" and cookie: "hdf_get_value X (e_hdf st) ''Cookie.sid'' = Some i"
    and tm: "time_ok now" "tv_sec now \<le> tv_sec (s_tv w) + SESSION_TIMEOUT"
    and auth: "config_is M ''web_auth'' 16 auth" "auth \<noteq> ''off''"
  shows "\<exists>ss. ewf_smith_access_control X M now policy st = Some (EWF_SMITH_CTL_SUCCESS, st\<lparr>e_sess := ss\<rparr>)"
proof -
  have "spec_session i now (ps @ [(z, w)]) = (True, ps @ [(z, w\<lparr>s_tv := now\<rparr>)])"
    using spec_session_split [OF none, of w now z "[]"] i tm(2) by simp
  then have "spec_check (cookie_sid X st) now (ps @ [(z, w)]) = (True, ps @ [(z, w\<lparr>s_tv := now\<rparr>)])"
    using cookie by (simp add: spec_check_def cookie_sid_def)
  from access_control_ok [OF T _ tm(1) auth this, of policy] cookie i(2) show ?thesis
    by (auto simp: clean_text_def cookie_sid_def)
qed

lemma login_challenge_ok:
  assumes T: "table (e_sess (w_st w)) ps" and len: "length bytes = 20" and tv: "time_ok tv" and av: "1 < m_avail (e_mem (w_st w))"
    and X: "hdf_laws X" and free: "hdf_get_value X (w_hdf w) ''Var.challenge.Value'' = None"
  obtains z w' where "login_challenge X (Some tv) (Some bytes) w = Some w'"
    and "hdf_get_value X (w_hdf w') ''Var.challenge.Value'' = Some (hex_id bytes)"
    and "table (e_sess (w_st w')) (ps @ [(z, new_session bytes tv)])" and "e_cookies (w_st w') = e_cookies (w_st w)"
proof -
  obtain z m' s where c: "ewf_session_create (Some tv) (Some bytes) (ss_mem (e_sess (w_st w))) = Some (z, m')"
    "table ((e_sess (w_st w))\<lparr>ss_mem := m'\<rparr>) ps" "m_objs m' z = Some s" "session_ok s" "0 < z" "z < m_brk m'"
    "z \<noteq> ewf_session_list (e_sess (w_st w))" "z \<notin> fst ` set ps"
    "s = \<lparr>s_activated = 0, s_id = hex_id bytes @ [NUL], s_tv = tv\<rparr>" "m_avail m' = m_avail (ss_mem (e_sess (w_st w))) - 1"
    by (rule session_create_table [OF T _ len]) (use av tv in \<open>auto simp: e_mem_def time_ok_def\<close>)
  define ss where "ss = (e_sess (w_st w))\<lparr>ss_mem := m'\<rparr>"
  have s: "s = new_session bytes tv" using c(9) by (simp add: new_session_def)
  obtain m'' where a: "ewf_session_list_add z ss = Some (EWF_SUCCESS, ss\<lparr>ss_mem := m''\<rparr>)"
    "table (ss\<lparr>ss_mem := m''\<rparr>) (ps @ [(z, s)])" "m_objs m'' = m_objs m'"
    by (rule session_add_ok [of ss ps z s]) (use c av in \<open>auto simp: ss_def e_mem_def\<close>)
  define w2 where "w2 = w\<lparr>w_st := (set_e_mem m' (w_st w))\<lparr>e_sess := ss\<lparr>ss_mem := m''\<rparr>\<rparr>\<rparr>"
  have w2: "e_sess (w_st w2) = ss\<lparr>ss_mem := m''\<rparr>" "w_hdf w2 = w_hdf w" "e_cookies (w_st w2) = e_cookies (w_st w)"
    by (simp_all add: w2_def set_e_mem_def)
  have "session_id z (w_st w2) = Some (hex_id bytes)"
    using c(3) a(3) s by (simp add: session_id_def e_mem_def w2 new_session_def)
  moreover have "hdf_set X (Some ''challenge'') (Some (hex_id bytes)) False (w_hdf w) =
      Some (EWF_SUCCESS, hdf_set_value X (w_hdf w) ''Var.challenge.Value'' (hex_id bytes))"
    using hdf_set_ok [of "''challenge''" X "hex_id bytes" False "w_hdf w"] free by simp
  moreover have "e_sess (set_e_mem m' (w_st w)) = ss" by (simp add: ss_def set_e_mem_def)
  moreover have "w_st w2 = (set_e_mem m' (w_st w))\<lparr>e_sess := ss\<lparr>ss_mem := m''\<rparr>\<rparr>" "e_hdf (set_e_mem m' (w_st w)) = w_hdf w"
    by (simp_all add: w2_def set_e_mem_def)
  ultimately have "login_challenge X (Some tv) (Some bytes) w =
      Some (upd_hdf (\<lambda>_. hdf_set_value X (w_hdf w) ''Var.challenge.Value'' (hex_id bytes)) w2)"
    using c(1,5) a(1) w2(2) by (simp add: login_challenge_def e_mem_def web_hdf_def ewf_hdf_set_def Let_def flip: w2_def)
  then show ?thesis
    using a(2) s X w2
    by (intro that [of "upd_hdf (\<lambda>_. hdf_set_value X (w_hdf w) ''Var.challenge.Value'' (hex_id bytes)) w2" z]) (auto simp: upd_hdf_def)
qed

text \<open>
  C30: Anyone can pass access control without a password.  An Ajax request for a challenge on the
  log-in page, which is public, adds a session that is not activated and hands out its identifier
  as the challenge.  A later request with this identifier as its \<open>sid\<close> cookie is granted on
  private pages, for as long as the session lives.
\<close>

theorem challenge_bypasses_login:
  assumes "table (e_sess (w_st w)) ps" and "length bytes = 20" and "time_ok tv" and "1 < m_avail (e_mem (w_st w))"
    and X: "hdf_laws X"
    and q: "ewf_hdf_sget X ''action'' (w_hdf (ewf_hdf_cgi_parse C w)) = Some (Some ''challenge'', h)"
    and free: "hdf_get_value X h ''Var.challenge.Value'' = None"
    and new: "lookup (hex_id bytes) ps = 0"
    and cookie: "hdf_get_value X h2 ''Cookie.sid'' = Some (hex_id bytes)"
    and later: "time_ok now" "tv_sec now \<le> tv_sec tv + SESSION_TIMEOUT"
    and auth: "config_is M ''web_auth'' 16 auth" "auth \<noteq> ''off''"
  shows "\<exists>w' ss. login_ajax X C D (Some tv) (Some bytes) w = Some w' \<and>
    hdf_get_value X (w_hdf w') ''Var.challenge.Value'' = Some (hex_id bytes) \<and> e_cookies (w_st w') = e_cookies (w_st w) \<and>
    ewf_smith_access_control X M now EWF_ACCESS_PRIVATE ((w_st w')\<lparr>e_hdf := h2\<rparr>) =
      Some (EWF_SMITH_CTL_SUCCESS, (w_st w')\<lparr>e_hdf := h2, e_sess := ss\<rparr>)"
proof -
  define w1 where "w1 = upd_hdf (\<lambda>_. h) (ewf_hdf_cgi_parse C w)"
  obtain h1 where h1: "ewf_hdf_set X (Some ''action'') (Some ''challenge'') h = Some h1"
    "hdf_get_value X (snd h1) ''Var.challenge.Value'' = None"
    using hdf_set_ok [of "''action''" X "''challenge''" False h] free X by (simp add: ewf_hdf_set_def)
  define w2 where "w2 = upd_hdf (\<lambda>_. snd h1) w1"
  have w2: "e_sess (w_st w2) = e_sess (w_st w)" "w_hdf w2 = snd h1" "e_cookies (w_st w2) = e_cookies (w_st w)"
    by (simp_all add: w2_def w1_def upd_hdf_def ewf_hdf_cgi_parse_def)
  have run: "login_ajax X C D (Some tv) (Some bytes) w = login_challenge X (Some tv) (Some bytes) w2"
    using q h1(1) by (simp add: login_ajax_def web_sget_def web_hdf_def nbu_string_matches_def w1_def w2_def split_beta Let_def)
      (simp add: upd_hdf_def)
  obtain z w' where c: "login_challenge X (Some tv) (Some bytes) w2 = Some w'"
    "hdf_get_value X (w_hdf w') ''Var.challenge.Value'' = Some (hex_id bytes)"
    "table (e_sess (w_st w')) (ps @ [(z, new_session bytes tv)])" "e_cookies (w_st w') = e_cookies (w_st w2)"
    by (rule login_challenge_ok [of w2 ps bytes tv X]) (use assms w2 h1(2) in \<open>auto simp: e_mem_def\<close>)
  have none: "\<forall>(d, v) \<in> set ps. sid v \<noteq> hex_id bytes"
    by (rule table_lookup_none [OF assms(1) new])
  have "\<exists>ss. ewf_smith_access_control X M now EWF_ACCESS_PRIVATE ((w_st w')\<lparr>e_hdf := h2\<rparr>) =
      Some (EWF_SMITH_CTL_SUCCESS, (w_st w')\<lparr>e_hdf := h2, e_sess := ss\<rparr>)"
    using appended_session_granted [of "(w_st w')\<lparr>e_hdf := h2\<rparr>" ps z "new_session bytes tv" "hex_id bytes" X now M auth, OF _ none]
      c(3) cookie later auth by simp
  then show ?thesis using run c w2(3) by simp
qed

theorem challenge_bypasses_login_witness:
  "\<exists>w' ss. login_ajax ex_ext ex_cgi ex_daemon (Some ex_now) (Some ex_bytes) (ex_web 9 [(''Query.action'', ''challenge'')]) = Some w' \<and>
    hdf_get_value ex_ext (w_hdf w') ''Var.challenge.Value'' = Some (hex_id ex_bytes) \<and>
    ewf_smith_access_control ex_ext ex_matrix ex_now EWF_ACCESS_PRIVATE ((w_st w')\<lparr>e_hdf := [(''Cookie.sid'', hex_id ex_bytes)]\<rparr>) =
      Some (EWF_SMITH_CTL_SUCCESS, (w_st w')\<lparr>e_hdf := [(''Cookie.sid'', hex_id ex_bytes)], e_sess := ss\<rparr>)"
proof -
  let ?w = "ex_web 9 [(''Query.action'', ''challenge'')]"
  have "length (hex_id ex_bytes) = 40" by simp
  then have "hex_id ex_bytes \<noteq> ''ab''" by (cases "hex_id ex_bytes = ''ab''") (simp_all del: hex_id_length)
  then have new: "lookup (hex_id ex_bytes) [(2, ex_session)] = 0" by auto
  have q: "ewf_hdf_sget ex_ext ''action'' (w_hdf (ewf_hdf_cgi_parse ex_cgi ?w)) =
      Some (Some ''challenge'', [(''Query.action'', ''challenge'')])"
    by (simp add: ewf_hdf_cgi_parse_def upd_hdf_def ex_cgi_def ewf_hdf_sget_def ewf_hdf_get_def ewf_hdf_get_default_def
        ewf_hdf_validate_def c_string)
  have "\<exists>w' ss. login_ajax ex_ext ex_cgi ex_daemon (Some ex_now) (Some ex_bytes) ?w = Some w' \<and>
    hdf_get_value ex_ext (w_hdf w') ''Var.challenge.Value'' = Some (hex_id ex_bytes) \<and> e_cookies (w_st w') = e_cookies (w_st ?w) \<and>
    ewf_smith_access_control ex_ext ex_matrix ex_now EWF_ACCESS_PRIVATE ((w_st w')\<lparr>e_hdf := [(''Cookie.sid'', hex_id ex_bytes)]\<rparr>) =
      Some (EWF_SMITH_CTL_SUCCESS, (w_st w')\<lparr>e_hdf := [(''Cookie.sid'', hex_id ex_bytes)], e_sess := ss\<rparr>)"
    by (rule challenge_bypasses_login [OF _ _ _ _ _ q _ new, where auth = "''all''"]) simp_all
  then show ?thesis by blast
qed

end
