(* ===== verification/Www_Kit.thy ===== *)
theory Www_Kit
  imports Www_Dbl
begin

text \<open>
  The pages for the installation kit, \<open>kit/kit_helper.c\<close>, \<open>kit/get.c\<close>, \<open>kit/set.c\<close> and \<open>kit/action.c\<close>
  under \<open>efixo-www/src/src\<close>, for the boxes where \<open>CIBOX\<close> is not defined.  The pages are public; the
  tables say which variables and actions they reach, and private variables need
  the button that turns \<open>web_autologin\<close> on.

  The pointers to functions of the tables are the constructors of \<open>kit_read\<close>, \<open>kit_write\<close> and
  \<open>kit_func\<close>.
\<close>

datatype kit_read = nbd_dsl_get_fn | nbd_status_get_fn | nbd_user_config_get_fn
datatype kit_write = nbd_user_config_set_fn
datatype kit_func = nbd_hotspot_stop_fn | nbd_hotspot_restart_fn | nbd_wlan_ses_done_fn | nbd_wlan_restart_fn

record kit_name =
  kn_name :: string
  kn_read :: "kit_read option"
  kn_write :: "kit_write option"
  kn_forcedvalue :: "string option"
  kn_access_policy :: ewf_page_access

definition kit_entry :: "string \<Rightarrow> kit_read option \<Rightarrow> kit_write option \<Rightarrow> string option \<Rightarrow> ewf_page_access \<Rightarrow> kit_name" where
  "kit_entry n r w f a = \<lparr>kn_name = n, kn_read = r, kn_write = w, kn_forcedvalue = f, kn_access_policy = a\<rparr>"

definition request_name_maps :: "kit_name list" where
  "request_name_maps = [
     kit_entry ''adsl_attenuation_down'' (Some nbd_dsl_get_fn) None None EWF_ACCESS_PUBLIC,
     kit_entry ''adsl_attenuation_up'' (Some nbd_dsl_get_fn) None None EWF_ACCESS_PUBLIC,
     kit_entry ''adsl_noise_down'' (Some nbd_dsl_get_fn) None None EWF_ACCESS_PUBLIC,
     kit_entry ''adsl_noise_up'' (Some nbd_dsl_get_fn) None None EWF_ACCESS_PUBLIC,
     kit_entry ''adsl_rate_down'' (Some nbd_dsl_get_fn) None None EWF_ACCESS_PUBLIC,
     kit_entry ''adsl_rate_up'' (Some nbd_dsl_get_fn) None None EWF_ACCESS_PUBLIC,
     kit_entry ''adsl_status'' (Some nbd_status_get_fn) None None EWF_ACCESS_PUBLIC,
     kit_entry ''filter_simple_smtpdrop'' (Some nbd_user_config_get_fn) None None EWF_ACCESS_PUBLIC,
     kit_entry ''hotspot_active'' None (Some nbd_user_config_set_fn) None EWF_ACCESS_PUBLIC,
     kit_entry ''hotspot_mode'' None (Some nbd_user_config_set_fn) None EWF_ACCESS_PUBLIC,
     kit_entry ''link_lan4_status'' (Some nbd_status_get_fn) None None EWF_ACCESS_PUBLIC,
     kit_entry ''mac_addr'' (Some nbd_status_get_fn) None None EWF_ACCESS_PUBLIC,
     kit_entry ''net_mode'' (Some nbd_user_config_get_fn) None None EWF_ACCESS_PUBLIC,
     kit_entry ''net_data_ipaddr'' (Some nbd_status_get_fn) None None EWF_ACCESS_PUBLIC,
     kit_entry ''net_data_status'' (Some nbd_status_get_fn) None None EWF_ACCESS_PUBLIC,
     kit_entry ''ppp_login'' (Some nbd_user_config_get_fn) (Some nbd_user_config_set_fn) None EWF_ACCESS_PUBLIC,
     kit_entry ''ppp_password'' (Some nbd_user_config_get_fn) (Some nbd_user_config_set_fn) None EWF_ACCESS_PUBLIC,
     kit_entry ''version_mainfirmware'' (Some nbd_status_get_fn) None None EWF_ACCESS_PUBLIC,
     kit_entry ''wlan_wl0_enc'' (Some nbd_user_config_get_fn) (Some nbd_user_config_set_fn) None EWF_ACCESS_PRIVATE,
     kit_entry ''wlan_wl0_keytype'' None (Some nbd_user_config_set_fn) None EWF_ACCESS_PRIVATE,
     kit_entry ''wlan_wl0_primarykey'' None None (Some ''0'') EWF_ACCESS_PRIVATE,
     kit_entry ''wlan_wl0_ssid'' (Some nbd_user_config_get_fn) (Some nbd_user_config_set_fn) None EWF_ACCESS_PRIVATE,
     kit_entry ''wlan_wl0_wepkeys_n0'' (Some nbd_user_config_get_fn) (Some nbd_user_config_set_fn) None EWF_ACCESS_PRIVATE,
     kit_entry ''wlan_wl0_wpakey'' (Some nbd_user_config_get_fn) (Some nbd_user_config_set_fn) None EWF_ACCESS_PRIVATE,
     kit_entry ''wpa_key'' (Some nbd_status_get_fn) None None EWF_ACCESS_PRIVATE]"

definition old_vars_compatibility_maps :: "(string \<times> string) list" where
  "old_vars_compatibility_maps = [
     (''chilli_active'', ''hotspot_active''),
     (''chilli_mode'', ''hotspot_mode''),
     (''link_adsl_status'', ''adsl_status''),
     (''ppp_ipaddr'', ''net_data_ipaddr''),
     (''ppp_status'', ''net_data_status'')]"

datatype action_type = ACTION_COMMIT | ACTION_INITSCRIPT | ACTION_FUNC kit_func

definition script_action_maps :: "(string \<times> string \<times> action_type) list" where
  "script_action_maps = [
     (''hotspot'', ''stop'', ACTION_FUNC nbd_hotspot_stop_fn),
     (''hotspot'', ''restart'', ACTION_FUNC nbd_hotspot_restart_fn),
     (''hotspot'', ''commit'', ACTION_COMMIT),
     (''net_mode'', ''restart'', ACTION_INITSCRIPT),
     (''ppp'', ''restart'', ACTION_INITSCRIPT),
     (''wlan'', ''ses_stop'', ACTION_FUNC nbd_wlan_ses_done_fn),
     (''wlan'', ''restart'', ACTION_FUNC nbd_wlan_restart_fn),
     (''wlan'', ''commit'', ACTION_COMMIT)]"

definition old_script_action_compatibility_maps :: "(string \<times> string option \<times> string \<times> string) list" where
  "old_script_action_compatibility_maps = [
     (''chillispot'', None, ''hotspot'', []),
     (''ses'', Some ''stop'', ''wlan'', ''ses_stop'')]"

fun call_read :: "kit_read \<Rightarrow> nbd_daemon \<Rightarrow> calls \<Rightarrow> string \<Rightarrow> buf \<Rightarrow> u32 \<Rightarrow> (int \<times> buf) exec" where
  "call_read nbd_dsl_get_fn = nbd_dsl_get"
| "call_read nbd_status_get_fn = nbd_status_get"
| "call_read nbd_user_config_get_fn = nbd_user_config_get"

fun call_write :: "kit_write \<Rightarrow> nbd_daemon \<Rightarrow> string \<Rightarrow> string \<Rightarrow> calls \<Rightarrow> (int \<times> calls) exec" where
  "call_write nbd_user_config_set_fn = nbd_user_config_set"

fun call_func :: "kit_func \<Rightarrow> nbd_daemon \<Rightarrow> calls \<Rightarrow> (int \<times> calls) exec" where
  "call_func nbd_hotspot_stop_fn = nbd_hotspot_stop"
| "call_func nbd_hotspot_restart_fn = nbd_hotspot_restart"
| "call_func nbd_wlan_ses_done_fn = nbd_wlan_ses_done"
| "call_func nbd_wlan_restart_fn = nbd_wlan_restart"

subsection \<open>\<open>kit/kit_helper.c\<close>\<close>

fun var_compatibility_loop :: "(string \<times> string) list \<Rightarrow> string \<Rightarrow> string" where
  "var_compatibility_loop [] name = name"
| "var_compatibility_loop ((oldname, newname) # maps) name =
     (if nbu_string_compare (Some name) (Some oldname) = NBU_STRING_EQUAL then newname
      else var_compatibility_loop maps name)"

definition kit_helper_var_compatibility :: "string \<Rightarrow> string" where
  "kit_helper_var_compatibility name = var_compatibility_loop old_vars_compatibility_maps name"

text \<open>The entry of \<open>request_name_maps\<close> at which the loops of \<open>kit_helper_get\<close> and \<open>kit_helper_set\<close> stop.\<close>

fun find_name :: "kit_name list \<Rightarrow> string \<Rightarrow> kit_name option" where
  "find_name [] name = None"
| "find_name (e # es) name =
     (if nbu_string_compare (Some name) (Some (kn_name e)) = NBU_STRING_EQUAL then Some e else find_name es name)"

definition kit_denied :: "nbd_daemon \<Rightarrow> calls \<Rightarrow> kit_name \<Rightarrow> bool exec" where
  "kit_denied D h e =
     (if kn_access_policy e = EWF_ACCESS_PRIVATE
      then map_option Not (nbd_status_matches D h ''web_autologin'' ''on'') else Some False)"

definition kit_helper_get :: "nbd_daemon \<Rightarrow> calls \<Rightarrow> string \<Rightarrow> buf \<Rightarrow> u32 \<Rightarrow> (int \<times> buf) exec" where
  "kit_helper_get D h name b buf_size = (let name = kit_helper_var_compatibility name in
     case find_name request_name_maps name of
       None \<Rightarrow> Some (- 1, b)
     | Some e \<Rightarrow> do {
         denied \<leftarrow> kit_denied D h e;
         if denied then Some (- 1, b)
         else (case kn_forcedvalue e of
             Some v \<Rightarrow> do {
               (_, b) \<leftarrow> nbu_string_printf (Some b) buf_size (Some v);
               b \<leftarrow> b;
               Some (0, b) }
           | None \<Rightarrow> (case kn_read e of
                 Some f \<Rightarrow> call_read f D h name b buf_size
               | None \<Rightarrow> Some (- 1, b))) })"

definition kit_helper_set :: "nbd_daemon \<Rightarrow> string \<Rightarrow> string \<Rightarrow> calls \<Rightarrow> (int \<times> calls) exec" where
  "kit_helper_set D name value h = (let name = kit_helper_var_compatibility name in
     case find_name request_name_maps name of
       None \<Rightarrow> Some (- 1, h)
     | Some e \<Rightarrow> do {
         denied \<leftarrow> kit_denied D h e;
         if denied then Some (- 1, h)
         else (case kn_write e of
             Some f \<Rightarrow> call_write f D name value h
           | None \<Rightarrow> Some (- 1, h)) })"

fun action_compatibility_loop :: "(string \<times> string option \<times> string \<times> string) list \<Rightarrow> string \<times> string \<Rightarrow> string \<times> string" where
  "action_compatibility_loop [] sa = sa"
| "action_compatibility_loop ((oldscript, oldaction, newname, newaction) # maps) (scriptname, action) =
     (if nbu_string_compare (Some scriptname) (Some oldscript) = NBU_STRING_EQUAL
      then (case oldaction of
          None \<Rightarrow> (newname, action)
        | Some a \<Rightarrow>
            if nbu_string_compare (Some action) (Some a) = NBU_STRING_EQUAL
            then action_compatibility_loop maps (newname, newaction)
            else action_compatibility_loop maps (scriptname, action))
      else action_compatibility_loop maps (scriptname, action))"

fun action_loop :: "nbd_daemon \<Rightarrow> (string \<times> string \<times> action_type) list \<Rightarrow> string \<Rightarrow> string \<Rightarrow> calls \<Rightarrow> (int \<times> calls) exec" where
  "action_loop D [] scriptname action h = Some (- 1, h)"
| "action_loop D ((sn, an, ty) # maps) scriptname action h =
     (if nbu_string_compare (Some scriptname) (Some sn) = NBU_STRING_EQUAL \<and> nbu_string_compare (Some action) (Some an) = NBU_STRING_EQUAL
      then (case ty of
          ACTION_FUNC f \<Rightarrow> call_func f D h
        | ACTION_INITSCRIPT \<Rightarrow> do {
            (_, b) \<leftarrow> bprintf 256 (''/etc/init.d/'' @ sn);
            nbd_sys_async_run D b an h }
        | ACTION_COMMIT \<Rightarrow> do {
            (_, h) \<leftarrow> nbd_user_config_commit D h;
            Some (0, h) })
      else action_loop D maps scriptname action h)"

definition kit_helper_action :: "nbd_daemon \<Rightarrow> string \<Rightarrow> string \<Rightarrow> calls \<Rightarrow> (int \<times> calls) exec" where
  "kit_helper_action D scriptname action h =
     (let (scriptname, action) = action_compatibility_loop old_script_action_compatibility_maps (scriptname, action) in
      action_loop D script_action_maps scriptname action h)"

subsection \<open>\<open>kit/get.c\<close>, \<open>kit/set.c\<close> and \<open>kit/action.c\<close>\<close>

definition kit_get_form :: "'h ewf_ext \<Rightarrow> nbd_daemon \<Rightarrow> 'h handler" where
  "kit_get_form X D w = do {
     (name, w) \<leftarrow> web_sget X ''name'' w;
     case name of None \<Rightarrow> Some w
     | Some n \<Rightarrow> do {
         (r, b) \<leftarrow> kit_helper_get D (w_calls w) n (w_buffer w) 256;
         let w = w\<lparr>w_buffer := b\<rparr>;
         if r = NBD_SUCCESS then do {
           w \<leftarrow> web_hdf (ewf_hdf_set X (Some ''name'') (Some n)) w;
           v \<leftarrow> read_str b;
           web_hdf (ewf_hdf_set X (Some ''value'') (Some v)) w }
         else Some w } }"

definition kit_set_form :: "'h ewf_ext \<Rightarrow> nbd_daemon \<Rightarrow> 'h handler" where
  "kit_set_form X D w = do {
     (name, w) \<leftarrow> web_sget X ''name'' w;
     (value, w) \<leftarrow> web_sget X ''value'' w;
     case (name, value) of
       (Some n, Some v) \<Rightarrow> do {
         (ret, w) \<leftarrow> web_call (kit_helper_set D n v) w;
         w \<leftarrow> web_hdf (ewf_hdf_set X (Some ''name'') (Some n)) w;
         if ret = NV_SET_SUCCESS then do {
           w \<leftarrow> web_do (nbd_user_config_commit D) w;
           web_hdf (ewf_hdf_set X (Some ''status'') (Some ''OK'')) w }
         else if ret = NV_SET_UNCHANGED then web_hdf (ewf_hdf_set X (Some ''status'') (Some ''NC'')) w
         else web_hdf (ewf_hdf_set X (Some ''status'') (Some ''KO'')) w }
     | _ \<Rightarrow> Some w }"

definition kit_action_form :: "'h ewf_ext \<Rightarrow> nbd_daemon \<Rightarrow> 'h handler" where
  "kit_action_form X D w = do {
     (action, w) \<leftarrow> web_sget X ''action'' w;
     (script, w) \<leftarrow> web_sget X ''script'' w;
     case (action, script) of
       (Some a, Some s) \<Rightarrow> web_do (kit_helper_action D s a) w
     | _ \<Rightarrow> Some w }"

definition kit_page :: "string \<Rightarrow> 'h handler \<Rightarrow> 'h ewf_page_t" where
  "kit_page n form = \<lparr>p_name = n, p_access_policy = EWF_ACCESS_PUBLIC, p_display_handler = Some Some,
     p_form_handler = Some form, p_ajax_handler = None\<rparr>"

definition kit_pages :: "'h ewf_ext \<Rightarrow> nbd_daemon \<Rightarrow> 'h ewf_page_t list" where
  "kit_pages X D = [kit_page ''/kit/get'' (kit_get_form X D), kit_page ''/kit/set'' (kit_set_form X D),
     kit_page ''/kit/action'' (kit_action_form X D)]"

subsection \<open>What the kit pages can reach\<close>

lemma find_name_Some: "find_name es n = Some e \<Longrightarrow> e \<in> set es \<and> kn_name e = n"
  by (induction es) (auto simp: string_compare_eq split: if_splits)

definition kit_writable :: "string list" where
  "kit_writable = map kn_name (filter (\<lambda>e. kn_write e \<noteq> None) request_name_maps)"

definition kit_private :: "string list" where
  "kit_private = map kn_name (filter (\<lambda>e. kn_access_policy e = EWF_ACCESS_PRIVATE) request_name_maps)"

definition kit_action_calls :: "string list list" where
  "kit_action_calls = [[''hotspot'', ''stop''], [''hotspot'', ''restart''], [''nvram'', ''commit'', ''user''],
     [''nbctl'', ''async_run'', ''/etc/init.d/net_mode'', ''restart''], [''nbctl'', ''async_run'', ''/etc/init.d/ppp'', ''restart''],
     [''wlan'', ''ses_done''], [''wlan'', ''restart'']]"

lemma kit_writable_names: "set kit_writable = {''hotspot_active'', ''hotspot_mode'', ''ppp_login'', ''ppp_password'',
    ''wlan_wl0_enc'', ''wlan_wl0_keytype'', ''wlan_wl0_ssid'', ''wlan_wl0_wepkeys_n0'', ''wlan_wl0_wpakey''}"
  by (simp add: kit_writable_def request_name_maps_def kit_entry_def)

lemma kit_private_entry:
  assumes "kn_name e \<in> set kit_private" and "e \<in> set request_name_maps"
  shows "kn_access_policy e = EWF_ACCESS_PRIVATE"
  using assms by (auto simp: kit_private_def request_name_maps_def kit_entry_def)

lemma helper_set_cases:
  assumes "kit_helper_set D name value h = Some (r, h')"
  obtains "r = - 1" and "h' = h"
  | n where "n = kit_helper_var_compatibility name" and "n \<in> set kit_writable" and "h' = h @ [[''nvram'', ''set'', n, value]]"
      and "n \<in> set kit_private \<Longrightarrow> nbd_status_matches D h ''web_autologin'' ''on'' = Some True"
proof -
  let ?n = "kit_helper_var_compatibility name"
  show thesis
  proof (cases "find_name request_name_maps ?n")
    case None
    then show ?thesis using assms that(1) by (simp add: kit_helper_set_def)
  next
    case (Some e)
    then have e: "e \<in> set request_name_maps" "kn_name e = ?n" by (auto dest: find_name_Some)
    show ?thesis
    proof (cases "kit_denied D h e = Some False \<and> kn_write e \<noteq> None")
      case False
      then show ?thesis using assms Some that(1)
        by (cases "kit_denied D h e") (auto simp: kit_helper_set_def split: if_splits option.splits)
    next
      case True
      then obtain f where f: "kn_write e = Some f" by auto
      have "h' = h @ [[''nvram'', ''set'', ?n, value]]"
        using assms Some True f by (cases f) (simp add: kit_helper_set_def nbd_user_config_set_def nbd_set_Some)
      moreover have "?n \<in> set kit_writable" using e f by (force simp: kit_writable_def)
      moreover have "nbd_status_matches D h ''web_autologin'' ''on'' = Some True" if "?n \<in> set kit_private"
      proof -
        have "kn_access_policy e = EWF_ACCESS_PRIVATE" using that e kit_private_entry by simp
        then show ?thesis using True by (auto simp: kit_denied_def)
      qed
      ultimately show ?thesis using that(2) by blast
    qed
  qed
qed

text \<open>
  C17: Whatever a request asks for, the kit's set page changes nothing but the nine writable
  variables of its table, followed by a commit, and a private one only while the button has
  turned \<open>web_autologin\<close> on.
\<close>

theorem kit_set_reach:
  assumes "kit_set_form X D w = Some w'"
  shows "w_calls w' = w_calls w \<or>
    (\<exists>n v. n \<in> {''hotspot_active'', ''hotspot_mode'', ''ppp_login'', ''ppp_password'', ''wlan_wl0_enc'', ''wlan_wl0_keytype'',
        ''wlan_wl0_ssid'', ''wlan_wl0_wepkeys_n0'', ''wlan_wl0_wpakey''} \<and>
      w_calls w' \<in> {w_calls w @ [[''nvram'', ''set'', n, v]], w_calls w @ [[''nvram'', ''set'', n, v], [''nvram'', ''commit'', ''user'']]} \<and>
      (n \<in> set kit_private \<longrightarrow> nbd_status_matches D (w_calls w) ''web_autologin'' ''on'' = Some True))"
proof -
  obtain name w1 val w2 where w1: "web_sget X ''name'' w = Some (name, w1)" and w2: "web_sget X ''value'' w1 = Some (val, w2)"
    using assms by (auto simp: kit_set_form_def bind_Some_iff)
  then have c2: "w_calls w2 = w_calls w" by (auto dest!: web_sget_calls)
  show ?thesis
  proof (cases "name = None \<or> val = None")
    case True
    then show ?thesis using assms w1 w2 c2 by (auto simp: kit_set_form_def split: option.splits)
  next
    case False
    then obtain n v where nv: "name = Some n" "val = Some v" by auto
    obtain ret h where set: "kit_helper_set D n v (w_calls w) = Some (ret, h)"
      and h: "w_calls w' = (if ret = 0 then h @ [[''nvram'', ''commit'', ''user'']] else h)"
      using assms w1 w2 nv c2
      by (auto simp: kit_set_form_def bind_Some_iff web_call_def web_do_def nbd_user_config_commit_def nbd_set_Some
          dest!: web_hdf_calls split: if_splits)
    show ?thesis
    proof (rule helper_set_cases [OF set])
      assume "ret = - 1" "h = w_calls w"
      then show ?thesis using h by simp
    next
      fix m assume "m \<in> set kit_writable" "h = w_calls w @ [[''nvram'', ''set'', m, v]]"
        "m \<in> set kit_private \<Longrightarrow> nbd_status_matches D (w_calls w) ''web_autologin'' ''on'' = Some True"
      then show ?thesis
        using h unfolding kit_writable_names by (intro disjI2 exI [of _ m] exI [of _ v]) simp
    qed
  qed
qed

text \<open>
  C19: The kit's action page, which is public, runs no command but the seven of its table.
\<close>

theorem kit_action_reach:
  assumes "kit_action_form X D w = Some w'"
  shows "w_calls w' = w_calls w \<or> (\<exists>c \<in> set kit_action_calls. w_calls w' = w_calls w @ [c])"
proof -
  have *: "h' = h \<or> (\<exists>c \<in> set kit_action_calls. h' = h @ [c])"
    if "action_loop D script_action_maps s a h = Some (r, h')" for s a h r h'
    using that unfolding script_action_maps_def
    by (auto simp: kit_action_calls_def bprintf_ok nbd_set_Some nbd_hotspot_stop_def nbd_hotspot_restart_def nbd_wlan_ses_done_def
        nbd_wlan_restart_def nbd_sys_async_run_def nbd_user_config_commit_def bind_Some_iff split: if_splits)
  obtain action w1 script w2 where w: "web_sget X ''action'' w = Some (action, w1)" "web_sget X ''script'' w1 = Some (script, w2)"
    using assms by (auto simp: kit_action_form_def bind_Some_iff)
  then have c2: "w_calls w2 = w_calls w" by (auto dest!: web_sget_calls)
  show ?thesis
  proof (cases "action = None \<or> script = None")
    case True
    then show ?thesis using assms w c2 by (auto simp: kit_action_form_def split: option.splits)
  next
    case False
    then obtain r h' sa where "action_loop D script_action_maps (fst sa) (snd sa) (w_calls w) = Some (r, h')" "w_calls w' = h'"
      using assms w c2 by (auto simp: kit_action_form_def web_do_def web_call_def kit_helper_action_def bind_Some_iff split_beta)
    then show ?thesis using * by simp
  qed
qed

text \<open>
  C33: The kit's set page hands the value of the request to the query array without a bound: for a
  variable that anyone may write, a value of more than 437 bytes is written past the end of the
  array of \<open>nbd_query_send\<close>.
\<close>

theorem kit_set_overflow:
  assumes "web_sget X ''name'' w = Some (Some ''ppp_login'', w1)" and "web_sget X ''value'' w1 = Some (Some v, w2)"
  shows "437 < length v \<Longrightarrow> kit_set_form X D w = None"
proof -
  assume "437 < length v"
  then have "\<not> query_fits [''nvram'', ''set'', ''ppp_login'', v]" by (simp add: query_fits_def query_room_def)
  then have "nbd_set D [''nvram'', ''set'', ''ppp_login'', v] h = None" for h
    by (simp add: nbd_set_def nbd_ask_def guard_def)
  moreover have "kit_helper_var_compatibility ''ppp_login'' = ''ppp_login''" by code_simp
  moreover have "find_name request_name_maps ''ppp_login'' =
      Some (kit_entry ''ppp_login'' (Some nbd_user_config_get_fn) (Some nbd_user_config_set_fn) None EWF_ACCESS_PUBLIC)" by code_simp
  ultimately have "kit_helper_set D ''ppp_login'' v h = None" for h
    by (simp add: kit_helper_set_def kit_denied_def kit_entry_def nbd_user_config_set_def)
  then show ?thesis using assms by (simp add: kit_set_form_def web_call_def)
qed

text \<open>
  C18: While the button is not pressed the kit neither reads nor writes a private variable: \<open>-1\<close> is
  returned, the buffer stays as it was and the daemon gets no call.
\<close>

theorem kit_private_refused:
  assumes "nbd_status_matches D h ''web_autologin'' ''on'' = Some False" and "kit_helper_var_compatibility name \<in> set kit_private"
  shows "kit_helper_get D h name b sz = Some (- 1, b) \<and> kit_helper_set D name val h = Some (- 1, h)"
proof (cases "find_name request_name_maps (kit_helper_var_compatibility name)")
  case None
  then show ?thesis by (simp add: kit_helper_get_def kit_helper_set_def)
next
  case (Some e)
  then have "kn_access_policy e = EWF_ACCESS_PRIVATE" using assms(2) kit_private_entry [of e] by (auto dest: find_name_Some)
  then show ?thesis using Some assms(1) by (simp add: kit_helper_get_def kit_helper_set_def kit_denied_def)
qed

lemma ex_autologin: "nbd_status_matches ex_daemon h ''web_autologin'' ''on'' = Some False"
proof -
  have "query_fits [''status'', ''get'', ''web_autologin'']" by (simp add: query_fits_def query_room_def)
  then have "nbd_get ex_daemon h [''status'', ''get'', ''web_autologin''] (replicate 3 (CHR 0xFF)) 3 =
      Some (0, (replicate 3 (CHR 0xFF))[0 := NUL])"
    by (simp add: nbd_get_Some ex_daemon_def answer_spec_def)
  then show ?thesis
    by (simp add: nbd_status_matches_def nbd_status_get_def answer_matches_def numeral_3_eq_3)
qed

theorem kit_private_refused_witness:
  "kit_helper_get ex_daemon [] ''wpa_key'' (replicate 256 NUL) 256 = Some (- 1, replicate 256 NUL) \<and>
   kit_helper_set ex_daemon ''wpa_key'' ''x'' [] = Some (- 1, [])"
proof -
  have "kit_helper_var_compatibility ''wpa_key'' \<in> set kit_private" by code_simp
  then show ?thesis by (rule kit_private_refused [OF ex_autologin])
qed

text \<open>A request that sets a variable, and its state after the two look-ups.\<close>

definition ex_kit :: "string \<Rightarrow> (string \<times> string) list web" where
  "ex_kit v = ex_web 9 [(''Query.name'', ''ppp_login''), (''Query.value'', v)]"

lemma ex_kit_sget: "web_sget ex_ext ''name'' (ex_kit v) = Some (Some ''ppp_login'', ex_kit v)"
  "web_sget ex_ext ''value'' (ex_kit v) = Some (Some v, ex_kit v)"
  by (simp_all add: web_sget_def ewf_hdf_sget_def ewf_hdf_get_def ewf_hdf_get_default_def ewf_hdf_validate_def c_string ex_kit_def
      ex_web_def ex_state_def upd_hdf_def)

theorem kit_set_overflow_witness: "kit_set_form ex_ext ex_daemon (ex_kit (replicate 500 (CHR ''a''))) = None"
  using kit_set_overflow [OF ex_kit_sget] by simp

lemma ex_hdf_set:
  "NUL \<notin> set n \<Longrightarrow> length n < 246 \<Longrightarrow> \<exists>w'. web_hdf (ewf_hdf_set ex_ext (Some n) (Some v)) w = Some w' \<and> w_calls w' = w_calls w"
  by (simp add: web_hdf_def ewf_hdf_set_def hdf_set_ok split: if_splits)

theorem kit_set_reach_witness:
  "\<exists>w'. kit_set_form ex_ext ex_daemon (ex_kit ''bob'') = Some w' \<and>
    (w_calls w' = [] \<or> (\<exists>n v. w_calls w' \<in> {[[''nvram'', ''set'', n, v]], [[''nvram'', ''set'', n, v], [''nvram'', ''commit'', ''user'']]}))"
proof -
  have f: "query_fits [''nvram'', ''set'', ''ppp_login'', ''bob'']" "query_fits [''nvram'', ''commit'', ''user'']"
    by (simp_all add: query_fits_def query_room_def)
  have "kit_helper_var_compatibility ''ppp_login'' = ''ppp_login''" by code_simp
  moreover have "find_name request_name_maps ''ppp_login'' =
      Some (kit_entry ''ppp_login'' (Some nbd_user_config_get_fn) (Some nbd_user_config_set_fn) None EWF_ACCESS_PUBLIC)" by code_simp
  ultimately have "kit_helper_set ex_daemon ''ppp_login'' ''bob'' h = nbd_set ex_daemon [''nvram'', ''set'', ''ppp_login'', ''bob''] h" for h
    by (simp add: kit_helper_set_def kit_denied_def kit_entry_def nbd_user_config_set_def)
  then have s: "web_call (kit_helper_set ex_daemon ''ppp_login'' ''bob'') w = web_call (nbd_set ex_daemon [''nvram'', ''set'', ''ppp_login'', ''bob'']) w"
    for w :: "(string \<times> string) list web" by (simp add: web_call_def)
  let ?w = "(ex_kit ''bob'')\<lparr>w_calls := w_calls (ex_kit ''bob'') @ [[''nvram'', ''set'', ''ppp_login'', ''bob'']]\<rparr>"
  obtain w1 where w1: "web_hdf (ewf_hdf_set ex_ext (Some ''name'') (Some ''ppp_login'')) ?w = Some w1"
    using ex_hdf_set [of "''name''" "''ppp_login''" ?w] by auto
  obtain w' where "web_hdf (ewf_hdf_set ex_ext (Some ''status'') (Some ''OK'')) (w1\<lparr>w_calls := w_calls w1 @ [[''nvram'', ''commit'', ''user'']]\<rparr>) = Some w'"
    using ex_hdf_set [of "''status''"] by auto
  then have run: "kit_set_form ex_ext ex_daemon (ex_kit ''bob'') = Some w'"
    using w1 by (simp add: kit_set_form_def ex_kit_sget s web_call_set f web_do_def nbd_user_config_commit_def set_code_def ex_daemon_def)
  have "w_calls (ex_kit ''bob'') = []" by (simp add: ex_kit_def ex_web_def)
  with kit_set_reach [OF run] run show ?thesis by (intro exI [of _ w']) auto
qed

theorem kit_action_reach_witness:
  "\<exists>w'. kit_action_form ex_ext ex_daemon (ex_web 9 [(''Query.script'', ''ses''), (''Query.action'', ''stop'')]) = Some w' \<and>
    (w_calls w' = [] \<or> (\<exists>c \<in> set kit_action_calls. w_calls w' = [c]))"
proof -
  let ?w = "ex_web 9 [(''Query.script'', ''ses''), (''Query.action'', ''stop'')]"
  have g: "web_sget ex_ext ''action'' ?w = Some (Some ''stop'', ?w)" "web_sget ex_ext ''script'' ?w = Some (Some ''ses'', ?w)"
    by (simp_all add: web_sget_def ewf_hdf_sget_def ewf_hdf_get_def ewf_hdf_get_default_def ewf_hdf_validate_def c_string
        ex_web_def ex_state_def upd_hdf_def)
  have "action_compatibility_loop old_script_action_compatibility_maps (''ses'', ''stop'') = (''wlan'', ''ses_stop'')" by code_simp
  moreover have "query_fits [''wlan'', ''ses_done'']" by (simp add: query_fits_def query_room_def)
  ultimately have "kit_helper_action ex_daemon ''ses'' ''stop'' h = Some (0, h @ [[''wlan'', ''ses_done'']])" for h
    by (simp add: kit_helper_action_def script_action_maps_def string_compare_eq nbd_wlan_ses_done_def nbd_set_Some ex_daemon_def)
  then have run: "kit_action_form ex_ext ex_daemon ?w = Some (?w\<lparr>w_calls := w_calls ?w @ [[''wlan'', ''ses_done'']]\<rparr>)"
    by (simp add: kit_action_form_def g web_do_def web_call_def)
  have "w_calls ?w = []" by (simp add: ex_web_def)
  with kit_action_reach [OF run] run show ?thesis by auto
qed

end
