(* ===== verification/Nbu_Sort.thy ===== *)
theory Nbu_Sort
  imports Nbu_Iter "HOL-Library.Multiset"
begin

text \<open>
  \<open>nbu_list_sort\<close> builds a second list by insertion and destroys the first one.  It is shown to
  refine an insertion sort on the sequence of data, with two lists in one memory.
\<close>

fun ins_by :: "('a \<Rightarrow> 'a \<Rightarrow> int) \<Rightarrow> 'a \<Rightarrow> 'a list \<Rightarrow> 'a list" where
  "ins_by cmp x [] = [x]"
| "ins_by cmp x (y # ys) = (if cmp x y > 0 then y # ins_by cmp x ys else x # y # ys)"

definition sort_by :: "('a \<Rightarrow> 'a \<Rightarrow> int) \<Rightarrow> 'a list \<Rightarrow> 'a list" where
  "sort_by cmp xs = fold (ins_by cmp) xs []"

lemma mset_ins_by [simp]: "mset (ins_by cmp x ys) = add_mset x (mset ys)"
  by (induction ys) auto

lemma mset_fold_ins: "mset (fold (ins_by cmp) xs acc) = mset xs + mset acc"
  by (induction xs arbitrary: acc) auto

lemma mset_sort_by [simp]: "mset (sort_by cmp xs) = mset xs"
  by (simp add: sort_by_def mset_fold_ins)

text \<open>A comparison as the header asks for it: antisymmetric in sign and transitive.\<close>

definition comparison :: "('a \<Rightarrow> 'a \<Rightarrow> int) \<Rightarrow> bool" where
  "comparison cmp \<longleftrightarrow> (\<forall>x y. cmp x y > 0 \<longrightarrow> cmp y x \<le> 0) \<and>
     (\<forall>x y z. cmp x y \<le> 0 \<longrightarrow> cmp y z \<le> 0 \<longrightarrow> cmp x z \<le> 0)"

lemma sorted_ins_by:
  assumes "comparison cmp" and "sorted_wrt (\<lambda>a b. cmp a b \<le> 0) ys"
  shows "sorted_wrt (\<lambda>a b. cmp a b \<le> 0) (ins_by cmp x ys)"
  using assms(2)
proof (induction ys)
  case (Cons y ys)
  have "set (ins_by cmp x ys) = insert x (set ys)"
    by (metis mset_ins_by set_mset_add_mset_insert set_mset_mset)
  moreover have "cmp x z \<le> 0" if "cmp x y \<le> 0" and "z \<in> set ys" for z
    using Cons.prems assms(1) that unfolding comparison_def by auto
  ultimately show ?case
    using Cons assms(1) unfolding comparison_def by (auto simp: not_less)
qed simp

lemma sorted_sort_by:
  assumes "comparison cmp"
  shows "sorted_wrt (\<lambda>a b. cmp a b \<le> 0) (sort_by cmp xs)"
proof -
  have "sorted_wrt (\<lambda>a b. cmp a b \<le> 0) (fold (ins_by cmp) xs acc)"
    if "sorted_wrt (\<lambda>a b. cmp a b \<le> 0) acc" for acc
    using that by (induction xs arbitrary: acc) (auto intro: sorted_ins_by [OF assms])
  then show ?thesis by (simp add: sort_by_def)
qed

lemma ins_by_split:
  assumes "\<And>y. y \<in> set ys \<Longrightarrow> cmp x y > 0" and "zs = [] \<or> cmp x (hd zs) \<le> 0"
  shows "ins_by cmp x (ys @ zs) = ys @ x # zs"
  using assms by (induction ys) (cases zs; auto)+

subsection \<open>One insertion\<close>

lemma ins_post_upd_iter:
  assumes "ins_post ls bs d bs' (upd_iter ls v m) m'"
  shows "list_at m' ls bs'" and "dat m' = (dat m)(m_brk m := d)" and "m_objs m' = m_objs m"
    and "map_option l_term (m_lists m' ls) = map_option l_term (m_lists m ls)"
    and "m_brk m' = Suc (m_brk m)" and "m_avail m' = m_avail m - 1"
    and "frame (set (ls # bs) \<union> {m_brk m}) m m'"
proof -
  show "map_option l_term (m_lists m' ls) = map_option l_term (m_lists m ls)"
    using ins_postD(4) [OF assms] by (simp add: upd_iter_def option.map_comp comp_def)
  let ?A = "set (ls # bs) \<union> {m_brk m}"
  have "frame ?A m (upd_iter ls v m)" by (rule frame_upd_iter) simp_all
  moreover have "frame ?A (upd_iter ls v m) m'" using ins_postD(7) [OF assms] by (simp add: heap_simps)
  ultimately have "frame (?A \<union> ?A) m m'" by (rule frame_trans)
  then show "frame ?A m m'" by simp
qed (use ins_postD [OF assms] in \<open>simp_all add: heap_simps\<close>)

lemma ins_post_map:
  assumes "ins_post ls bs d (ys @ m_brk m # zs) (upd_iter ls v m) m'" and "list_at m ls bs" and "bs = ys @ zs"
  shows "map (dat m') (ys @ m_brk m # zs) = map (dat m) ys @ d # map (dat m) zs"
proof -
  have "b \<noteq> m_brk m" if "b \<in> set bs" for b
    using list_at_bounds [OF assms(2), of b] that by auto
  then show ?thesis
    using ins_post_upd_iter(2) [OF assms(1)] assms(3) by auto
qed

text \<open>The inner loop stops in front of the first datum that does not come before \<open>d\<close>.\<close>

lemma sort_inner:
  assumes L: "list_at m ls (ys @ zs)" and av: "0 < m_avail m" and self: "ls \<notin> dat m ` set (ys @ zs)"
    and cmp: "\<And>b. b \<in> set (ys @ zs) \<Longrightarrow> sort_func d (dat m b) (m_objs m) = Some (cmp d (dat m b))"
    and pos: "\<And>b. b \<in> set ys \<Longrightarrow> cmp d (dat m b) > 0" and stop: "zs = [] \<or> cmp d (dat m (hd zs)) \<le> 0"
  obtains x' m' v where "sort_outer_body sort_func ls d (x, False) m = Some (False, (x', False), m')"
    and "ins_post ls (ys @ zs) d (ys @ m_brk m # zs) (upd_iter ls v m) m'"
proof -
  let ?body = "sort_inner_body sort_func ls d"
  obtain v where run: "nbu_list_for_each_data ls ?body x False m =
      for_each_loop ls ?body (last (x # map (dat m) ys)) False (upd_iter ls v m)"
    and it: "at_iter (upd_iter ls v m) ls zs"
    by (rule for_each_data_skip [OF L, where st = "\<lambda>_. False" and body = ?body and d = x])
      (use self cmp pos in \<open>auto simp: sort_inner_body_def heap_simps\<close>)
  let ?m = "upd_iter ls v m"
  have Lm: "list_at ?m ls (ys @ zs)" and avm: "0 < m_avail ?m" using L av by (simp_all add: heap_simps)
  show ?thesis
  proof (cases zs)
    case Nil
    obtain m' where "nbu_list_insert_end ls d ?m = Some (NBU_SUCCESS, m')"
      and "ins_post ls (ys @ zs) d ((ys @ zs) @ [m_brk ?m]) ?m m'"
      using insert_end_ok [OF Lm avm] by blast
    moreover have "for_each_loop ls ?body (last (x # map (dat m) ys)) False ?m =
        Some (last (x # map (dat m) ys), False, ?m)"
      by (rule for_each_end [of _ _ ys]) (use L it Nil in simp_all)
    ultimately show ?thesis
      using that run Nil by (simp add: sort_outer_body_def heap_simps)
  next
    case (Cons z zs')
    have itz: "get_iter ls ?m = Some z" using it Cons by (simp add: at_iter_def)
    have Lz: "list_at ?m ls (ys @ z # zs')" using Lm Cons by simp
    from insert_before_ok [OF Lz itz avm]
    obtain m' where ins: "nbu_list_insert_before ls d ?m = Some (NBU_SUCCESS, m')"
      and post: "ins_post ls (ys @ z # zs') d (ys @ m_brk ?m # z # zs') ?m m'"
      by blast
    have "for_each_loop ls ?body (last (x # map (dat m) ys)) False ?m = Some (dat ?m z, True, m')"
      by (rule for_each_break [OF Lz])
        (use it self cmp stop ins Cons in \<open>auto simp: sort_inner_body_def heap_simps\<close>)
    then show ?thesis
      using that run post Cons by (simp add: sort_outer_body_def heap_simps)
  qed
qed

lemma sort_insert_step:
  assumes L: "list_at m ls bs" and av: "0 < m_avail m" and self: "ls \<notin> dat m ` set bs"
    and cmp: "\<And>b. b \<in> set bs \<Longrightarrow> sort_func d (dat m b) (m_objs m) = Some (cmp d (dat m b))"
  obtains x' m' bs' v where "sort_outer_body sort_func ls d (x, False) m = Some (False, (x', False), m')"
    and "ins_post ls bs d bs' (upd_iter ls v m) m'" and "set bs' = insert (m_brk m) (set bs)"
    and "map (dat m') bs' = ins_by cmp d (map (dat m) bs)"
proof -
  let ?P = "\<lambda>b. cmp d (dat m b) > 0"
  let ?ys = "takeWhile ?P bs" and ?zs = "dropWhile ?P bs"
  have bs: "?ys @ ?zs = bs" by simp
  have stop: "?zs = [] \<or> cmp d (dat m (hd ?zs)) \<le> 0"
    using hd_dropWhile [of ?P bs] by fastforce
  have pos: "b \<in> set ?ys \<Longrightarrow> cmp d (dat m b) > 0" for b by (blast dest: set_takeWhileD)
  obtain x' m' v where run: "sort_outer_body sort_func ls d (x, False) m = Some (False, (x', False), m')"
    and post: "ins_post ls bs d (?ys @ m_brk m # ?zs) (upd_iter ls v m) m'"
    using sort_inner [of m ls ?ys ?zs sort_func d cmp x] L av self cmp pos stop unfolding bs by blast
  have "map (dat m') (?ys @ m_brk m # ?zs) = map (dat m) ?ys @ d # map (dat m) ?zs"
    by (rule ins_post_map [OF post L]) simp
  also have "\<dots> = ins_by cmp d (map (dat m) ?ys @ map (dat m) ?zs)"
  proof (rule ins_by_split [symmetric])
    show "map (dat m) ?zs = [] \<or> cmp d (hd (map (dat m) ?zs)) \<le> 0"
      using stop by (metis hd_map list.map_disc_iff)
  qed (use pos in auto)
  also have "map (dat m) ?ys @ map (dat m) ?zs = map (dat m) bs"
    by (simp flip: map_append)
  finally show ?thesis
    using that [OF run post] by (metis bs set_append list.set(2) Un_insert_right)
qed

subsection \<open>The outer loop\<close>

lemma sort_loop:
  assumes "list_at m la (xs @ ys)" and "at_iter m la ys" and "list_at m ls bs"
    and "set (la # xs @ ys) \<inter> set (ls # bs) = {}"
    and "length ys \<le> m_avail m"
    and "{la, ls} \<inter> (dat m ` set ys \<union> dat m ` set bs) = {}"
    and "\<And>d e. d \<in> dat m ` set ys \<Longrightarrow> e \<in> dat m ` set ys \<union> dat m ` set bs \<Longrightarrow>
           sort_func d e (m_objs m) = Some (cmp d e)"
  obtains x' s' m' bs' where
    "for_each_loop la (sort_outer_body sort_func ls) x (y, False) m = Some (x', s', m')"
    and "list_at m' la (xs @ ys)" and "list_at m' ls bs'" and "set (la # xs @ ys) \<inter> set (ls # bs') = {}"
    and "map (dat m') bs' = fold (ins_by cmp) (map (dat m) ys) (map (dat m) bs)"
    and "map (dat m') (xs @ ys) = map (dat m) (xs @ ys)"
    and "m_objs m' = m_objs m"
    and "map_option l_term (m_lists m' ls) = map_option l_term (m_lists m ls)"
    and "map_option l_term (m_lists m' la) = map_option l_term (m_lists m la)"
    and "frame (set (la # xs @ ys) \<union> set (ls # bs) \<union> {m_brk m..}) m m'"
  using assms
proof (induction ys arbitrary: xs m bs x y thesis)
  case Nil
  have "for_each_loop la (sort_outer_body sort_func ls) x (y, False) m = Some (x, (y, False), m)"
    by (rule for_each_end) (use Nil.prems in simp_all)
  with Nil.prems show ?case by simp
next
  case (Cons a ys)
  have L: "list_at m la (xs @ a # ys)" and Ls: "list_at m ls bs" and it: "at_iter m la (a # ys)"
    and dis: "set (la # xs @ a # ys) \<inter> set (ls # bs) = {}" using Cons.prems by simp_all
  let ?A = "set (ls # bs) \<union> {m_brk m}"
  obtain x1 m1 bs1 v where run: "sort_outer_body sort_func ls (dat m a) (y, False) m = Some (False, (x1, False), m1)"
    and post: "ins_post ls bs (dat m a) bs1 (upd_iter ls v m) m1" and set1: "set bs1 = insert (m_brk m) (set bs)"
    and map1: "map (dat m1) bs1 = ins_by cmp (dat m a) (map (dat m) bs)"
    by (rule sort_insert_step [OF Ls, of sort_func "dat m a" cmp y]) (use Cons.prems(6,7,8) in auto)
  note P = ins_post_upd_iter [OF post]
  have fresh: "b < m_brk m" if "b \<in> set (la # xs @ a # ys)" for b using list_at_bounds [OF L] that by simp
  have sep: "set (la # xs @ a # ys) \<inter> ?A = {}" using dis fresh [of "m_brk m"] by blast
  have L1: "list_at m1 la (xs @ a # ys)" and d1: "\<And>b. b \<in> set (xs @ a # ys) \<Longrightarrow> dat m1 b = dat m b"
    using list_at_frame [OF L P(7) sep] by blast+
  have hd1: "m_lists m1 la = m_lists m la" using P(7) sep by (auto simp: frame_def)
  then have it1: "at_iter m1 la (a # ys)" using it by (simp add: at_iter_def get_iter_def)
  let ?m2 = "upd_iter la (hd (ys @ [la])) m1"
  have next2: "nbu_list_iterator_next la m1 = Some ?m2" and it2: "at_iter ?m2 la ys"
    using iterator_next_ok [OF L1 it1] by simp_all
  have step: "for_each_loop la (sort_outer_body sort_func ls) x (y, False) m =
      for_each_loop la (sort_outer_body sort_func ls) (dat m a) (x1, False) ?m2"
    by (rule for_each_step [OF L it, where body = "sort_outer_body sort_func ls" and m' = m1])
      (use run next2 Cons.prems(7) in auto)
  have dis2: "set (la # (xs @ [a]) @ ys) \<inter> set (ls # bs1) = {}" using sep set1 by auto
  have L2: "list_at ?m2 la ((xs @ [a]) @ ys)" and Ls2: "list_at ?m2 ls bs1" using L1 P(1) by simp_all
  have old: "dat m1 b = dat m b" if "b \<in> set bs" for b
    using that list_at_bounds [OF Ls, of b] P(2) by auto
  then have "dat m1 ` set bs = dat m ` set bs" by (rule image_cong [OF refl])
  then have img: "dat m1 ` set bs1 = insert (dat m a) (dat m ` set bs)"
    using set1 P(2) by (metis fun_upd_same image_insert)
  have imy: "map (dat m1) (xs @ a # ys) = map (dat m) (xs @ a # ys)" using d1 by (rule map_cong [OF refl])
  then have imy': "dat m1 ` set ys = dat m ` set ys" by (intro image_cong) auto
  have p7: "{la, ls} \<inter> (dat ?m2 ` set ys \<union> dat ?m2 ` set bs1) = {}"
    using Cons.prems(7) img imy' by (simp add: heap_simps)
  have p8: "sort_func d e (m_objs ?m2) = Some (cmp d e)"
    if "d \<in> dat ?m2 ` set ys" "e \<in> dat ?m2 ` set ys \<union> dat ?m2 ` set bs1" for d e
    using Cons.prems(8) [of d e] that P(3) img imy' by (simp add: heap_simps)
  have p6: "length ys \<le> m_avail ?m2" using Cons.prems(6) P(6) by (simp add: heap_simps)
  obtain x' s' m' bs' where IH:
    "for_each_loop la (sort_outer_body sort_func ls) (dat m a) (x1, False) ?m2 = Some (x', s', m')"
    "list_at m' la ((xs @ [a]) @ ys)" "list_at m' ls bs'" "set (la # (xs @ [a]) @ ys) \<inter> set (ls # bs') = {}"
    "map (dat m') bs' = fold (ins_by cmp) (map (dat ?m2) ys) (map (dat ?m2) bs1)"
    "map (dat m') ((xs @ [a]) @ ys) = map (dat ?m2) ((xs @ [a]) @ ys)"
    "m_objs m' = m_objs ?m2" "map_option l_term (m_lists m' ls) = map_option l_term (m_lists ?m2 ls)"
    "map_option l_term (m_lists m' la) = map_option l_term (m_lists ?m2 la)"
    "frame (set (la # (xs @ [a]) @ ys) \<union> set (ls # bs1) \<union> {m_brk ?m2..}) ?m2 m'"
    by (rule Cons.IH [OF _ L2 it2 Ls2 dis2 p6 p7 p8, of "dat m a" x1]) (rule that)
  let ?B = "set (la # xs @ a # ys) \<union> set (ls # bs) \<union> {m_brk m..}"
  have "frame ?B m m1" by (rule frame_mono [OF P(7)]) auto
  then have "frame ?B m ?m2" by (rule frame_upd_iter) simp
  moreover have "frame ?B ?m2 m'" by (rule frame_mono [OF IH(10)]) (use set1 P(5) in \<open>auto simp: heap_simps\<close>)
  ultimately have "frame (?B \<union> ?B) m m'" by (rule frame_trans)
  then have fr: "frame ?B m m'" by simp
  have la_ls: "la \<noteq> ls" using dis by auto
  show ?case
  proof (rule Cons.prems(1))
    show "for_each_loop la (sort_outer_body sort_func ls) x (y, False) m = Some (x', s', m')"
      using step IH(1) by simp
    show "map (dat m') bs' = fold (ins_by cmp) (map (dat m) (a # ys)) (map (dat m) bs)"
      using IH(5) map1 d1 by (simp add: heap_simps cong: map_cong)
    show "map (dat m') (xs @ a # ys) = map (dat m) (xs @ a # ys)"
      using IH(6) imy by (simp add: heap_simps)
    show "m_objs m' = m_objs m" using IH(7) P(3) by (simp add: heap_simps)
    show "map_option l_term (m_lists m' ls) = map_option l_term (m_lists m ls)"
      using IH(8) P(4) la_ls by (simp add: heap_simps)
    show "map_option l_term (m_lists m' la) = map_option l_term (m_lists m la)"
      using IH(9) hd1 by (simp add: upd_iter_def option.map_comp comp_def)
  qed (use IH fr in simp_all)
qed

subsection \<open>The whole sort\<close>

lemma dispose_all_void:
  "l_term l = Some nbu_list_void_terminator \<Longrightarrow> dispose_all l ds h = Some h"
  by (induction ds) (simp_all add: dispose_def nbu_list_void_terminator_def)

lemma list_sort_ok:
  assumes L: "list_at m la as" and av: "length as < m_avail m"
    and self: "la \<notin> dat m ` set as" and old: "\<And>a. a \<in> set as \<Longrightarrow> dat m a < m_brk m"
    and cmp: "\<And>d e. d \<in> dat m ` set as \<Longrightarrow> e \<in> dat m ` set as \<Longrightarrow>
           sort_func d e (m_objs m) = Some (cmp d e)"
  obtains m' bs where "nbu_list_sort la sort_func m = Some (NBU_SUCCESS, m_brk m, m')"
    and "list_at m' (m_brk m) bs" and "map (dat m') bs = sort_by cmp (map (dat m) as)"
    and "m_objs m' = m_objs m" and "\<And>a. a \<in> set (la # as) \<Longrightarrow> \<not> live m' a"
    and "map_option l_term (m_lists m' (m_brk m)) = Some (Some nbu_list_void_terminator)"
    and "frame (set (la # as) \<union> {m_brk m..}) m m'"
proof -
  let ?ls = "m_brk m" and ?void = "Some nbu_list_void_terminator"
  obtain l where l: "m_lists m la = Some l" using list_at_header [OF L] by blast
  have brk: "la < m_brk m" "0 < m_brk m" using list_at_bounds [OF L, of la] by auto
  obtain m1 where m1: "upd_list la (l_term_update (\<lambda>_. ?void)) m = Some m1"
    "m_lists m1 = (m_lists m)(la \<mapsto> l\<lparr>l_term := ?void\<rparr>)" "\<And>lb bs. list_at m1 lb bs = list_at m lb bs"
    "m_objs m1 = m_objs m" "dat m1 = dat m" "m_brk m1 = m_brk m" "m_avail m1 = m_avail m" "frame {la} m m1"
    using set_term_ok [OF L l, of ?void] by metis
  obtain m2 where m2: "nbu_list_new (l_data_size l) m1 = Some (?ls, m2)" "list_at m2 ?ls []"
    "m_lists m2 = (m_lists m1)(?ls \<mapsto> \<lparr>l_count = 0, l_data_size = l_data_size l, l_term = None, l_iter = 0\<rparr>)"
    "m_objs m2 = m_objs m1" "dat m2 = (dat m1)(?ls := 0)" "m_brk m2 = Suc ?ls" "m_avail m2 = m_avail m - 1"
    "frame {?ls} m1 m2"
    by (rule list_new_ok [of m1 "l_data_size l"]) (use m1(6,7) av brk in simp_all)
  define l2 :: "'a nbu_list_t" where "l2 = \<lparr>l_count = 0, l_data_size = l_data_size l, l_term = None, l_iter = 0\<rparr>"
  have l2: "m_lists m2 ?ls = Some l2" by (simp add: m2(3) l2_def)
  obtain m3 where m3: "upd_list ?ls (l_term_update (\<lambda>_. ?void)) m2 = Some m3"
    "m_lists m3 = (m_lists m2)(?ls \<mapsto> l2\<lparr>l_term := ?void\<rparr>)"
    "\<And>lb bs. list_at m3 lb bs = list_at m2 lb bs" "m_objs m3 = m_objs m2" "dat m3 = dat m2" "m_brk m3 = m_brk m2"
    "m_avail m3 = m_avail m2" "frame {?ls} m2 m3"
    using set_term_ok [OF m2(2) l2, of ?void] by metis
  have fresh: "?ls \<notin> set (la # as)" using list_at_bounds [OF L] by blast
  have "list_at m1 la as" using L m1(3) by simp
  from list_at_frame [OF this m2(8)] fresh have L3: "list_at m3 la as" and Ls3: "list_at m3 ?ls []"
    using m3(3) m2(2) by auto
  have d3: "map (dat m3) as = map (dat m) as" using m3(5) m2(5) m1(5) fresh by auto
  let ?m4 = "upd_iter la (nxt m3 la) m3"
  note start = iterator_start_ok [OF L3]
  have L4: "list_at ?m4 la ([] @ as)" and Ls4: "list_at ?m4 ?ls []"
    and dis: "set (la # [] @ as) \<inter> set (?ls # []) = {}" using L3 Ls3 fresh by auto
  have img: "dat ?m4 ` set as = dat m ` set as" using d3 by (simp add: heap_simps)
  have p6: "length as \<le> m_avail ?m4" using av m2(7) m3(7) by (simp add: heap_simps)
  have nls: "?ls \<notin> dat m ` set as" using old by (metis image_iff less_irrefl_nat)
  have p7: "{la, ?ls} \<inter> (dat ?m4 ` set as \<union> dat ?m4 ` set []) = {}"
    using self nls unfolding img by simp
  have p8: "sort_func d e (m_objs ?m4) = Some (cmp d e)"
    if "d \<in> dat ?m4 ` set as" "e \<in> dat ?m4 ` set as \<union> dat ?m4 ` set []" for d e
    using that cmp m1(4) m2(4) m3(4) unfolding img by (auto simp: heap_simps)
  obtain x' s' m5 bs where S:
    "for_each_loop la (sort_outer_body sort_func ?ls) 0 (0, False) ?m4 = Some (x', s', m5)"
    "list_at m5 la ([] @ as)" "list_at m5 ?ls bs" "set (la # [] @ as) \<inter> set (?ls # bs) = {}"
    "map (dat m5) bs = fold (ins_by cmp) (map (dat ?m4) as) (map (dat ?m4) [])"
    "m_objs m5 = m_objs ?m4" "map_option l_term (m_lists m5 ?ls) = map_option l_term (m_lists ?m4 ?ls)"
    "map_option l_term (m_lists m5 la) = map_option l_term (m_lists ?m4 la)"
    "frame (set (la # [] @ as) \<union> set (?ls # []) \<union> {m_brk ?m4..}) ?m4 m5"
    by (rule sort_loop [where sort_func = sort_func and cmp = cmp and xs = "[]" and ys = as and x = 0
          and y = 0, OF L4 start(2) Ls4 dis p6 p7 p8])
  have "map_option l_term (m_lists m5 la) = Some ?void"
    using S(8) m1(2) m2(3) m3(2) brk by (simp add: upd_iter_def option.map_comp comp_def)
  then obtain l5 where l5: "m_lists m5 la = Some l5" "l_term l5 = ?void" by auto
  have L5: "list_at m5 la as" using S(2) by simp
  obtain m6 where m6: "nbu_list_destroy la m5 = Some m6" "m_objs m6 = m_objs m5" "m_lists m6 la = None"
    "\<And>a. a \<in> set (la # as) \<Longrightarrow> \<not> live m6 a" "frame (set (la # as)) m5 m6"
    "m_brk m6 = m_brk m5" "m_avail m6 = m_avail m5"
    by (rule list_destroy_ok [OF L5 l5(1) dispose_all_void [OF l5(2)]]) blast
  have run: "nbu_list_sort la sort_func m = Some (NBU_SUCCESS, ?ls, m6)"
    using m1(1,2) m2(1,3) m3(1) S(1) m6(1) start(1) brk
    by (simp add: nbu_list_sort_def nbu_list_for_each_data_def)
  have sep: "set (?ls # bs) \<inter> set (la # as) = {}" using S(4) by auto
  note keep = list_at_frame [OF S(3) m6(5) sep]
  let ?B = "set (la # as) \<union> {m_brk m..}"
  have "frame ?B m m1" "frame ?B m1 m2" "frame ?B m2 m3" "frame ?B m3 ?m4" "frame ?B m5 m6"
    by (auto intro: frame_mono [OF m1(8)] frame_mono [OF m2(8)] frame_mono [OF m3(8)] frame_upd_iter
        frame_mono [OF m6(5)])
  moreover have "frame ?B ?m4 m5"
    by (rule frame_mono [OF S(9)]) (use m2(6) m3(6) in \<open>auto simp: heap_simps\<close>)
  ultimately have "frame ?B m m6"
    using frame_trans [of ?B _ _ ?B] by (metis Un_absorb)
  moreover have "map (dat m6) bs = sort_by cmp (map (dat m) as)"
    using S(5) keep(2) d3 by (simp add: sort_by_def heap_simps del: map_eq_conv cong: map_cong)
  moreover have "m_lists m6 ?ls = m_lists m5 ?ls" using m6(5) fresh by (auto simp: frame_def)
  then have "map_option l_term (m_lists m6 ?ls) = Some ?void"
    using S(7) m3(2) fresh by (simp add: heap_simps)
  moreover have "m_objs m6 = m_objs m" using m6(2) S(6) m3(4) m2(4) m1(4) by (simp add: heap_simps)
  ultimately show ?thesis
    using that [OF run keep(1)] m6(4) by blast
qed

end
