(* ===== verification/Nbu_List_Spec.thy ===== *)
theory Nbu_List_Spec
  imports Nbu_Sort
begin

text \<open>
  What the libnbu list promises its clients (\<open>efixo-libnbu/src/include/nbu/list.h\<close>), stated on the sequence
  of data pointers that a list holds, and proved for the operations on the linked nodes.
\<close>

definition elems :: "'o mem \<Rightarrow> addr \<Rightarrow> addr list \<Rightarrow> bool" where
  "elems m la ds \<longleftrightarrow> (\<exists>as. list_at m la as \<and> map (dat m) as = ds)"

definition apart :: "'o mem \<Rightarrow> addr \<Rightarrow> addr \<Rightarrow> bool" where
  "apart m la lb \<longleftrightarrow> (\<forall>as bs. list_at m la as \<longrightarrow> list_at m lb bs \<longrightarrow> set (la # as) \<inter> set (lb # bs) = {})"

lemma elems_frame:
  assumes "list_at m la as" and "elems m lb es" and "apart m la lb" and "frame (set (la # as) \<union> {m_brk m}) m m'"
  shows "elems m' lb es"
proof -
  obtain bs where bs: "list_at m lb bs" "map (dat m) bs = es" using assms(2) by (auto simp: elems_def)
  have "m_brk m \<notin> set (lb # bs)" using list_at_bounds [OF bs(1), of "m_brk m"] by auto
  then have d: "set (lb # bs) \<inter> (set (la # as) \<union> {m_brk m}) = {}"
    using assms(1,3) bs(1) unfolding apart_def by blast
  have "map (dat m') bs = es" using list_at_frame(2) [OF bs(1) assms(4) d] bs(2) by auto
  then show ?thesis using list_at_frame(1) [OF bs(1) assms(4) d] unfolding elems_def by blast
qed

lemma elems_count: "elems m la ds \<Longrightarrow> nbu_list_count la m = Some (of_nat (length ds))"
  by (auto simp: elems_def list_at_def nbu_list_count_def)

lemma ins_post_elems:
  assumes L: "list_at m la as" and P: "ins_post la as d as' m m'"
    and as': "as' = xs @ m_brk m # ys" "as = xs @ ys"
  shows "elems m' la (map (dat m) xs @ d # map (dat m) ys)"
proof -
  have "dat m' a = dat m a" if "a \<in> set as" for a
    using list_at_bounds [OF L, of a] that ins_postD(2) [OF P] by auto
  then have "map (dat m') as' = map (dat m) xs @ d # map (dat m) ys"
    using ins_postD(2) [OF P] as' by simp
  then show ?thesis using ins_postD(1) [OF P] unfolding elems_def by blast
qed

text \<open>
  Inserting at either end puts the datum at this end of the sequence, keeps every other
  list that shares no node, and moves the count with it, modulo 2^32.
\<close>

theorem insert_at_ends:
  assumes E: "elems m la ds" and av: "0 < m_avail m"
  shows "\<exists>m1 m2. nbu_list_insert_end la d m = Some (NBU_SUCCESS, m1) \<and> elems m1 la (ds @ [d]) \<and>
    nbu_list_insert_begin la d m = Some (NBU_SUCCESS, m2) \<and> elems m2 la (d # ds) \<and>
    nbu_list_count la m1 = Some (of_nat (length ds + 1)) \<and> nbu_list_count la m2 = Some (of_nat (length ds + 1)) \<and>
    (\<forall>lb es. elems m lb es \<and> apart m la lb \<longrightarrow> elems m1 lb es \<and> elems m2 lb es)"
proof -
  obtain as where L: "list_at m la as" and ds: "map (dat m) as = ds" using E by (auto simp: elems_def)
  obtain m1 where m1: "nbu_list_insert_end la d m = Some (NBU_SUCCESS, m1)" "ins_post la as d (as @ [m_brk m]) m m1"
    using insert_end_ok [OF L av] by blast
  obtain m2 where m2: "nbu_list_insert_begin la d m = Some (NBU_SUCCESS, m2)" "ins_post la as d (m_brk m # as) m m2"
    using insert_begin_ok [OF L av] by blast
  have e: "elems m1 la (ds @ [d])" "elems m2 la (d # ds)"
    using ins_post_elems [OF L m1(2), of as "[]"] ins_post_elems [OF L m2(2), of "[]" as] ds by auto
  have "elems m1 lb es \<and> elems m2 lb es" if "elems m lb es" "apart m la lb" for lb es
    using elems_frame [OF L that] ins_postD(7) [OF m1(2)] ins_postD(7) [OF m2(2)] by blast
  with m1(1) m2(1) e elems_count [OF e(1)] elems_count [OF e(2)] show ?thesis
    by (intro exI [of _ m1] exI [of _ m2]) simp
qed

text \<open>A memory with one list of two data, for the examples.\<close>

definition ex_header :: "int nbu_list_t" where
  "ex_header = \<lparr>l_count = 2, l_data_size = 4, l_term = None, l_iter = 4\<rparr>"

definition ex_list :: "nat \<Rightarrow> int mem" where
  "ex_list k = \<lparr>m_nodes = [2 \<mapsto> \<lparr>nd_prev = 6, nd_next = 4, nd_data = 0\<rparr>, 4 \<mapsto> \<lparr>nd_prev = 2, nd_next = 6, nd_data = 3\<rparr>,
       6 \<mapsto> \<lparr>nd_prev = 4, nd_next = 2, nd_data = 5\<rparr>],
     m_lists = [2 \<mapsto> ex_header], m_objs = [3 \<mapsto> 7, 5 \<mapsto> 8], m_brk = 7, m_avail = k\<rparr>"

lemma ex_list_at [simp]: "list_at (ex_list k) 2 [4, 6]" "dat (ex_list k) 4 = 3" "dat (ex_list k) 6 = 5"
  "m_objs (ex_list k) = [3 \<mapsto> 7, 5 \<mapsto> 8]" "m_brk (ex_list k) = 7" "m_avail (ex_list k) = k"
  "m_lists (ex_list k) 2 = Some ex_header" "get_iter 2 (ex_list k) = Some 4" "live (ex_list k) 4"
  by (simp_all add: ex_list_def ex_header_def list_at_def live_def ring_def nxt_def prv_def dat_def get_iter_def)

lemma ex_dispose [simp]: "dispose ex_header d h = free_obj d h"
  by (simp add: dispose_def ex_header_def)

lemma ex_elems [simp]: "elems (ex_list k) 2 [3, 5]"
  unfolding elems_def by (rule exI [of _ "[4, 6]"]) simp

theorem insert_at_ends_witness:
  "\<exists>m1 m2. nbu_list_insert_end 2 9 (ex_list 4) = Some (NBU_SUCCESS, m1) \<and> elems m1 2 [3, 5, 9] \<and>
    nbu_list_insert_begin 2 9 (ex_list 4) = Some (NBU_SUCCESS, m2) \<and> elems m2 2 [9, 3, 5]"
  using insert_at_ends [of "ex_list 4" 2 "[3, 5]" 9] by auto

text \<open>
  Without memory for a node every insertion returns \<open>NBU_ERROR\<close> and changes nothing.
\<close>

theorem insert_without_memory:
  assumes "elems m la ds" and "m_avail m = 0" and "get_iter la m = Some it" and "it \<noteq> 0" and "live m it"
  shows "nbu_list_insert_end la d m = Some (NBU_ERROR, m) \<and> nbu_list_insert_begin la d m = Some (NBU_ERROR, m) \<and>
    nbu_list_insert_after la d m = Some (NBU_ERROR, m) \<and> nbu_list_insert_before la d m = Some (NBU_ERROR, m)"
proof -
  obtain as where L: "list_at m la as" using assms(1) by (auto simp: elems_def)
  show ?thesis
    using insert_oom [OF L assms(2)] list_at_live [OF L, of la] assms(3-5)
    by (simp add: nbu_list_insert_end_def nbu_list_insert_begin_def nbu_list_insert_after_def nbu_list_insert_before_def heap_simps)
qed

theorem insert_without_memory_witness: "nbu_list_insert_end 2 9 (ex_list 0) = Some (NBU_ERROR, ex_list 0)"
  using insert_without_memory [of "ex_list 0" 2 "[3, 5]" 4 9] by simp

text \<open>
  Reading by index gives the datum at this position of the sequence, and \<open>NULL\<close> outside it.
\<close>

theorem get_at_index_nth:
  assumes "elems m la ds" and "length ds < 2 ^ 32" and "la \<notin> set ds"
  shows "map_option fst (nbu_list_get_at_index la i m) = Some (if unat i < length ds then ds ! unat i else 0)"
proof -
  obtain as where L: "list_at m la as" and ds: "map (dat m) as = ds" using assms(1) by (auto simp: elems_def)
  have "la \<notin> dat m ` set as" "length as < 2 ^ 32" using assms(2,3) ds by auto
  from get_at_index_ok [OF L this(2,1), of i] show ?thesis by (simp add: ds [symmetric])
qed

theorem get_at_index_nth_witness: "map_option fst (nbu_list_get_at_index 2 1 (ex_list 0)) = Some 5"
  using get_at_index_nth [of "ex_list 0" 2 "[3, 5]" 1] by simp

text \<open>
  Removing the datum under the iterator takes it out of the sequence, disposes of it once, frees
  its node, and leaves the iterator on the next datum, or on the end of the list.
\<close>

theorem delete_forward_removes:
  assumes L: "list_at m la (xs @ y # ys)" and it: "get_iter la m = Some y"
    and l: "m_lists m la = Some l" and disp: "dispose l (dat m y) (m_objs m) = Some h"
  shows "\<exists>m'. nbu_list_delete_forward la m = Some m' \<and> elems m' la (map (dat m) (xs @ ys)) \<and> m_objs m' = h \<and>
    \<not> live m' y \<and> get_iter la m' = Some (hd (ys @ [la]))"
proof -
  have ai: "at_iter m la (y # ys)" using it by (simp add: at_iter_def)
  obtain m1 where m1: "nbu_list_delete_forward la m = Some (upd_iter la (hd (ys @ [la])) m1)"
    "del_post la (xs @ y # ys) y (xs @ ys) h m m1"
    using delete_forward_ok [OF L ai l disp] by blast
  note D = del_postD [OF m1(2)]
  let ?m = "upd_iter la (hd (ys @ [la])) m1"
  have "y \<notin> set (xs @ ys)" using L by (auto simp: list_at_def)
  then have "map (dat ?m) (xs @ ys) = map (dat m) (xs @ ys)" using D(2) by (auto simp: heap_simps)
  then have "elems ?m la (map (dat m) (xs @ ys))" using D(1) unfolding elems_def by (metis list_at_upd_iter)
  moreover have "get_iter la ?m = Some (hd (ys @ [la]))"
    using list_at_header [OF D(1)] by (auto simp: get_iter_def upd_iter_def)
  ultimately show ?thesis using m1(1) D(3,8) by (auto simp: heap_simps)
qed

theorem delete_forward_removes_witness:
  "\<exists>m'. nbu_list_delete_forward 2 (ex_list 0) = Some m' \<and> elems m' 2 [5] \<and> m_objs m' = [5 \<mapsto> 8] \<and> get_iter 2 m' = Some 6"
proof -
  have "free_obj 3 [3 \<mapsto> 7, 5 \<mapsto> 8 :: int] = Some [5 \<mapsto> 8]" by (auto simp: free_obj_def)
  then show ?thesis using delete_forward_removes [of "ex_list 0" 2 "[]" 4 "[6]" ex_header "[5 \<mapsto> 8]"] by auto
qed

text \<open>
  C22: Destroying a list disposes of every datum in order and frees the header and every node; nothing
  outside the list changes.
\<close>

theorem destroy_frees_all:
  assumes L: "list_at m la as" and l: "m_lists m la = Some l"
    and disp: "dispose_all l (map (dat m) as) (m_objs m) = Some h"
  shows "\<exists>m'. nbu_list_destroy la m = Some m' \<and> m_objs m' = h \<and> m_lists m' la = None \<and>
    (\<forall>a \<in> set (la # as). \<not> live m' a) \<and> frame (set (la # as)) m m'"
  by (rule list_destroy_ok [OF assms]) blast

theorem destroy_frees_all_witness:
  "\<exists>m'. nbu_list_destroy 2 (ex_list 0) = Some m' \<and> m_objs m' = Map.empty \<and> \<not> live m' 2 \<and> \<not> live m' 4 \<and> \<not> live m' 6"
proof -
  have "free_obj 3 [3 \<mapsto> 7, 5 \<mapsto> 8 :: int] = Some [5 \<mapsto> 8]" "free_obj 5 [5 \<mapsto> 8 :: int] = Some Map.empty"
    by (auto simp: free_obj_def)
  then show ?thesis using destroy_frees_all [of "ex_list 0" 2 "[4, 6]" ex_header Map.empty] by auto
qed

text \<open>
  C21: Sorting returns a new list with the same data in the order of the comparison, leaves the
  objects alone, and the old list with its nodes is gone.
\<close>

theorem sort_sorts:
  assumes L: "list_at m la as" and av: "length as < m_avail m"
    and self: "la \<notin> dat m ` set as" and old: "\<forall>a \<in> set as. dat m a < m_brk m"
    and cmp: "\<forall>d \<in> dat m ` set as. \<forall>e \<in> dat m ` set as. sort_func d e (m_objs m) = Some (cmp d e)"
    and c: "comparison cmp"
  shows "\<exists>ls m' ds. nbu_list_sort la sort_func m = Some (NBU_SUCCESS, ls, m') \<and> elems m' ls ds \<and>
    sorted_wrt (\<lambda>d e. cmp d e \<le> 0) ds \<and> mset ds = mset (map (dat m) as) \<and> m_objs m' = m_objs m \<and>
    (\<forall>a \<in> set (la # as). \<not> live m' a)"
proof -
  obtain m' bs where "nbu_list_sort la sort_func m = Some (NBU_SUCCESS, m_brk m, m')"
    and "list_at m' (m_brk m) bs" and "map (dat m') bs = sort_by cmp (map (dat m) as)"
    and "m_objs m' = m_objs m" and "\<And>a. a \<in> set (la # as) \<Longrightarrow> \<not> live m' a"
    by (rule list_sort_ok [OF L av self, of sort_func cmp]) (use old cmp in blast)+
  then show ?thesis
    using sorted_sort_by [OF c, of "map (dat m) as"]
    by (intro exI [of _ "m_brk m"] exI [of _ m'] exI [of _ "sort_by cmp (map (dat m) as)"]) (auto simp: elems_def)
qed

theorem sort_sorts_witness:
  "\<exists>ls m' ds. nbu_list_sort 2 (\<lambda>d e h. Some (int e - int d)) (ex_list 9) = Some (NBU_SUCCESS, ls, m') \<and> elems m' ls ds \<and>
    sorted_wrt (\<lambda>d e. int e - int d \<le> 0) ds \<and> mset ds = {#3, 5#}"
  using sort_sorts [of "ex_list 9" 2 "[4, 6]" "\<lambda>d e h. Some (int e - int d)" "\<lambda>d e. int e - int d"]
  by (auto simp: comparison_def)

text \<open>
  C32: The sorted list no longer frees its data: whatever terminator the list had, the new list's
  terminator is the empty one that \<open>nbu_list_sort\<close> had put in its place for the destruction of the old list.
\<close>

theorem sort_loses_terminator:
  assumes "list_at m la as" and "length as < m_avail m" and "la \<notin> dat m ` set as"
    and "\<forall>a \<in> set as. dat m a < m_brk m"
    and "\<forall>d \<in> dat m ` set as. \<forall>e \<in> dat m ` set as. sort_func d e (m_objs m) = Some (cmp d e)"
  shows "\<exists>ls m'. nbu_list_sort la sort_func m = Some (NBU_SUCCESS, ls, m') \<and>
    map_option l_term (m_lists m' ls) = Some (Some nbu_list_void_terminator)"
  by (rule list_sort_ok [OF assms(1-3), of sort_func cmp]) (use assms(4,5) in blast)+

theorem sort_loses_terminator_witness:
  "\<exists>ls m'. nbu_list_sort 2 (\<lambda>d e h. Some (int e - int d)) (ex_list 9) = Some (NBU_SUCCESS, ls, m') \<and>
    map_option l_term (m_lists m' ls) = Some (Some nbu_list_void_terminator)"
  using sort_loses_terminator [of "ex_list 9" 2 "[4, 6]" "\<lambda>d e h. Some (int e - int d)" "\<lambda>d e. int e - int d"] by auto

end
