(* ===== verification/Nbu_Split.thy ===== *)
theory Nbu_Split
  imports Nbu_String Nbu_Objs
begin

text \<open>
  \<open>nbu_string_split\<close> of \<open>efixo-libnbu/src/src/string.c\<close>: that it returns, and that the list it makes holds the
  pieces of the string between the separators, as far as the memory goes.
\<close>

subsection \<open>The first occurrence of a separator\<close>

lemma strstr_Some: "strstr s sep = Some k \<Longrightarrow> k + length sep \<le> length s \<and> take (length sep) (drop k s) = sep"
proof (induction s arbitrary: k)
  case Nil
  then show ?case by (simp split: if_splits)
next
  case (Cons x xs)
  show ?case
  proof (cases "take (length sep) (x # xs) = sep")
    case True
    then have "length sep \<le> length (x # xs)" by (metis length_take min.cobounded1)
    then show ?thesis using True Cons.prems by simp
  next
    case False
    then obtain j where "strstr xs sep = Some j" "k = Suc j" using Cons.prems by auto
    then show ?thesis using Cons.IH by simp
  qed
qed

lemma strstr_first: "strstr s sep = Some k \<Longrightarrow> i < k \<Longrightarrow> take (length sep) (drop i s) \<noteq> sep"
proof (induction s arbitrary: k i)
  case Nil
  then show ?case by (simp split: if_splits)
next
  case (Cons x xs)
  then show ?case by (cases i) (auto split: if_splits)
qed

lemma strstr_None: "strstr s sep = None \<longleftrightarrow> (\<forall>i \<le> length s. take (length sep) (drop i s) \<noteq> sep)"
proof (induction s)
  case (Cons x xs)
  have "(\<forall>i \<le> length (x # xs). take (length sep) (drop i (x # xs)) \<noteq> sep) \<longleftrightarrow>
      take (length sep) (x # xs) \<noteq> sep \<and> (\<forall>i \<le> length xs. take (length sep) (drop i xs) \<noteq> sep)" (is "?all \<longleftrightarrow> ?hd \<and> ?tl")
  proof
    assume all: ?all
    have "take (length sep) (drop i xs) \<noteq> sep" if "i \<le> length xs" for i using all [rule_format, of "Suc i"] that by simp
    then show "?hd \<and> ?tl" using all [rule_format, of 0] by simp
  next
    assume "?hd \<and> ?tl"
    then have "take (length sep) (drop i (x # xs)) \<noteq> sep" if "i \<le> length (x # xs)" for i using that by (cases i) auto
    then show ?all by blast
  qed
  with Cons show ?case by auto
qed auto

lemma strstr_before:
  assumes "strstr s sep = Some k" and "sep \<noteq> []"
  shows "strstr (take k s) sep = None"
  unfolding strstr_None
proof (intro allI impI notI)
  fix i assume "take (length sep) (drop i (take k s)) = sep"
  then have e: "take (min (length sep) (k - i)) (drop i s) = sep" by (simp add: drop_take)
  then have "length sep \<le> k - i" by (metis length_take min.bounded_iff order_refl)
  moreover have "0 < length sep" using assms(2) by simp
  ultimately have "i < k" "take (length sep) (drop i s) = sep" using e by (linarith, simp add: min_def)
  then show False using strstr_first [OF assms(1)] by blast
qed

subsection \<open>The pieces\<close>

function pieces :: "string \<Rightarrow> string \<Rightarrow> string list" where
  "pieces sep s = (if sep = [] then [s] else case strstr s sep of
      None \<Rightarrow> [s]
    | Some k \<Rightarrow> take k s # pieces sep (drop (k + length sep) s))"
  by pat_completeness auto
termination
proof (relation "measure (\<lambda>(sep, s). length s)")
  fix sep s k assume "sep \<noteq> []" "strstr s sep = Some k"
  then have "0 < length sep" "k + length sep \<le> length s" using strstr_Some by auto
  then have "length s - (k + length sep) < length s" by linarith
  then show "((sep, drop (k + length sep) s), sep, s) \<in> measure (\<lambda>(sep, s). length s)" by simp
qed simp

declare pieces.simps [simp del]

fun join :: "string \<Rightarrow> string list \<Rightarrow> string" where
  "join sep [] = []"
| "join sep [s] = s"
| "join sep (s # t # ss) = s @ sep @ join sep (t # ss)"

lemma pieces_ne [simp]: "pieces sep s \<noteq> []"
  by (subst pieces.simps) (simp split: option.split)

lemma join_Cons: "ss \<noteq> [] \<Longrightarrow> join sep (s # ss) = s @ sep @ join sep ss"
  by (cases ss) auto

lemma pieces_Some: "sep \<noteq> [] \<Longrightarrow> strstr s sep = Some k \<Longrightarrow> pieces sep s = take k s # pieces sep (drop (k + length sep) s)"
  by (subst pieces.simps) simp

lemma pieces_None: "strstr s sep = None \<Longrightarrow> pieces sep s = [s]"
  by (subst pieces.simps) simp

lemma join_pieces: "sep \<noteq> [] \<Longrightarrow> join sep (pieces sep s) = s"
proof (induction sep s rule: pieces.induct)
  case (1 sep s)
  show ?case
  proof (cases "strstr s sep")
    case None
    then show ?thesis by (simp add: pieces_None)
  next
    case (Some k)
    have "take k s @ sep @ drop (k + length sep) s = s"
      using strstr_Some [OF Some] append_take_drop_id [of k s] append_take_drop_id [of "length sep" "drop k s"] by (simp add: add.commute)
    then show ?thesis using 1 Some by (simp add: pieces_Some join_Cons)
  qed
qed

lemma pieces_free: "sep \<noteq> [] \<Longrightarrow> p \<in> set (pieces sep s) \<Longrightarrow> strstr p sep = None"
proof (induction sep s rule: pieces.induct)
  case (1 sep s)
  then show ?case
    by (cases "strstr s sep") (auto simp: pieces_None pieces_Some strstr_before)
qed

subsection \<open>The loop\<close>

lemma split_loop_empty:
  assumes ret: "split_loop la s sep m = Some r"
  shows "sep \<noteq> []"
proof (rule split_loop.raw_induct [where P = "\<lambda>la s sep m r. sep \<noteq> []", OF _ ret])
  fix f la s sep m r
  assume IH: "\<And>la s sep m r. f la s sep m = Some r \<Longrightarrow> sep \<noteq> []"
    and run: "(case strstr s sep of None \<Rightarrow> Some (s, m)
      | Some k \<Rightarrow> do {
          let (d, m) = calloc_obj (take k s) m;
          (_, m) \<leftarrow> nbu_list_insert_end la d m;
          f la (drop (k + length sep) s) sep m }) = Some r"
  show "sep \<noteq> []"
  proof
    assume e: "sep = []"
    have "strstr s [] = Some 0" by (cases s) auto
    with run e obtain m' where "f la s [] m' = Some r" by (auto simp: bind_Some_iff split_beta Let_def)
    then show False using IH by blast
  qed
qed

text \<open>One item: the copy of a piece goes to the end of the list, or nowhere when the memory does not do for both.\<close>

lemma add_piece:
  assumes O: "objs_at m la ps" and c: "calloc_obj s m = (d, m1)"
  obtains r m2 qs where "nbu_list_insert_end la d m1 = Some (r, m2)" and "objs_at m2 la (ps @ qs)"
    and "map snd qs = (if 2 \<le> m_avail m then [s] else [])" and "m_avail m2 = m_avail m - 2"
proof (cases "m_avail m = 0")
  case True
  then have "d = 0" "m1 = m" using c by (simp_all add: calloc_obj_def)
  then show ?thesis using that [of NBU_ERROR m "[]"] objs_insert_oom [OF O True] O True by simp
next
  case False
  then have d: "d = m_brk m" and m1: "m1 = m\<lparr>m_objs := (m_objs m)(m_brk m \<mapsto> s), m_brk := Suc (m_brk m), m_avail := m_avail m - 1\<rparr>"
    using c by (auto simp: calloc_obj_def)
  have fresh: "d \<notin> fst ` set ps" "d \<noteq> la" "0 < d"
    using objs_at_bound [OF O, of "m_brk m"] objs_at_header [OF O] by (auto simp: d)
  have O1: "objs_at m1 la ps" using fresh(1) by (intro objs_at_mem [OF O]) (auto simp: m1 d image_iff)
  show ?thesis
  proof (cases "m_avail m = 1")
    case True
    then have "m_avail m1 = 0" by (simp add: m1)
    from that [of NBU_ERROR m1 "[]"] objs_insert_oom [OF O1 this] O1 True show ?thesis by (simp add: m1)
  next
    case False2: False
    obtain m2 where "nbu_list_insert_end la d m1 = Some (NBU_SUCCESS, m2)" "objs_at m2 la (ps @ [(d, s)])"
      "m_avail m2 = m_avail m1 - 1"
      by (rule objs_insert_end [OF O1, of d s]) (use False False2 fresh in \<open>auto simp: m1 d\<close>)
    then show ?thesis using that [of NBU_SUCCESS m2 "[(d, s)]"] False False2 by (simp add: m1)
  qed
qed

lemma take_piece: "take (n div 2) (x # xs) = (if 2 \<le> n then [x] else []) @ take ((n - 2) div 2) xs" for n :: nat
proof (cases "2 \<le> n")
  case True
  then obtain j where "n = j + 2" by (metis le_add_diff_inverse2)
  then show ?thesis by simp
qed simp

lemma split_loop_ok:
  assumes "sep \<noteq> []" and "objs_at m la ps"
  shows "\<exists>rest m1 qs. split_loop la s sep m = Some (rest, m1) \<and> objs_at m1 la (ps @ qs) \<and>
    (\<exists>xs. pieces sep s = xs @ [rest] \<and> map snd qs = take (m_avail m div 2) xs \<and> m_avail m1 = m_avail m - 2 * length xs)"
  using assms
proof (induction sep s arbitrary: m ps rule: pieces.induct)
  case (1 sep s)
  show ?case
  proof (cases "strstr s sep")
    case None
    then show ?thesis using 1(3)
      by (subst split_loop.simps) (auto simp: pieces_None intro!: exI [of _ "[]"])
  next
    case (Some k)
    obtain d m1 where c: "calloc_obj (take k s) m = (d, m1)" by fastforce
    obtain r m2 qs where a: "nbu_list_insert_end la d m1 = Some (r, m2)" "objs_at m2 la (ps @ qs)"
      "map snd qs = (if 2 \<le> m_avail m then [take k s] else [])" "m_avail m2 = m_avail m - 2"
      using add_piece [OF 1(3) c] by metis
    obtain rest m3 rs xs where l: "split_loop la (drop (k + length sep) s) sep m2 = Some (rest, m3)" "objs_at m3 la ((ps @ qs) @ rs)"
      "pieces sep (drop (k + length sep) s) = xs @ [rest]" "map snd rs = take (m_avail m2 div 2) xs" "m_avail m3 = m_avail m2 - 2 * length xs"
      using 1(1) [OF 1(2) Some 1(2) a(2)] by blast
    have "split_loop la s sep m = Some (rest, m3)"
      using Some c a(1) l(1) by (subst split_loop.simps) simp
    moreover have "map snd (qs @ rs) = take (m_avail m div 2) (take k s # xs)"
      unfolding take_piece using a(3,4) l(4) by simp
    ultimately show ?thesis
      using l(2,3,5) a(4) pieces_Some [OF 1(2) Some]
      by (intro exI [of _ rest] exI [of _ m3] exI [of _ "qs @ rs"] conjI exI [of _ "take k s # xs"]) simp_all
  qed
qed

subsection \<open>What the split promises\<close>

lemma split_ok:
  assumes "sep \<noteq> []" and "0 < m_avail m" and "0 < m_brk m"
  shows "\<exists>m' ps. nbu_string_split str sep m = Some (NBU_SUCCESS, m_brk m, m') \<and> objs_at m' (m_brk m) ps \<and>
    map snd ps = take ((m_avail m - 1) div 2) (pieces sep str)"
proof -
  obtain m1 where n: "nbu_list_new 4 m = Some (m_brk m, m1)" "objs_at m1 (m_brk m) []" "m_avail m1 = m_avail m - 1"
    using objs_at_new [OF assms(2,3), of 4] by metis
  obtain rest m2 qs xs where l: "split_loop (m_brk m) str sep m1 = Some (rest, m2)" "objs_at m2 (m_brk m) qs"
    "pieces sep str = xs @ [rest]" "map snd qs = take (m_avail m1 div 2) xs" "m_avail m2 = m_avail m1 - 2 * length xs"
    using split_loop_ok [OF assms(1) n(2), of str] by auto
  obtain d m3 where c: "calloc_obj rest m2 = (d, m3)" by fastforce
  obtain r m4 rs where a: "nbu_list_insert_end (m_brk m) d m3 = Some (r, m4)" "objs_at m4 (m_brk m) (qs @ rs)"
    "map snd rs = (if 2 \<le> m_avail m2 then [rest] else [])"
    using add_piece [OF l(2) c] by metis
  have "2 \<le> m_avail m2 \<longleftrightarrow> length xs < m_avail m1 div 2" using l(5) by linarith
  then have "map snd (qs @ rs) = take (m_avail m1 div 2) (xs @ [rest])" using a(3) l(4) by (simp add: take_Cons')
  then show ?thesis using n l a c by (intro exI [of _ m4] exI [of _ "qs @ rs"]) (simp add: nbu_string_split_def)
qed


text \<open>
  C23: The list that the split makes holds the pieces of the reference splitting in order, as many as the memory does
  for (a copy and a node each), and \<open>NBU_SUCCESS\<close> is returned even if some are missing.  The pieces joined with the
  separator are the string, and none of them contains the separator.
\<close>

theorem split_pieces:
  assumes "sep \<noteq> []" and "0 < m_avail m" and "0 < m_brk m"
  shows "\<exists>m' ps. nbu_string_split str sep m = Some (NBU_SUCCESS, m_brk m, m') \<and> objs_at m' (m_brk m) ps \<and>
    map snd ps = take ((m_avail m - 1) div 2) (pieces sep str) \<and> join sep (pieces sep str) = str \<and>
    (\<forall>p \<in> set (pieces sep str). strstr p sep = None)"
  using split_ok [OF assms, of str] join_pieces [OF assms(1)] pieces_free [OF assms(1)] by blast

definition ex_split :: "nat \<Rightarrow> string mem" where
  "ex_split k = \<lparr>m_nodes = Map.empty, m_lists = Map.empty, m_objs = Map.empty, m_brk = 1, m_avail = k\<rparr>"

lemma ex_pieces: "pieces '','' ''a,bc,'' = [''a'', ''bc'', []]"
  by (simp add: pieces.simps)


theorem split_pieces_witness:
  "(\<exists>m' ps. nbu_string_split ''a,bc,'' '','' (ex_split 9) = Some (NBU_SUCCESS, 1, m') \<and> objs_at m' 1 ps \<and> map snd ps = [''a'', ''bc'', []]) \<and>
   (\<exists>m' ps. nbu_string_split ''a,bc,'' '','' (ex_split 4) = Some (NBU_SUCCESS, 1, m') \<and> objs_at m' 1 ps \<and> map snd ps = [''a''])"
  using split_pieces [of "'',''" "ex_split 9" "''a,bc,''"] split_pieces [of "'',''" "ex_split 4" "''a,bc,''"]
  by (simp add: ex_pieces) (simp add: ex_split_def)

end
