(* ===== verification/U32_Bits.thy ===== *)
theory U32_Bits
  imports Prelude
begin

unbundle bit_operations_syntax

text \<open>
  Powers of two and masks among the 32-bit words, for the netmasks of \<open>net.c\<close> and the indices of
  the byte queue.
\<close>

lemma pow2_nat:
  fixes n :: nat
  assumes "n AND (n - 1) = 0" and "0 < n"
  shows "\<exists>k. n = 2 ^ k"
proof -
  obtain k where k: "2 ^ k \<le> n" "n < 2 ^ (k + 1)" using ex_power_ivl1 [of 2 n] assms(2) by auto
  have b: "bit m k" if "2 ^ k \<le> m" "m < 2 ^ (k + 1)" for m :: nat
  proof -
    have "m div 2 ^ k = 1" using that by (intro div_nat_eqI) simp_all
    then show ?thesis by (simp add: bit_iff_odd)
  qed
  show ?thesis
  proof (rule ccontr)
    assume "\<nexists>k. n = 2 ^ k"
    then have "2 ^ k < n" using k(1) by (metis le_neq_implies_less)
    then have "bit n k" "bit (n - 1) k" using b [of n] b [of "n - 1"] k by auto
    then have "bit (n AND (n - 1)) k" by (simp add: bit_and_iff)
    then show False using assms(1) by simp
  qed
qed

lemma u32_pow2:
  fixes x :: u32
  assumes "x \<noteq> 0" and "x AND (x - 1) = 0"
  shows "\<exists>k < 32. x = 2 ^ k"
proof -
  have "unat (x AND (x - 1)) = unat x AND unat (x - 1)" by (simp add: unsigned_and_eq)
  moreover have "unat (x - 1) = unat x - 1" using assms(1) by (simp add: unat_minus_one)
  moreover have "0 < unat x" using assms(1) by (simp add: unat_gt_0)
  ultimately obtain k where k: "unat x = 2 ^ k" using pow2_nat assms(2) by (metis unsigned_0)
  have "unat x < 2 ^ 32" by (rule unat_u32_less)
  then have "k < 32" unfolding k by (rule power_less_imp_less_exp [rotated]) simp
  moreover have "x = of_nat (unat x)" by simp
  then have "x = 2 ^ k" unfolding k by simp
  ultimately show ?thesis by blast
qed

lemma unat_pow2 [simp]: "k < 32 \<Longrightarrow> unat (2 ^ k :: u32) = 2 ^ k"
proof -
  assume "k < 32"
  then have "(2 :: nat) ^ k < 2 ^ 32" by (intro power_strict_increasing) simp_all
  then show ?thesis using unat_of_nat_u32 [of "2 ^ k"] by simp
qed

lemma pow2_and_pred [simp]: "k < 32 \<Longrightarrow> (2 ^ k :: u32) AND (2 ^ k - 1) = 0"
  by (rule bit_eqI) (auto simp: bit_simps simp flip: mask_eq_exp_minus_1)

text \<open>A word masked by a power of two less one is its remainder.\<close>

lemma unat_and_mask: "k < 32 \<Longrightarrow> unat ((w :: u32) AND (2 ^ k - 1)) = unat w mod 2 ^ k"
  by (simp only: mask_eq_exp_minus_1 [symmetric] take_bit_eq_mask [symmetric] unsigned_take_bit_eq) (simp only: take_bit_eq_mod)

text \<open>The remainder does not see the wrap-around of a sum.\<close>

lemma unat_add_mod_pow2: "k \<le> 32 \<Longrightarrow> unat ((a :: u32) + b) mod 2 ^ k = (unat a + unat b) mod 2 ^ k"
proof -
  assume "k \<le> 32"
  then have "(2 :: nat) ^ k dvd 2 ^ 32" by (rule le_imp_power_dvd)
  then show ?thesis by (simp add: unat_word_ariths mod_mod_cancel)
qed

end
