(* ===== verification/Nbu_Net.thy ===== *)
theory Nbu_Net
  imports Nbu_String U32_Bits
begin

unbundle bit_operations_syntax

text \<open>
  Addresses and host names, \<open>efixo-libnbu/src/src/net.c\<close>: validation, splitting into parts and joining.
  The parts of an address are strings, since the code fills each array with zeros and prints into
  it.  \<open>inet_aton\<close>, \<open>inet_ntoa\<close>, \<open>ffs\<close> and the name service are used by the functions at the
  end; the name service is an argument.
\<close>

subsection \<open>Validation\<close>

text \<open>The test \<open>((p0 | p1 | ...) & 0xffffff00) == 0\<close> on the numbers that were scanned.\<close>

definition octets_ok :: "int list \<Rightarrow> bool" where
  "octets_ok ps \<longleftrightarrow> foldr (OR) (map word_of_int ps) (0 :: u32) AND 0xffffff00 = 0"

abbreviation (input) IP_CHARS :: string where "IP_CHARS \<equiv> ''0123456789.''"
abbreviation (input) MAC_CHARS :: string where "MAC_CHARS \<equiv> ''0123456789abcdefABCDEF:''"

definition nbu_net_validate_ip :: "string option \<Rightarrow> int exec" where
  "nbu_net_validate_ip ip = (case ip of None \<Rightarrow> Some NBU_ERROR
    | Some s \<Rightarrow> do {
        (_, buffer) \<leftarrow> bcopy 17 s;
        let n = length buffer;
        let parts = scan_sep 10 3 (CHR ''.'') 4 buffer;
        Some (if n > 6 \<and> n < 16 \<and> strspn buffer IP_CHARS = n \<and> length parts = 4 \<and> octets_ok parts
              then NBU_SUCCESS else NBU_ERROR) })"

definition nbu_net_split_ip :: "string option \<Rightarrow> (int \<times> string list option) exec" where
  "nbu_net_split_ip ip = (case ip of None \<Rightarrow> Some (NBU_ERROR, None)
    | Some s \<Rightarrow> do {
        (_, buffer) \<leftarrow> bcopy 17 s;
        let n = length buffer;
        let iparts = scan_sep 10 3 (CHR ''.'') 4 buffer;
        if n > 6 \<and> n < 16 \<and> strspn buffer IP_CHARS = n \<and> length iparts = 4 \<and> octets_ok iparts
        then do {
          parts \<leftarrow> those (map (\<lambda>i. map_option snd (bprintf 4 (dec_int i))) iparts);
          Some (NBU_SUCCESS, Some parts) }
        else Some (NBU_ERROR, None) })"

text \<open>The sum of the shifted parts of a netmask, \<open>None\<close> when \<open>strtol\<close> reports an error.\<close>

fun netmask_loop :: "string list \<Rightarrow> nat \<Rightarrow> u32 \<Rightarrow> u32 option" where
  "netmask_loop [] k nm = Some nm"
| "netmask_loop (p # ps) k nm = (let (i, _, erange) = strtol 10 p in
     if erange then None else netmask_loop ps (k - 8) (nm + push_bit k (word_of_int i)))"

definition nbu_net_validate_netmask :: "string option \<Rightarrow> int exec" where
  "nbu_net_validate_netmask netmask = (case netmask of None \<Rightarrow> Some NBU_ERROR
    | Some s \<Rightarrow> do {
        (r, parts) \<leftarrow> nbu_net_split_ip (Some s);
        if r = 0 then do {
          parts \<leftarrow> parts;
          Some (case netmask_loop parts 24 0 of
              None \<Rightarrow> NBU_ERROR
            | Some nm \<Rightarrow> if - (nm AND - nm) = nm then NBU_SUCCESS else NBU_ERROR) }
        else Some NBU_ERROR })"

definition nbu_net_validate_mac :: "string option \<Rightarrow> int exec" where
  "nbu_net_validate_mac mac = (case mac of None \<Rightarrow> Some NBU_ERROR
    | Some s \<Rightarrow> do {
        (_, buffer) \<leftarrow> bcopy 18 s;
        Some (if length buffer = 17 \<and> length (scan_sep 16 2 (CHR '':'') 6 buffer) = 6
              then NBU_SUCCESS else NBU_ERROR) })"

definition nbu_net_split_mac :: "string option \<Rightarrow> (int \<times> string list option) exec" where
  "nbu_net_split_mac mac = (case mac of None \<Rightarrow> Some (NBU_ERROR, None)
    | Some s \<Rightarrow> do {
        (_, buffer) \<leftarrow> bcopy 19 s;
        let n = length buffer;
        let mparts = scan_sep 16 2 (CHR '':'') 6 buffer;
        if n > 10 \<and> n < 18 \<and> strspn buffer MAC_CHARS = n \<and> length mparts = 6 \<and> octets_ok mparts
        then do {
          parts \<leftarrow> those (map (\<lambda>i. map_option snd (bprintf 3 (HEX2 (nat i)))) mparts);
          Some (NBU_SUCCESS, Some parts) }
        else Some (NBU_ERROR, None) })"

subsection \<open>Host names\<close>

definition nbu_net_split_hostname ::
  "string option \<Rightarrow> buf option \<Rightarrow> u32 \<Rightarrow> buf option \<Rightarrow> u32 \<Rightarrow> (int \<times> buf option \<times> buf option) exec" where
  "nbu_net_split_hostname hostname host host_len domain domain_len =
     (case (hostname, host, domain) of
        (Some s, Some _, Some _) \<Rightarrow> (case strchr s (CHR ''.'') of
            Some c \<Rightarrow>
              if drop (c + 1) s \<noteq> [] then do {
                (_, host) \<leftarrow> nbu_string_printf host host_len (Some (take c s));
                (_, domain) \<leftarrow> nbu_string_copy domain domain_len (Some (drop (c + 1) s));
                Some (NBU_SUCCESS, host, domain) }
              else Some (NBU_ERROR, host, domain)
          | None \<Rightarrow> Some (NBU_ERROR, host, domain))
      | _ \<Rightarrow> Some (NBU_ERROR, host, domain))"

definition nbu_net_join_hostname :: "string option \<Rightarrow> string option \<Rightarrow> buf \<Rightarrow> u32 \<Rightarrow> (int \<times> buf) exec" where
  "nbu_net_join_hostname host domain hostname hostname_len = (case (host, domain) of
      (Some h, Some d) \<Rightarrow>
        if length h > 0 \<and> length h < 21 then do {
          (_, b) \<leftarrow> nbu_string_printf (Some hostname) hostname_len (Some (h @ ''.'' @ d));
          b \<leftarrow> b;
          Some (NBU_SUCCESS, b) }
        else Some (NBU_ERROR, hostname)
    | _ \<Rightarrow> Some (NBU_ERROR, hostname))"

subsection \<open>Joining\<close>

text \<open>The loop over the parts, which uses the destination as its buffer.\<close>

fun join_loop :: "nat \<Rightarrow> nat \<Rightarrow> string list \<Rightarrow> int list \<Rightarrow> buf \<Rightarrow> u32 \<Rightarrow> (int list option \<times> buf) exec" where
  "join_loop base w [] parts b len = Some (Some parts, b)"
| "join_loop base w (p # ps) parts b len = do {
     (_, b) \<leftarrow> nbu_string_copy (Some b) len (Some p);
     b \<leftarrow> b;
     s \<leftarrow> read_str b;
     if length s < 1 \<or> length s > w then Some (None, b)
     else let (i, rest, erange) = strtol base s in
       if rest = s \<or> rest \<noteq> [] \<or> erange then Some (None, b)
       else join_loop base w ps (parts @ [i]) b len }"

fun join_with :: "char \<Rightarrow> string list \<Rightarrow> string" where
  "join_with c [] = []"
| "join_with c [s] = s"
| "join_with c (s # ss) = s @ c # join_with c ss"

definition join_parts ::
  "nat \<Rightarrow> nat \<Rightarrow> char \<Rightarrow> (int \<Rightarrow> string) \<Rightarrow> string option list \<Rightarrow> buf \<Rightarrow> u32 \<Rightarrow> (int \<times> buf) exec" where
  "join_parts base w sep fmt ps b len = (case those ps of None \<Rightarrow> Some (NBU_ERROR, b)
    | Some ps \<Rightarrow> do {
        (parts, b) \<leftarrow> join_loop base w ps [] b len;
        case parts of None \<Rightarrow> Some (NBU_ERROR, b)
        | Some parts \<Rightarrow>
            if octets_ok parts then do {
              (_, b) \<leftarrow> nbu_string_printf (Some b) len (Some (join_with sep (map fmt parts)));
              b \<leftarrow> b;
              Some (NBU_SUCCESS, b) }
            else Some (NBU_ERROR, b) })"

definition nbu_net_join_ip ::
  "string option \<Rightarrow> string option \<Rightarrow> string option \<Rightarrow> string option \<Rightarrow> buf \<Rightarrow> u32 \<Rightarrow> (int \<times> buf) exec" where
  "nbu_net_join_ip p0 p1 p2 p3 = join_parts 10 3 (CHR ''.'') dec_int [p0, p1, p2, p3]"

definition nbu_net_join_mac ::
  "string option \<Rightarrow> string option \<Rightarrow> string option \<Rightarrow> string option \<Rightarrow> string option \<Rightarrow> string option
     \<Rightarrow> buf \<Rightarrow> u32 \<Rightarrow> (int \<times> buf) exec" where
  "nbu_net_join_mac p0 p1 p2 p3 p4 p5 = join_parts 16 2 (CHR '':'') (\<lambda>i. HEX2 (nat i)) [p0, p1, p2, p3, p4, p5]"

subsection \<open>Numbers in an address\<close>

lemma octet_high_bits:
  assumes "p < 256"
  shows "word_of_nat p AND 0xffffff00 = (0 :: u32)"
proof (rule bit_eqI)
  fix n
  show "bit (word_of_nat p AND 0xffffff00 :: u32) n \<longleftrightarrow> bit (0 :: u32) n"
  proof (cases "n < 8")
    case True
    then have "n \<in> {0, 1, 2, 3, 4, 5, 6, 7}" by auto
    then have "\<not> bit (0xffffff00 :: u32) n" by (auto simp: bit_simps)
    then show ?thesis by (simp add: bit_and_iff)
  next
    case False
    then have "2 ^ 8 \<le> (2 :: nat) ^ n" by (intro power_increasing) auto
    then have "p div 2 ^ n = 0" using assms by simp
    then have "\<not> bit p n" by (simp add: bit_iff_odd)
    then show ?thesis by (simp add: bit_and_iff bit_of_nat_iff bit_simps)
  qed
qed

lemma octets_ok_small:
  assumes "\<forall>p \<in> set ps. p < 256"
  shows "octets_ok (map int ps)"
  using assms unfolding octets_ok_def
  by (induction ps) (auto simp: octet_high_bits bit.conj_disj_distrib2)

lemma digit_head:
  assumes "is_base 10 c" and "isdigit c"
  shows "\<not> isspace c" and "c \<noteq> CHR ''-''" and "c \<noteq> CHR ''+''"
  using assms by (auto simp: isspace_def isdigit_def)

lemma scan_dec:
  assumes w: "length (dec_nat a) \<le> w" and rest: "rest = [] \<or> \<not> is_base 10 (hd rest)"
  shows "scan_num 10 w (dec_nat a @ rest) = Some (int a, rest)"
proof -
  obtain c cs where cs: "dec_nat a = c # cs" by (cases "dec_nat a") auto
  have c: "is_base 10 c" "isdigit c" using dec_nat_digits [of c a] cs by auto
  note h = digit_head [OF c]
  have field: "take w (dec_nat a @ rest) = dec_nat a @ take (w - length (dec_nat a)) rest" using w by simp
  have tw: "takeWhile (is_base 10) (dec_nat a @ take k rest) = dec_nat a" for k
  proof -
    have "takeWhile (is_base 10) (take k rest) = []" using rest by (cases k; cases rest) auto
    moreover have "\<forall>x \<in> set (dec_nat a). is_base 10 x" using dec_nat_digits by blast
    ultimately show ?thesis by (simp add: takeWhile_append2)
  qed
  have "dropWhile isspace (dec_nat a @ rest) = dec_nat a @ rest" using h(1) by (simp add: cs)
  moreover have "split_sign (dec_nat a @ take k rest) = (False, dec_nat a @ take k rest)" for k
    using h by (simp add: split_sign_def cs)
  ultimately show ?thesis using w tw by (simp add: scan_num_def field)
qed

lemma strtol_dec:
  assumes "a < 2147483648"
  shows "strtol 10 (dec_nat a) = (int a, [], False)"
proof -
  obtain c cs where cs: "dec_nat a = c # cs" by (cases "dec_nat a") auto
  have c: "is_base 10 c" "isdigit c" using dec_nat_digits [of c a] cs by auto
  note h = digit_head [OF c]
  have d: "\<forall>x \<in> set (dec_nat a). is_base 10 x" using dec_nat_digits by blast
  then have tw: "takeWhile (is_base 10) (dec_nat a) = dec_nat a" "dropWhile (is_base 10) (dec_nat a) = []" by simp_all
  have "dropWhile isspace (dec_nat a) = dec_nat a" using h(1) by (simp add: cs)
  moreover have "split_sign (dec_nat a) = (False, dec_nat a)" using h by (simp add: split_sign_def cs)
  ultimately show ?thesis using assms by (simp add: strtol_def skip_0x_def tw Let_def)
qed

subsection \<open>Netmasks\<close>

lemma ex_below_or_at:
  assumes "P \<longleftrightarrow> Q n" and "\<And>k. k < n \<Longrightarrow> R k \<longleftrightarrow> Q k"
  shows "P \<or> (\<exists>k < n. R k) \<longleftrightarrow> (\<exists>k \<le> (n :: nat). Q k)"
  using assms by (auto simp: le_less)

lemma netmask_trick:
  fixes nm :: "u32"
  shows "- (nm AND - nm) = nm \<longleftrightarrow> nm = 0 \<or> (\<exists>k < 32. nm = - (2 ^ k))"
proof
  assume a: "- (nm AND - nm) = nm"
  define x where "x = nm AND - nm"
  have nm: "nm = - x" using a by (simp add: x_def)
  show "nm = 0 \<or> (\<exists>k < 32. nm = - (2 ^ k))"
  proof (cases "x = 0")
    case True
    then show ?thesis using nm by simp
  next
    case False
    have "x = x AND - x" using x_def nm by (simp add: and.commute)
    also have "- x = NOT (x - 1)" by (simp add: minus_eq_not_minus_1 not_diff_distrib)
    finally have "x AND (x - 1) = (x AND NOT (x - 1)) AND (x - 1)" by (rule arg_cong)
    also have "\<dots> = x AND (NOT (x - 1) AND (x - 1))" by (rule and.assoc)
    finally have "x AND (x - 1) = 0" by simp
    then obtain k where "k < 32" "x = 2 ^ k" using u32_pow2 False by blast
    then show ?thesis using nm by auto
  qed
next
  assume "nm = 0 \<or> (\<exists>k < 32. nm = - (2 ^ k))"
  then show "- (nm AND - nm) = nm"
  proof
    assume "\<exists>k < 32. nm = - (2 ^ k)"
    then obtain k where k: "k < 32" "nm = - (2 ^ k)" by auto
    have "- (2 ^ k :: u32) AND 2 ^ k = 2 ^ k"
      by (rule bit_eqI) (auto simp: bit_simps k(1) minus_exp_eq_not_mask bit_not_iff bit_mask_iff)
    then show ?thesis using k by simp
  qed simp
qed

subsection \<open>Dotted addresses\<close>

definition dotted :: "nat list \<Rightarrow> string" where
  "dotted ps = join_with (CHR ''.'') (map dec_nat ps)"

lemma dec_nat_chars: "set (dec_nat n) \<subseteq> set ''0123456789''"
proof (induction n rule: dec_nat.induct)
  case (1 n)
  have "list_all (\<lambda>d. digit_chr d \<in> set ''0123456789'') [0..<10]" by code_simp
  then have dd: "\<forall>d \<in> set [0..<10]. digit_chr d \<in> set ''0123456789''" unfolding list_all_iff .
  have d: "digit_chr d \<in> set ''0123456789''" if "d < 10" for d by (rule bspec [OF dd]) (simp add: that)
  define S where "S = set ''0123456789''"
  show ?case
    using 1 d [of n] d [of "n mod 10"] unfolding S_def [symmetric] by (subst dec_nat.simps) auto
qed

lemma join_with_chars: "set (join_with c ss) \<subseteq> insert c (\<Union> (set ` set ss))"
  by (induction c ss rule: join_with.induct) auto

lemma dec_nat_octet: "a < 256 \<Longrightarrow> length (dec_nat a) \<le> 3"
  by (rule dec_nat_length [of a 3]) simp_all

lemma scan_dotted:
  assumes "\<forall>p \<in> set ps. p < 256" and "ps \<noteq> []"
  shows "scan_sep 10 3 (CHR ''.'') (length ps) (dotted ps) = map int ps"
  using assms
proof (induction ps)
  case (Cons p ps)
  have dot: "\<not> is_base 10 (CHR ''.'')" by (simp add: is_base_def digit_val_def)
  have l: "length (dec_nat p) \<le> 3" using Cons.prems by (intro dec_nat_octet) simp
  show ?case
  proof (cases ps)
    case Nil
    then show ?thesis using scan_dec [OF l, of "[]"] by (simp add: dotted_def)
  next
    case (Cons q qs)
    then have "dotted (p # ps) = dec_nat p @ CHR ''.'' # dotted ps" by (simp add: dotted_def)
    moreover have "scan_num 10 3 (dec_nat p @ CHR ''.'' # dotted ps) = Some (int p, CHR ''.'' # dotted ps)"
      using dot by (intro scan_dec [OF l]) simp
    ultimately show ?thesis using Cons.IH Cons.prems Cons by simp
  qed
qed simp

lemma dotted_chars: "set (dotted ps) \<subseteq> set IP_CHARS"
proof -
  define S where "S = set ''0123456789''"
  have "IP_CHARS = ''0123456789'' @ ''.''" by simp
  then have ip: "set IP_CHARS = S \<union> set ''.''" unfolding S_def by (simp only: set_append)
  have "set (dec_nat p) \<subseteq> S" for p unfolding S_def by (rule dec_nat_chars)
  then have "\<Union> (set ` set (map dec_nat ps)) \<subseteq> S" by auto
  then show ?thesis using join_with_chars [of "CHR ''.''" "map dec_nat ps"] unfolding dotted_def ip by fastforce
qed

lemma dotted_length:
  assumes "length ps = 4" and "\<forall>p \<in> set ps. p < 256"
  shows "6 < length (dotted ps)" and "length (dotted ps) < 16"
proof -
  obtain a b c d where ps: "ps = [a, b, c, d]" using assms(1) by (auto simp: numeral_eq_Suc length_Suc_conv)
  have "length (dec_nat x) \<le> 3 \<and> 0 < length (dec_nat x)" if "x \<in> set ps" for x using that assms(2) dec_nat_octet by auto
  then have "length (dec_nat a) \<in> {1..3}" "length (dec_nat b) \<in> {1..3}" "length (dec_nat c) \<in> {1..3}" "length (dec_nat d) \<in> {1..3}"
    by (auto simp: ps Suc_le_eq)
  then show "6 < length (dotted ps)" "length (dotted ps) < 16" by (simp_all add: ps dotted_def)
qed

lemma those_map_Some: "\<forall>x \<in> set xs. f x = Some (g x) \<Longrightarrow> those (map f xs) = Some (map g xs)"
  by (induction xs) auto

lemma split_ip_dotted:
  assumes "length ps = 4" and "\<forall>p \<in> set ps. p < 256"
  shows "nbu_net_split_ip (Some (dotted ps)) = Some (NBU_SUCCESS, Some (map dec_nat ps))"
proof -
  note len = dotted_length [OF assms]
  have sub: "set (dotted ps) \<subseteq> set IP_CHARS" by (rule dotted_chars)
  then have "NUL \<notin> set (dotted ps)" by auto
  then have c: "bcopy 17 (dotted ps) = Some (NBU_SUCCESS, dotted ps)" using len by (subst bcopy_ok) simp_all
  have "scan_sep 10 3 (CHR ''.'') (length ps) (dotted ps) = map int ps" using assms by (intro scan_dotted) auto
  moreover have "octets_ok (map int ps)" by (rule octets_ok_small [OF assms(2)])
  moreover have "strspn (dotted ps) IP_CHARS = length (dotted ps)" using sub by (simp only: strspn_all)
  moreover have "those (map (\<lambda>i. map_option snd (bprintf 4 (dec_int i))) (map int ps)) = Some (map dec_nat ps)"
    unfolding map_map comp_def
  proof (rule those_map_Some, intro ballI)
    fix p assume "p \<in> set ps"
    then have "length (dec_nat p) \<le> 3" using assms(2) dec_nat_octet by simp
    then show "map_option snd (bprintf 4 (dec_int (int p))) = Some (dec_nat p)" by (simp add: bprintf_ok dec_int_def)
  qed
  ultimately show ?thesis using c len assms(1) by (simp add: nbu_net_split_ip_def)
qed

lemma u32_of_int_inj:
  assumes "0 \<le> x" and "x < 2 ^ 32" and "0 \<le> y" and "y < 2 ^ 32"
  shows "(word_of_int x :: u32) = word_of_int y \<longleftrightarrow> x = y"
  using assms by (simp add: word_of_int_eq_iff take_bit_int_eq_self)



subsection \<open>Round trips\<close>

lemma join_loop_ok:
  assumes r: "room b len" and w: "w < unat len" and n: "\<forall>s \<in> set ss. NUL \<notin> set s \<and> s \<noteq> [] \<and> length s \<le> w"
    and num: "\<forall>s \<in> set ss. strtol base s = (val s, [], False)"
  obtains b' where "join_loop base w ss ps b len = Some (Some (ps @ map val ss), b')" and "length b' = length b"
proof -
  have "\<exists>b'. join_loop base w ss ps b len = Some (Some (ps @ map val ss), b') \<and> length b' = length b"
    using r n num
  proof (induction ss arbitrary: ps b)
    case (Cons s ss)
    obtain c b1 where b1: "nbu_string_copy (Some b) len (Some s) = Some (c, Some b1)" "read_str b1 = Some s" "length b1 = length b"
      by (rule copy_into [OF Cons.prems(1), of s]) (use Cons.prems(2) w in \<open>auto simp: take_all\<close>)
    then have "join_loop base w (s # ss) ps b len = join_loop base w ss (ps @ [val s]) b1 len"
      using Cons.prems(2,3) by (auto simp: Suc_le_eq)
    moreover have "room b1 len" using Cons.prems(1) b1(3) by (simp add: room_def)
    ultimately show ?case using Cons.IH [of b1 "ps @ [val s]"] Cons.prems b1(3) by simp
  qed simp
  then show thesis using that by blast
qed

text \<open>
  C29: Splitting a dotted address gives its four numbers as text, and joining them gives the address back.
\<close>

theorem ip_round_trip:
  assumes "a < 256" and "b < 256" and "c < 256" and "d < 256" and "room buf len" and "16 \<le> unat len"
  shows "nbu_net_split_ip (Some (dotted [a, b, c, d])) = Some (NBU_SUCCESS, Some [dec_nat a, dec_nat b, dec_nat c, dec_nat d]) \<and>
    (\<exists>buf'. nbu_net_join_ip (Some (dec_nat a)) (Some (dec_nat b)) (Some (dec_nat c)) (Some (dec_nat d)) buf len = Some (NBU_SUCCESS, buf') \<and>
      read_str buf' = Some (dotted [a, b, c, d]))"
proof -
  let ?ps = "[a, b, c, d]" and ?ss = "map dec_nat [a, b, c, d]"
  let ?val = "\<lambda>s. fst (strtol 10 s)"
  have ps: "\<forall>p \<in> set ?ps. p < 256" using assms by simp
  have num: "strtol 10 (dec_nat p) = (int p, [], False)" if "p < 256" for p using that by (intro strtol_dec) simp
  have ss: "\<forall>s \<in> set ?ss. NUL \<notin> set s \<and> s \<noteq> [] \<and> length s \<le> 3" using assms(1-4) dec_nat_octet by simp
  obtain b1 where b1: "join_loop 10 3 ?ss [] buf len = Some (Some ([] @ map ?val ?ss), b1)" "length b1 = length buf"
    by (rule join_loop_ok [OF assms(5) _ ss, of 10 ?val "[]"]) (use assms num in \<open>simp_all\<close>)
  have vals: "map ?val ?ss = map int ?ps" using assms num by simp
  have fmt: "join_with (CHR ''.'') (map dec_int (map int ?ps)) = dotted ?ps" by (simp add: dotted_def dec_int_def)
  have nul: "NUL \<notin> set (dotted ?ps)" using dotted_chars [of ?ps] by auto
  have r1: "room b1 len" using assms(5) b1(2) by (simp add: room_def)
  obtain b' where p: "nbu_string_printf (Some b1) len (Some (dotted ?ps)) =
      Some (if length (dotted ?ps) < unat len then NBU_SUCCESS else NBU_ERROR, Some (take (unat len - 1) (dotted ?ps) @ NUL # b'))"
    by (rule string_printf_ok [OF r1 nul])
  have "take (unat len - 1) (dotted ?ps) = dotted ?ps" using dotted_length(2) [of ?ps] ps assms(6) by simp
  then have "nbu_net_join_ip (Some (dec_nat a)) (Some (dec_nat b)) (Some (dec_nat c)) (Some (dec_nat d)) buf len =
      Some (NBU_SUCCESS, dotted ?ps @ NUL # b')"
    using b1(1) vals octets_ok_small [OF ps] p fmt by (simp add: nbu_net_join_ip_def join_parts_def)
  moreover have "read_str (dotted ?ps @ NUL # b') = Some (dotted ?ps)" using nul by simp
  ultimately show ?thesis using split_ip_dotted [of ?ps] ps by auto
qed

theorem ip_round_trip_witness:
  "nbu_net_split_ip (Some (dotted [192, 168, 1, 254])) =
     Some (NBU_SUCCESS, Some [dec_nat 192, dec_nat 168, dec_nat 1, dec_nat 254]) \<and>
   (\<exists>buf'. nbu_net_join_ip (Some (dec_nat 192)) (Some (dec_nat 168)) (Some (dec_nat 1)) (Some (dec_nat 254)) (replicate 16 NUL) 16 =
      Some (NBU_SUCCESS, buf') \<and> read_str buf' = Some (dotted [192, 168, 1, 254]))"
proof -
  have "room (replicate 16 NUL) 16" by (simp add: room_def)
  then show ?thesis by (intro ip_round_trip) simp_all
qed

text \<open>Hexadecimal digits, two to a byte.\<close>

lemma of_char_digit_CHR: "d < 16 \<Longrightarrow> of_char (digit_CHR d) = (if d < 10 then 48 + d else 55 + d)"
  by (simp add: digit_CHR_def of_char_char_of_nat)

lemma digit_CHR_set: "d < 16 \<Longrightarrow> digit_CHR d \<in> set ''0123456789ABCDEF''"
proof -
  have "map digit_CHR [0..<16] = ''0123456789ABCDEF''" by code_simp
  moreover have "d < 16 \<Longrightarrow> digit_CHR d \<in> set (map digit_CHR [0..<16])" unfolding set_map by (rule imageI) simp
  ultimately show "d < 16 \<Longrightarrow> digit_CHR d \<in> set ''0123456789ABCDEF''" by (simp only:)
qed

lemma hex_digit:
  assumes "d < 16"
  shows "is_base 16 (digit_CHR d)" and "\<not> isspace (digit_CHR d)" and "digit_CHR d \<noteq> CHR ''-''" and "digit_CHR d \<noteq> CHR ''+''"
    and "digit_CHR d \<noteq> CHR ''x''" and "digit_CHR d \<noteq> CHR ''X''" and "digit_CHR d \<noteq> NUL" and "digit_CHR d \<in> set MAC_CHARS"
proof -
  note v = of_char_digit_CHR [OF assms]
  have ne: "digit_CHR d \<noteq> c" if "(if d < 10 then 48 + d else 55 + d) \<noteq> (of_char c :: nat)" for c
    using that v by metis
  show "is_base 16 (digit_CHR d)" using assms by (simp add: is_base_def)
  show "digit_CHR d \<noteq> CHR ''-''" and "digit_CHR d \<noteq> CHR ''+''" and "digit_CHR d \<noteq> CHR ''x''" and "digit_CHR d \<noteq> CHR ''X''"
    and "digit_CHR d \<noteq> NUL"
    using assms by (intro ne; simp)+
  have "digit_CHR d \<noteq> CHR '' ''" using assms by (intro ne) simp
  then show "\<not> isspace (digit_CHR d)" using v assms by (simp add: isspace_def)
  have "set ''0123456789ABCDEF'' \<subseteq> set MAC_CHARS" by simp
  then show "digit_CHR d \<in> set MAC_CHARS" using digit_CHR_set [OF assms] by (rule subsetD)
qed

lemma HEX2_text:
  assumes "p < 256"
  shows "NUL \<notin> set (HEX2 p)" and "set (HEX2 p) \<subseteq> set MAC_CHARS" and "length (HEX2 p) = 2" and "HEX2 p \<noteq> []"
proof -
  have d: "p div 16 < 16" "p mod 16 < 16" using assms by simp_all
  show "NUL \<notin> set (HEX2 p)" using hex_digit(7) [OF d(1)] hex_digit(7) [OF d(2)] by (simp add: HEX2_def eq_commute)
  define S where "S = set MAC_CHARS"
  show "set (HEX2 p) \<subseteq> set MAC_CHARS"
    using hex_digit(8) [OF d(1)] hex_digit(8) [OF d(2)] unfolding S_def [symmetric] by (simp add: HEX2_def)
qed (simp_all add: HEX2_def)

lemma scan_hex:
  assumes "a < 256" and "rest = [] \<or> hd rest = CHR '':''"
  shows "scan_num 16 2 (HEX2 a @ rest) = Some (int a, rest)"
proof -
  have d: "a div 16 < 16" "a mod 16 < 16" using assms(1) by simp_all
  note h1 = hex_digit [OF d(1)] and h2 = hex_digit [OF d(2)]
  have tw: "takeWhile (is_base 16) (HEX2 a) = HEX2 a" using h1(1) h2(1) by (simp add: HEX2_def)
  have "dropWhile isspace (HEX2 a @ rest) = HEX2 a @ rest" using h1(2) by (simp add: HEX2_def)
  moreover have "split_sign (HEX2 a) = (False, HEX2 a)" using h1 by (simp add: split_sign_def HEX2_def)
  moreover have "take 2 (HEX2 a @ rest) = HEX2 a" "length (HEX2 a) = 2" "HEX2 a \<noteq> []" "drop 2 (HEX2 a @ rest) = rest"
    by (simp_all add: HEX2_def)
  moreover have "take 1 (drop 1 (HEX2 a)) \<noteq> ''x''" "take 1 (drop 1 (HEX2 a)) \<noteq> ''X''" using h2 by (simp_all add: HEX2_def)
  ultimately show ?thesis using assms(1) by (simp add: scan_num_def Let_def tw)
qed

lemma strtol_hex:
  assumes "a < 256"
  shows "strtol 16 (HEX2 a) = (int a, [], False)"
proof -
  have d: "a div 16 < 16" "a mod 16 < 16" using assms(1) by simp_all
  note h1 = hex_digit [OF d(1)] and h2 = hex_digit [OF d(2)]
  have tw: "takeWhile (is_base 16) (HEX2 a) = HEX2 a" using h1(1) h2(1) by (simp add: HEX2_def)
  have "dropWhile isspace (HEX2 a) = HEX2 a" using h1(2) by (simp add: HEX2_def)
  moreover have "split_sign (HEX2 a) = (False, HEX2 a)" using h1 by (simp add: split_sign_def HEX2_def)
  moreover have "skip_0x 16 (HEX2 a) = HEX2 a" by (simp add: skip_0x_def HEX2_def)
  moreover have "dropWhile (is_base 16) (HEX2 a) = []" "HEX2 a \<noteq> []"
    using h1(1) h2(1) by (simp_all add: HEX2_def)
  ultimately show ?thesis using assms by (simp add: strtol_def Let_def tw)
qed

definition coloned :: "nat list \<Rightarrow> string" where
  "coloned ps = join_with (CHR '':'') (map HEX2 ps)"

lemma scan_coloned:
  assumes "\<forall>p \<in> set ps. p < 256" and "ps \<noteq> []"
  shows "scan_sep 16 2 (CHR '':'') (length ps) (coloned ps) = map int ps"
  using assms
proof (induction ps)
  case (Cons p ps)
  show ?case
  proof (cases ps)
    case Nil
    then show ?thesis using Cons.prems scan_hex [of p "[]"] by (simp add: coloned_def)
  next
    case (Cons q qs)
    then have "coloned (p # ps) = HEX2 p @ CHR '':'' # coloned ps" by (simp add: coloned_def)
    then show ?thesis using Cons.IH Cons.prems Cons scan_hex [of p "CHR '':'' # coloned ps"] by simp
  qed
qed simp

lemma coloned_length: "ps \<noteq> [] \<Longrightarrow> length (coloned ps) = 3 * length ps - 1"
proof (induction ps rule: induct_list012)
  case (3 x y zs)
  have "coloned (x # y # zs) = HEX2 x @ CHR '':'' # coloned (y # zs)" by (simp add: coloned_def)
  then show ?case using 3 by (simp add: HEX2_def)
qed (simp_all add: coloned_def HEX2_def)

lemma coloned_chars:
  assumes "\<forall>p \<in> set ps. p < 256"
  shows "set (coloned ps) \<subseteq> set MAC_CHARS"
proof -
  define S where "S = set MAC_CHARS"
  have "set (HEX2 p) \<subseteq> S" if "p < 256" for p using HEX2_text(2) [OF that] by (simp only: S_def)
  then have "\<Union> (set ` set (map HEX2 ps)) \<subseteq> S" using assms by auto
  moreover have "CHR '':'' \<in> S" by (simp add: S_def)
  ultimately show ?thesis
    using join_with_chars [of "CHR '':''" "map HEX2 ps"] unfolding coloned_def S_def [symmetric] by blast
qed

lemma split_mac_coloned:
  assumes "length ps = 6" and "\<forall>p \<in> set ps. p < 256"
  shows "nbu_net_split_mac (Some (coloned ps)) = Some (NBU_SUCCESS, Some (map HEX2 ps))"
proof -
  have len: "length (coloned ps) = 17" using assms(1) by (subst coloned_length) auto
  have sub: "set (coloned ps) \<subseteq> set MAC_CHARS" by (rule coloned_chars [OF assms(2)])
  then have "NUL \<notin> set (coloned ps)" by auto
  then have c: "bcopy 19 (coloned ps) = Some (NBU_SUCCESS, coloned ps)" using len by (subst bcopy_ok) simp_all
  have "scan_sep 16 2 (CHR '':'') (length ps) (coloned ps) = map int ps" using assms by (intro scan_coloned) auto
  moreover have "octets_ok (map int ps)" by (rule octets_ok_small [OF assms(2)])
  moreover have "strspn (coloned ps) MAC_CHARS = length (coloned ps)" using sub by (simp only: strspn_all)
  moreover have "those (map (\<lambda>i. map_option snd (bprintf 3 (HEX2 (nat i)))) (map int ps)) = Some (map HEX2 ps)"
    unfolding map_map comp_def
  proof (rule those_map_Some, intro ballI)
    fix p assume "p \<in> set ps"
    then have "p < 256" using assms(2) by simp
    note h = HEX2_text [OF this]
    from h(3) have "take 2 (HEX2 p) = HEX2 p" by simp
    then show "map_option snd (bprintf 3 (HEX2 (nat (int p)))) = Some (HEX2 p)" using bprintf_ok [of 3 "HEX2 p"] h by simp
  qed
  ultimately show ?thesis using c len assms(1) by (simp add: nbu_net_split_mac_def)
qed

lemma split_join_coloned:
  assumes len: "length ps = 6" and ps: "\<forall>p \<in> set ps. p < 256" and r: "room buf sz" and sz: "18 \<le> unat sz"
  shows "nbu_net_split_mac (Some (coloned ps)) = Some (NBU_SUCCESS, Some (map HEX2 ps)) \<and>
    (\<exists>buf'. join_parts 16 2 (CHR '':'') (\<lambda>i. HEX2 (nat i)) (map (\<lambda>p. Some (HEX2 p)) ps) buf sz = Some (NBU_SUCCESS, buf') \<and>
      read_str buf' = Some (coloned ps))"
proof -
  let ?ss = "map HEX2 ps" and ?val = "\<lambda>s. fst (strtol 16 s)"
  have ss: "\<forall>s \<in> set ?ss. NUL \<notin> set s \<and> s \<noteq> [] \<and> length s \<le> 2"
    using ps HEX2_text by simp
  obtain b1 where b1: "join_loop 16 2 ?ss [] buf sz = Some (Some ([] @ map ?val ?ss), b1)" "length b1 = length buf"
    by (rule join_loop_ok [OF r _ ss, of 16 ?val "[]"]) (use sz ps strtol_hex in \<open>auto\<close>)
  have vals: "map ?val ?ss = map int ps" using ps strtol_hex by simp
  have loop: "join_loop 16 2 ?ss [] buf sz = Some (Some (map int ps), b1)" using b1(1) unfolding vals by simp
  have fmt: "join_with (CHR '':'') (map ((\<lambda>i. HEX2 (nat i)) \<circ> int) ps) = coloned ps" by (simp add: coloned_def comp_def)
  have nul: "NUL \<notin> set (coloned ps)" using coloned_chars [OF ps] by auto
  have r1: "room b1 sz" using r b1(2) by (simp add: room_def)
  obtain b' where p: "nbu_string_printf (Some b1) sz (Some (coloned ps)) =
      Some (if length (coloned ps) < unat sz then NBU_SUCCESS else NBU_ERROR, Some (take (unat sz - 1) (coloned ps) @ NUL # b'))"
    by (rule string_printf_ok [OF r1 nul])
  have "length (coloned ps) = 17" using len by (subst coloned_length) auto
  then have t: "take (unat sz - 1) (coloned ps) = coloned ps" using sz by simp
  have "those (map (\<lambda>p. Some (HEX2 p)) ps) = Some ?ss" by (rule those_map_Some) simp
  then have "join_parts 16 2 (CHR '':'') (\<lambda>i. HEX2 (nat i)) (map (\<lambda>p. Some (HEX2 p)) ps) buf sz = Some (NBU_SUCCESS, coloned ps @ NUL # b')"
    using octets_ok_small [OF ps] p t by (simp add: join_parts_def loop fmt)
  moreover have "read_str (coloned ps @ NUL # b') = Some (coloned ps)" using nul by simp
  ultimately show ?thesis using split_mac_coloned [OF len ps] by blast
qed

text \<open>
  Splitting a MAC address in upper-case hexadecimal gives its six bytes as text, and joining
  them gives the address back.
\<close>

theorem mac_round_trip:
  assumes "\<forall>p \<in> set [a, b, c, d, e, f]. p < 256" and "room buf sz" and "18 \<le> unat sz"
  shows "nbu_net_split_mac (Some (coloned [a, b, c, d, e, f])) = Some (NBU_SUCCESS, Some (map HEX2 [a, b, c, d, e, f])) \<and>
    (\<exists>buf'. nbu_net_join_mac (Some (HEX2 a)) (Some (HEX2 b)) (Some (HEX2 c)) (Some (HEX2 d)) (Some (HEX2 e)) (Some (HEX2 f)) buf sz =
        Some (NBU_SUCCESS, buf') \<and> read_str buf' = Some (coloned [a, b, c, d, e, f]))"
  using split_join_coloned [of "[a, b, c, d, e, f]", OF _ assms] by (simp add: nbu_net_join_mac_def)

theorem mac_round_trip_witness:
  "nbu_net_split_mac (Some (coloned [0, 23, 51, 10, 160, 255])) = Some (NBU_SUCCESS, Some (map HEX2 [0, 23, 51, 10, 160, 255])) \<and>
    (\<exists>buf'. nbu_net_join_mac (Some (HEX2 0)) (Some (HEX2 23)) (Some (HEX2 51)) (Some (HEX2 10)) (Some (HEX2 160)) (Some (HEX2 255))
        (replicate 18 NUL) 18 = Some (NBU_SUCCESS, buf') \<and>
      read_str buf' = Some (coloned [0, 23, 51, 10, 160, 255]))"
  by (rule mac_round_trip) (simp_all add: room_def)

text \<open>
  C35: The address test stops after the fourth number: an address of the form \<open>a.b.c.d\<close> passes, and so does
  one with more text of digits and dots behind it, up to fifteen characters in all.
\<close>

theorem validate_ip_ignores_rest:
  assumes "a < 256" and "b < 256" and "c < 256" and "d < 256"
    and rest: "set rest \<subseteq> set IP_CHARS" "rest = [] \<or> hd rest = CHR ''.''" and len: "length (dotted [a, b, c, d] @ rest) < 16"
  shows "nbu_net_validate_ip (Some (dotted [a, b, c, d] @ rest)) = Some NBU_SUCCESS"
proof -
  let ?s = "dotted [a, b, c, d] @ rest"
  have sub: "set ?s \<subseteq> set IP_CHARS" using dotted_chars rest(1) by (simp only: set_append Un_subset_iff)
  then have "NUL \<notin> set ?s" by auto
  then have copy: "bcopy 17 ?s = Some (NBU_SUCCESS, ?s)" using len by (subst bcopy_ok) simp_all
  have dot: "\<not> is_base 10 (CHR ''.'')" by (simp add: is_base_def digit_val_def)
  have sc: "scan_num 10 3 (dec_nat x @ t) = Some (int x, t)" if "x < 256" "t = [] \<or> hd t = CHR ''.''" for x t
    using that dot dec_nat_octet by (intro scan_dec) auto
  have "scan_sep 10 3 (CHR ''.'') (Suc (Suc (Suc (Suc 0)))) ?s = map int [a, b, c, d]"
    using assms(1-4) rest(2) by (simp add: dotted_def sc)
  moreover have "Suc (Suc (Suc (Suc 0))) = 4" by simp
  ultimately have "scan_sep 10 3 (CHR ''.'') 4 ?s = map int [a, b, c, d]" by (simp only:)
  moreover have "octets_ok (map int [a, b, c, d])" using assms by (intro octets_ok_small) simp
  moreover have "strspn ?s IP_CHARS = length ?s" using sub by (simp only: strspn_all)
  moreover have "6 < length ?s" using dotted_length(1) [of "[a, b, c, d]"] assms by simp
  ultimately show ?thesis using copy len by (simp add: nbu_net_validate_ip_def)
qed

theorem validate_ip_ignores_rest_witness: "nbu_net_validate_ip (Some (dotted [1, 2, 3, 4] @ ''.5..6'')) = Some NBU_SUCCESS"
proof -
  have "length (dotted [1, 2, 3, 4]) = 7" by code_simp
  then show ?thesis by (intro validate_ip_ignores_rest) simp_all
qed

text \<open>
  A host of one to twenty characters without a dot and a domain that is not empty are joined with
  a dot, and splitting the host name gives them back.
\<close>

theorem hostname_round_trip:
  assumes h: "h \<noteq> []" "length h < 21" "CHR ''.'' \<notin> set h" "NUL \<notin> set h" and d: "d \<noteq> []" "NUL \<notin> set d"
    and r: "room b sz" "length h + length d + 1 < unat sz" "room b1 sz1" "length h < unat sz1" "room b2 sz2" "length d < unat sz2"
  shows "\<exists>b'. nbu_net_join_hostname (Some h) (Some d) b sz = Some (NBU_SUCCESS, b') \<and> read_str b' = Some (h @ ''.'' @ d) \<and>
    (\<exists>b1' b2'. nbu_net_split_hostname (Some (h @ ''.'' @ d)) (Some b1) sz1 (Some b2) sz2 = Some (NBU_SUCCESS, Some b1', Some b2') \<and>
      read_str b1' = Some h \<and> read_str b2' = Some d)"
proof -
  let ?s = "h @ ''.'' @ d"
  have nul: "NUL \<notin> set ?s" using h(4) d(2) by simp
  obtain t where t: "nbu_string_printf (Some b) sz (Some ?s) =
      Some (if length ?s < unat sz then NBU_SUCCESS else NBU_ERROR, Some (take (unat sz - 1) ?s @ NUL # t))"
    by (rule string_printf_ok [OF r(1) nul])
  have "take (unat sz - 1) ?s = ?s" using r(2) by simp
  then have j: "nbu_net_join_hostname (Some h) (Some d) b sz = Some (NBU_SUCCESS, ?s @ NUL # t)"
    using t h(1,2) by (simp add: nbu_net_join_hostname_def)
  have c: "strchr ?s (CHR ''.'') = Some (length h)" using h(3) by (simp add: strchr_Some nth_append)
  obtain t1 where t1: "nbu_string_printf (Some b1) sz1 (Some h) =
      Some (if length h < unat sz1 then NBU_SUCCESS else NBU_ERROR, Some (take (unat sz1 - 1) h @ NUL # t1))"
    by (rule string_printf_ok [OF r(3) h(4)])
  obtain r2 b2' where b2: "nbu_string_copy (Some b2) sz2 (Some d) = Some (r2, Some b2')" "read_str b2' = Some (take (unat sz2 - 1) d)"
    by (rule copy_into [OF r(5) d(2)])
  have "nbu_net_split_hostname (Some ?s) (Some b1) sz1 (Some b2) sz2 = Some (NBU_SUCCESS, Some (h @ NUL # t1), Some b2')"
    using c t1 b2(1) r(4) d(1) by (simp add: nbu_net_split_hostname_def)
  moreover have "read_str (h @ NUL # t1) = Some h" using h(4) by simp
  moreover have "read_str b2' = Some d" using b2(2) r(6) by simp
  moreover have "read_str (?s @ NUL # t) = Some ?s" by (rule read_str_append_NUL [OF nul])
  ultimately show ?thesis using j by blast
qed

theorem hostname_round_trip_witness:
  "\<exists>b'. nbu_net_join_hostname (Some ''box'') (Some ''home.lan'') (replicate 64 NUL) 64 = Some (NBU_SUCCESS, b') \<and>
    read_str b' = Some ''box.home.lan'' \<and>
    (\<exists>b1 b2. nbu_net_split_hostname (Some ''box.home.lan'') (Some (replicate 64 NUL)) 64 (Some (replicate 64 NUL)) 64 =
        Some (NBU_SUCCESS, Some b1, Some b2) \<and> read_str b1 = Some ''box'' \<and> read_str b2 = Some ''home.lan'')"
proof -
  have "room (replicate 64 NUL) 64" by (simp add: room_def)
  then show ?thesis
    using hostname_round_trip [of "''box''" "''home.lan''" "replicate 64 NUL" 64 "replicate 64 NUL" 64 "replicate 64 NUL" 64] by simp
qed

end
