(* ===== verification/Etk_Fifo.thy ===== *)
theory Etk_Fifo
  imports U32_Bits
begin

unbundle bit_operations_syntax

text \<open>
  The byte queue of \<open>efixo-libetk\<close>: \<open>src/fifo.c\<close>, the inline functions of \<open>etk/fifo.h\<close> and the
  two functions of \<open>etk/math.h\<close> they use.  The indices \<open>in\<close> and \<open>out\<close> are never reduced: they run
  through all 32-bit values and wrap, and the position in the buffer is the index masked by
  \<open>size - 1\<close>.

  A buffer is the list of its bytes, \<open>None\<close> for \<open>NULL\<close>.  What \<open>malloc\<close> returns is an argument:
  \<open>None\<close> when there is no memory, otherwise the bytes that happen to be in the block.  A
  \<open>memcpy\<close> of no bytes touches no memory.
\<close>

subsection \<open>\<open>etk/math.h\<close>\<close>

definition is_power_of_2 :: "u32 \<Rightarrow> bool" where
  "is_power_of_2 n \<longleftrightarrow> n \<noteq> 0 \<and> n AND (n - 1) = 0"

text \<open>\<open>__builtin_clz\<close>, undefined for 0.\<close>

definition builtin_clz :: "u32 \<Rightarrow> nat exec" where
  "builtin_clz n = (if n = 0 then None else Some (length (takeWhile (\<lambda>i. \<not> bit n i) (rev [0..<32]))))"

definition roundup_pow_of_two :: "u32 \<Rightarrow> u32 exec" where
  "roundup_pow_of_two n = do {
     c \<leftarrow> builtin_clz (n - 1);
     guard (c + 1 < 32);
     Some (push_bit (c + 1) 1) }"

subsection \<open>The structure and its inline functions, \<open>etk/fifo.h\<close>\<close>

record fifo =
  ff_buffer :: "u8 list option"
  ff_size :: u32
  ff_in :: u32
  ff_out :: u32

record fifo_serialized =
  fs_size :: u32
  fs_in :: u32
  fs_out :: u32
  fs_buffer :: "u8 list"

definition memcpy_to :: "u8 list option \<Rightarrow> nat \<Rightarrow> u8 list \<Rightarrow> u8 list option exec" where
  "memcpy_to b off bs = (if bs = [] then Some b else do {
     c \<leftarrow> b;
     guard (off + length bs \<le> length c);
     Some (Some (take off c @ bs @ drop (off + length bs) c)) })"

definition memcpy_from :: "u8 list option \<Rightarrow> nat \<Rightarrow> nat \<Rightarrow> u8 list exec" where
  "memcpy_from b off n = (if n = 0 then Some [] else do {
     c \<leftarrow> b;
     guard (off + n \<le> length c);
     Some (take n (drop off c)) })"

definition fifo_initialized :: "fifo \<Rightarrow> bool" where
  "fifo_initialized f \<longleftrightarrow> ff_buffer f \<noteq> None"

definition fifo_reset :: "fifo \<Rightarrow> fifo" where
  "fifo_reset f = f\<lparr>ff_out := 0, ff_in := 0\<rparr>"

definition fifo_reset_out :: "fifo \<Rightarrow> fifo" where
  "fifo_reset_out f = f\<lparr>ff_out := ff_in f\<rparr>"

definition fifo_size :: "fifo \<Rightarrow> u32" where
  "fifo_size f = ff_size f"

definition fifo_len :: "fifo \<Rightarrow> u32" where
  "fifo_len f = ff_in f - ff_out f"

definition fifo_is_empty :: "fifo \<Rightarrow> bool" where
  "fifo_is_empty f \<longleftrightarrow> ff_in f = ff_out f"

definition fifo_is_full :: "fifo \<Rightarrow> bool" where
  "fifo_is_full f \<longleftrightarrow> fifo_len f = fifo_size f"

definition fifo_avail :: "fifo \<Rightarrow> u32" where
  "fifo_avail f = fifo_size f - fifo_len f"

definition fifo_add_out :: "fifo \<Rightarrow> u32 \<Rightarrow> fifo" where
  "fifo_add_out f off = f\<lparr>ff_out := ff_out f + off\<rparr>"

definition fifo_add_in :: "fifo \<Rightarrow> u32 \<Rightarrow> fifo" where
  "fifo_add_in f off = f\<lparr>ff_in := ff_in f + off\<rparr>"

definition fifo_off :: "fifo \<Rightarrow> u32 \<Rightarrow> u32" where
  "fifo_off f off = off AND (ff_size f - 1)"

definition FIFO_GET :: "fifo \<Rightarrow> u32 \<Rightarrow> nat \<Rightarrow> u32 exec" where
  "FIFO_GET f off shift = do {
     bs \<leftarrow> memcpy_from (ff_buffer f) (unat (fifo_off f (ff_out f + off))) 1;
     Some (push_bit shift (ucast (hd bs))) }"

definition fifo_peek_n :: "fifo \<Rightarrow> u32 \<Rightarrow> u32 exec" where
  "fifo_peek_n f recsize = do {
     l \<leftarrow> FIFO_GET f 0 0;
     if recsize - 1 \<noteq> 0 then do { h \<leftarrow> FIFO_GET f 1 8; Some (l OR h) } else Some l }"

definition FIFO_PUT :: "fifo \<Rightarrow> u32 \<Rightarrow> u32 \<Rightarrow> nat \<Rightarrow> fifo exec" where
  "FIFO_PUT f off val shift = do {
     b \<leftarrow> memcpy_to (ff_buffer f) (unat (fifo_off f (ff_in f + off))) [ucast (drop_bit shift val)];
     Some (f\<lparr>ff_buffer := b\<rparr>) }"

definition fifo_poke_n :: "fifo \<Rightarrow> u32 \<Rightarrow> u32 \<Rightarrow> fifo exec" where
  "fifo_poke_n f recsize n = do {
     f \<leftarrow> FIFO_PUT f 0 n 0;
     if recsize - 1 \<noteq> 0 then FIFO_PUT f 1 n 8 else Some f }"

definition fifo_avail_rec :: "fifo \<Rightarrow> u32 \<Rightarrow> u32" where
  "fifo_avail_rec f recsize = (let l = fifo_size f - fifo_len f in if l > recsize then l - recsize else 0)"

subsection \<open>\<open>fifo.c\<close>\<close>

definition fifo_init0 :: "u8 list option \<Rightarrow> u32 \<Rightarrow> fifo \<Rightarrow> fifo" where
  "fifo_init0 buffer sz f = fifo_reset (f\<lparr>ff_buffer := buffer, ff_size := sz\<rparr>)"

definition fifo_init :: "u8 list option \<Rightarrow> u32 \<Rightarrow> fifo \<Rightarrow> fifo" where
  "fifo_init buffer sz f = (if \<not> is_power_of_2 sz then f else fifo_init0 buffer sz f)"

definition fifo_alloc :: "(nat \<Rightarrow> u8) option \<Rightarrow> u32 \<Rightarrow> fifo \<Rightarrow> (int \<times> fifo) exec" where
  "fifo_alloc mem sz f = do {
     sz \<leftarrow> (if \<not> is_power_of_2 sz then roundup_pow_of_two sz else Some sz);
     Some (case mem of
         None \<Rightarrow> (- 1, fifo_init0 None 0 f)
       | Some g \<Rightarrow> (0, fifo_init0 (Some (map g [0..<unat sz])) sz f)) }"

definition fifo_free :: "fifo \<Rightarrow> fifo" where
  "fifo_free f = fifo_init0 None 0 f"

definition fifo_skip :: "fifo \<Rightarrow> u32 \<Rightarrow> fifo" where
  "fifo_skip f len = (if len < fifo_len f then fifo_add_out f len else fifo_reset_out f)"

definition fifo_in_data :: "fifo \<Rightarrow> u8 list \<Rightarrow> u32 \<Rightarrow> u32 \<Rightarrow> fifo exec" where
  "fifo_in_data f from len off = do {
     let off = fifo_off f (ff_in f + off);
     let l = min len (ff_size f - off);
     guard (unat len \<le> length from);
     b \<leftarrow> memcpy_to (ff_buffer f) (unat off) (take (unat l) from);
     b \<leftarrow> memcpy_to b 0 (take (unat (len - l)) (drop (unat l) from));
     Some (f\<lparr>ff_buffer := b\<rparr>) }"

definition fifo_out_data :: "fifo \<Rightarrow> u8 list \<Rightarrow> u32 \<Rightarrow> u32 \<Rightarrow> u8 list exec" where
  "fifo_out_data f to len off = do {
     let off = fifo_off f (ff_out f + off);
     let l = min len (ff_size f - off);
     bs \<leftarrow> memcpy_from (ff_buffer f) (unat off) (unat l);
     t \<leftarrow> memcpy_to (Some to) 0 bs;
     bs \<leftarrow> memcpy_from (ff_buffer f) 0 (unat (len - l));
     t \<leftarrow> memcpy_to t (unat l) bs;
     t }"

definition fifo_in_n :: "fifo \<Rightarrow> u8 list \<Rightarrow> u32 \<Rightarrow> u32 \<Rightarrow> (u32 \<times> fifo) exec" where
  "fifo_in_n f from len recsize =
     (if fifo_avail f < len + recsize then Some (len + 1, f)
      else do { f \<leftarrow> fifo_in_data f from len recsize; Some (0, f) })"

definition fifo_in :: "fifo \<Rightarrow> u8 list \<Rightarrow> u32 \<Rightarrow> (u32 \<times> fifo) exec" where
  "fifo_in f from len = do {
     let len = min (fifo_avail f) len;
     f \<leftarrow> fifo_in_data f from len 0;
     Some (len, fifo_add_in f len) }"

definition fifo_in_rec :: "fifo \<Rightarrow> u8 list \<Rightarrow> u32 \<Rightarrow> u32 \<Rightarrow> (u32 \<times> fifo) exec" where
  "fifo_in_rec f from n recsize = do {
     (ret, f) \<leftarrow> fifo_in_n f from n recsize;
     if ret = 0 then do {
       f \<leftarrow> (if recsize \<noteq> 0 then fifo_poke_n f recsize n else Some f);
       Some (ret, fifo_add_in f (n + recsize)) }
     else Some (ret, f) }"

definition fifo_out_n :: "fifo \<Rightarrow> u8 list \<Rightarrow> u32 \<Rightarrow> u32 \<Rightarrow> (u32 \<times> u8 list \<times> fifo) exec" where
  "fifo_out_n f to len recsize =
     (if fifo_len f < len + recsize then Some (len, to, f)
      else do {
        t \<leftarrow> fifo_out_data f to len recsize;
        Some (0, t, fifo_add_out f (len + recsize)) })"

definition fifo_out :: "fifo \<Rightarrow> u8 list \<Rightarrow> u32 \<Rightarrow> (u32 \<times> u8 list \<times> fifo) exec" where
  "fifo_out f to len = do {
     let len = min (fifo_len f) len;
     t \<leftarrow> fifo_out_data f to len 0;
     Some (len, t, fifo_add_out f len) }"

definition fifo_out_peek :: "fifo \<Rightarrow> u8 list \<Rightarrow> u32 \<Rightarrow> u32 \<Rightarrow> (u32 \<times> u8 list) exec" where
  "fifo_out_peek f to len offset = do {
     let len = min (fifo_len f) (len + offset);
     t \<leftarrow> fifo_out_data f to len offset;
     Some (len, t) }"

text \<open>The result of the reading functions for records carries the value stored through \<open>total\<close>.\<close>

definition fifo_out_rec :: "fifo \<Rightarrow> u8 list \<Rightarrow> u32 \<Rightarrow> u32 \<Rightarrow> (u32 \<times> u32 \<times> u8 list \<times> fifo) exec" where
  "fifo_out_rec f to n recsize =
     (if recsize = 0 then do { (r, t, f) \<leftarrow> fifo_out_n f to n recsize; Some (r, n, t, f) }
      else do {
        l \<leftarrow> fifo_peek_n f recsize;
        if n < l then Some (l, l, to, f)
        else do { (r, t, f) \<leftarrow> fifo_out_n f to l recsize; Some (r, l, t, f) } })"

definition fifo_peek_generic :: "fifo \<Rightarrow> u32 \<Rightarrow> u32 exec" where
  "fifo_peek_generic f recsize = (if recsize = 0 then Some (fifo_avail f) else fifo_peek_n f recsize)"

text \<open>\<open>constant\<close> is \<open>__builtin_constant_p(recsize)\<close>.\<close>

definition fifo_peek_rec :: "bool \<Rightarrow> fifo \<Rightarrow> u32 \<Rightarrow> u32 exec" where
  "fifo_peek_rec constant f recsize =
     (if \<not> constant then fifo_peek_generic f recsize
      else if recsize = 0 then Some (fifo_len f)
      else fifo_peek_n f recsize)"

definition fifo_skip_rec :: "fifo \<Rightarrow> u32 \<Rightarrow> fifo exec" where
  "fifo_skip_rec f recsize =
     (if recsize \<noteq> 0 then do {
        l \<leftarrow> fifo_peek_n f recsize;
        Some (if l + recsize \<le> fifo_len f then fifo_add_out f (l + recsize) else fifo_reset_out f) }
      else Some (fifo_reset_out f))"

definition fifo_serialize :: "bool \<Rightarrow> fifo \<Rightarrow> (u32 \<times> fifo_serialized option) exec" where
  "fifo_serialize mem f =
     (if \<not> mem then Some (0, None)
      else do {
        bs \<leftarrow> memcpy_from (ff_buffer f) 0 (unat (ff_size f));
        Some (12 + ff_size f, Some \<lparr>fs_size = ff_size f, fs_in = ff_in f, fs_out = ff_out f, fs_buffer = bs\<rparr>) })"

definition fifo_unserialize :: "(nat \<Rightarrow> u8) option \<Rightarrow> fifo \<Rightarrow> fifo_serialized \<Rightarrow> (int \<times> fifo) exec" where
  "fifo_unserialize mem f s = do {
     (r, f) \<leftarrow> fifo_alloc mem (fs_size s) f;
     if r \<noteq> 0 then Some (- 1, f)
     else do {
       let f = f\<lparr>ff_size := fs_size s, ff_in := fs_in s, ff_out := fs_out s\<rparr>;
       guard (unat (fs_size s) \<le> length (fs_buffer s));
       b \<leftarrow> memcpy_to (ff_buffer f) 0 (take (unat (fs_size s)) (fs_buffer s));
       Some (0, f\<lparr>ff_buffer := b\<rparr>) } }"

subsection \<open>Rings of bytes\<close>

text \<open>
  The \<open>k\<close> bytes of a ring from position \<open>p\<close> on, and a ring into which bytes are written from
  position \<open>p\<close> on; positions are taken modulo the length.
\<close>

definition ring_read :: "u8 list \<Rightarrow> nat \<Rightarrow> nat \<Rightarrow> u8 list" where
  "ring_read b p k = map (\<lambda>i. b ! ((p + i) mod length b)) [0..<k]"

definition ring_dist :: "nat \<Rightarrow> nat \<Rightarrow> nat \<Rightarrow> nat" where
  "ring_dist n p q = (q + n - p mod n) mod n"

definition ring_write :: "u8 list \<Rightarrow> nat \<Rightarrow> u8 list \<Rightarrow> u8 list" where
  "ring_write b p bs = map (\<lambda>q. let j = ring_dist (length b) p q in if j < length bs then bs ! j else b ! q) [0..<length b]"

lemma length_ring_read [simp]: "length (ring_read b p k) = k"
  by (simp add: ring_read_def)

lemma length_ring_write [simp]: "length (ring_write b p bs) = length b"
  by (simp add: ring_write_def)

lemma nth_ring_read [simp]: "i < k \<Longrightarrow> ring_read b p k ! i = b ! ((p + i) mod length b)"
  by (simp add: ring_read_def)

lemma nth_ring_write:
  "q < length b \<Longrightarrow> ring_write b p bs ! q =
    (if ring_dist (length b) p q < length bs then bs ! ring_dist (length b) p q else b ! q)"
  by (simp add: ring_write_def Let_def)

lemma ring_dist_less:
  assumes "r < n" and "q < n"
  shows "ring_dist n r q = (if r \<le> q then q - r else q + n - r)"
proof (cases "r \<le> q")
  case True
  then have e: "q + n - r = (q - r) + n" by simp
  have "(q + n - r) mod n = q - r" unfolding e using assms by simp
  then show ?thesis using True assms by (simp add: ring_dist_def)
qed (use assms in \<open>simp add: ring_dist_def\<close>)

lemma mod_below_double: "x < n + n \<Longrightarrow> x mod n = (if x < n then x else x - (n :: nat))"
  by (simp add: le_mod_geq)

lemma ring_dist_mod [simp]: "ring_dist n (p mod n) q = ring_dist n p q"
  by (simp add: ring_dist_def)

lemma ring_read_mod [simp]: "ring_read b (p mod length b) k = ring_read b p k"
  by (simp add: ring_read_def mod_add_left_eq)

lemma ring_write_mod [simp]: "ring_write b (p mod length b) bs = ring_write b p bs"
  by (simp add: ring_write_def)

lemma ring_dist_add:
  assumes "j < n"
  shows "ring_dist n p ((p + j) mod n) = j"
proof -
  let ?r = "p mod n"
  have "(p + j) mod n = (?r + j) mod n" by (simp add: mod_add_left_eq)
  also have "\<dots> = (if ?r + j < n then ?r + j else ?r + j - n)" using assms by (intro mod_below_double add_strict_mono) simp_all
  finally have q: "(p + j) mod n = (if ?r + j < n then ?r + j else ?r + j - n)" .
  have r: "?r < n" using assms by simp
  have "ring_dist n ?r ((p + j) mod n) = (if ?r \<le> (p + j) mod n then (p + j) mod n - ?r else (p + j) mod n + n - ?r)"
    using assms by (intro ring_dist_less r) simp
  also have "\<dots> = j" unfolding q using assms r by (cases "?r + j < n") (simp, auto)
  finally show ?thesis by simp
qed

lemma ring_read_append: "ring_read b p (k + m) = ring_read b p k @ ring_read b (p + k) m"
  by (rule nth_equalityI) (simp_all add: nth_append add.assoc)

lemma ring_read_written:
  assumes "length bs \<le> length b"
  shows "ring_read (ring_write b p bs) p (length bs) = bs"
proof (rule nth_equalityI)
  fix i assume "i < length (ring_read (ring_write b p bs) p (length bs))"
  then have i: "i < length bs" "i < length b" using assms by simp_all
  then have "(p + i) mod length b < length b" by (intro mod_less_divisor) linarith
  then show "ring_read (ring_write b p bs) p (length bs) ! i = bs ! i"
    using i by (simp add: nth_ring_write ring_dist_add)
qed simp

lemma ring_read_other:
  assumes "k + length bs \<le> length b"
  shows "ring_read (ring_write b (p + k) bs) p k = ring_read b p k"
proof (rule nth_equalityI)
  let ?n = "length b"
  fix i assume "i < length (ring_read (ring_write b (p + k) bs) p k)"
  then have i: "i < k" by simp
  then have "(p + k + (?n - k + i)) mod ?n = (p + i + ?n) mod ?n" using assms by (simp add: add.commute add.left_commute)
  then have q: "(p + i) mod ?n = (p + k + (?n - k + i)) mod ?n" by simp
  have "ring_dist ?n (p + k) ((p + i) mod ?n) = ?n - k + i" unfolding q using i assms by (intro ring_dist_add) simp
  then have far: "\<not> ring_dist ?n (p + k) ((p + i) mod ?n) < length bs" using assms by simp
  have "(p + i) mod ?n < ?n" using i assms by (intro mod_less_divisor) linarith
  then show "ring_read (ring_write b (p + k) bs) p k ! i = ring_read b p k ! i"
    using i far by (simp add: nth_ring_write)
qed simp

text \<open>The two copies of \<open>__fifo_in_data\<close> and \<open>__fifo_out_data\<close> are these operations.\<close>

lemma memcpy_to_ok [simp]:
  "off + length bs \<le> length c \<Longrightarrow> memcpy_to (Some c) off bs = Some (Some (take off c @ bs @ drop (off + length bs) c))"
  by (auto simp: memcpy_to_def)

lemma memcpy_from_ok [simp]: "off + n \<le> length c \<Longrightarrow> memcpy_from (Some c) off n = Some (take n (drop off c))"
  by (simp add: memcpy_from_def)

lemma write_two_parts_nth:
  assumes r: "r < n" and m: "m \<le> n" and q: "q < n" and l: "l = min m (n - r)"
  shows "(if q < m - l then g (l + q) else if q < r then x else if q < r + l then g (q - r) else x) =
    (if ring_dist n r q < m then g (ring_dist n r q) else x)"
proof (cases "m \<le> n - r")
  case True
  then have "l = m" using l by simp
  moreover have "q < r \<Longrightarrow> \<not> q + n - r < m" using True r by linarith
  ultimately show ?thesis using r by (simp add: ring_dist_less [OF r q]) linarith
next
  case False
  then have l': "l = n - r" "q < r + l" using l r q by simp_all
  have "q < m - l \<Longrightarrow> q < r \<and> q + n - r < m \<and> l + q = q + n - r" using l' r m by linarith
  moreover have "\<not> q < m - l \<Longrightarrow> q < r \<Longrightarrow> \<not> q + n - r < m" using l' r by linarith
  moreover have "\<not> q < r \<Longrightarrow> q - r < m" using False q r by linarith
  ultimately show ?thesis using l'(2) by (cases "q < m - l") (simp_all add: ring_dist_less [OF r q])
qed

lemma splice_nth:
  assumes "r + length xs \<le> length b" and "q < length b"
  shows "(take r b @ xs @ drop (r + length xs) b) ! q = (if q < r then b ! q else if q < r + length xs then xs ! (q - r) else b ! q)"
proof -
  consider (1) "q < r" | (2) j where "q = r + j" "j < length xs" | (3) j where "q = r + (length xs + j)"
    by (metis add.assoc le_Suc_ex nat_add_left_cancel_less not_less)
  then show ?thesis by cases (use assms in \<open>simp_all add: nth_append add.assoc\<close>)
qed

lemma write_two_parts:
  assumes r: "r < length b" and n: "length bs \<le> length b" and l: "l = min (length bs) (length b - r)"
  shows "memcpy_to (Some b) r (take l bs) \<bind> (\<lambda>c. memcpy_to c 0 (drop l bs)) = Some (Some (ring_write b r bs))"
proof -
  define c where "c = take r b @ take l bs @ drop (r + length (take l bs)) b"
  define d where "d = take 0 c @ drop l bs @ drop (0 + length (drop l bs)) c"
  have len: "length (take l bs) = l" "r + l \<le> length b" using r l by simp_all
  have ll: "l \<le> length bs" using l by simp
  have lc: "length c = length b" unfolding c_def using len by simp
  have ld: "length d = length b" unfolding d_def using lc n by simp
  have two: "memcpy_to (Some b) r (take l bs) \<bind> (\<lambda>c. memcpy_to c 0 (drop l bs)) = Some (Some d)"
  proof -
    have "memcpy_to (Some b) r (take l bs) = Some (Some c)" unfolding c_def using len by (intro memcpy_to_ok) simp
    moreover have "memcpy_to (Some c) 0 (drop l bs) = Some (Some d)" unfolding d_def using lc n by (intro memcpy_to_ok) simp
    ultimately show ?thesis by simp
  qed
  have "d = ring_write b r bs"
  proof (rule nth_equalityI)
    fix q assume "q < length d"
    then have q: "q < length b" using ld by simp
    have "d ! q = (if q < length bs - l then bs ! (l + q) else c ! q)"
      unfolding d_def using splice_nth [of 0 "drop l bs" c q] lc n q ll by simp
    also have "c ! q = (if q < r then b ! q else if q < r + l then bs ! (q - r) else b ! q)"
      unfolding c_def using splice_nth [of r "take l bs" b q] len q by (simp only: nth_take) simp
    finally show "d ! q = ring_write b r bs ! q"
      unfolding nth_ring_write [OF q] write_two_parts_nth [OF r n q l, of "(!) bs"] .
  qed (simp add: ld)
  then show ?thesis unfolding two by simp
qed

lemma read_two_parts:
  assumes r: "r < length b" and n: "m \<le> length b"
  defines "l \<equiv> min m (length b - r)"
  shows "take l (drop r b) @ take (m - l) b = ring_read b r m"
proof (rule nth_equalityI)
  show "length (take l (drop r b) @ take (m - l) b) = length (ring_read b r m)" using r n by (auto simp: l_def)
  fix i assume "i < length (take l (drop r b) @ take (m - l) b)"
  then have i: "i < m" using r n by (auto simp: l_def split: if_splits)
  have "(r + i) mod length b = (if r + i < length b then r + i else r + i - length b)" using r n i by (intro mod_below_double) linarith
  then show "(take l (drop r b) @ take (m - l) b) ! i = ring_read b r m ! i"
    using r n i by (auto simp: l_def nth_append min_def add.commute)
qed

subsection \<open>The queue of bytes\<close>

text \<open>
  A usable queue has a buffer of \<open>size\<close> bytes, a power of two, and holds at most that many.  Its
  contents are the bytes from \<open>out\<close> to \<open>in\<close>.
\<close>

definition fifo_ok :: "fifo \<Rightarrow> bool" where
  "fifo_ok f \<longleftrightarrow> (case ff_buffer f of None \<Rightarrow> False | Some b \<Rightarrow> length b = unat (ff_size f)) \<and>
     is_power_of_2 (ff_size f) \<and> fifo_len f \<le> ff_size f"

definition fifo_contents :: "fifo \<Rightarrow> u8 list" where
  "fifo_contents f = (case ff_buffer f of None \<Rightarrow> []
     | Some b \<Rightarrow> ring_read b (unat (ff_out f)) (unat (fifo_len f)))"

lemma is_power_of_2_iff: "is_power_of_2 n \<longleftrightarrow> (\<exists>k < 32. n = 2 ^ k)"
proof
  assume "\<exists>k < 32. n = 2 ^ k"
  then obtain k where k: "k < 32" "n = 2 ^ k" by blast
  then have "unat n = 2 ^ k" by simp
  then have "n \<noteq> 0" by auto
  then show "is_power_of_2 n" using k by (simp add: is_power_of_2_def)
qed (auto simp: is_power_of_2_def intro: u32_pow2)

lemma fifo_okE:
  assumes "fifo_ok f"
  obtains k b where "k < 32" and "ff_size f = 2 ^ k" and "ff_buffer f = Some b" and "length b = 2 ^ k"
    and "unat (fifo_len f) \<le> 2 ^ k"
proof -
  obtain k where k: "k < 32" "ff_size f = 2 ^ k" using assms by (auto simp: fifo_ok_def is_power_of_2_iff)
  obtain b where b: "ff_buffer f = Some b" "length b = unat (ff_size f)" using assms by (auto simp: fifo_ok_def split: option.splits)
  have "unat (fifo_len f) \<le> unat (ff_size f)" using assms by (simp add: fifo_ok_def word_le_nat_alt)
  then show ?thesis using that [OF k b(1)] b(2) k by simp
qed

lemma fifo_okI:
  "k < 32 \<Longrightarrow> ff_size f = 2 ^ k \<Longrightarrow> ff_buffer f = Some b \<Longrightarrow> length b = 2 ^ k \<Longrightarrow> unat (fifo_len f) \<le> 2 ^ k \<Longrightarrow> fifo_ok f"
  by (auto simp: fifo_ok_def is_power_of_2_iff word_le_nat_alt)

lemma length_contents: "fifo_ok f \<Longrightarrow> length (fifo_contents f) = unat (fifo_len f)"
  by (auto simp: fifo_contents_def elim: fifo_okE)

lemma contents_bound: "fifo_ok f \<Longrightarrow> length (fifo_contents f) \<le> unat (ff_size f)"
  by (simp add: length_contents fifo_ok_def word_le_nat_alt)

lemma unat_avail: "fifo_ok f \<Longrightarrow> unat (fifo_avail f) = unat (ff_size f) - length (fifo_contents f)"
  by (simp add: fifo_avail_def fifo_size_def length_contents unat_sub fifo_ok_def)

lemma unat_min: "unat (min (a :: u32) b) = min (unat a) (unat b)"
  by (simp add: min_def word_le_nat_alt)

text \<open>The position of an index in the buffer, and the two lengths of a copy.\<close>

lemma fifo_off_mod:
  assumes "k < 32" and "ff_size f = 2 ^ k"
  shows "unat (fifo_off f (a + b)) = (unat a + unat b) mod 2 ^ k"
  using assms by (simp add: fifo_off_def unat_and_mask unat_add_mod_pow2)

lemma copy_lengths:
  assumes "k < 32" and "unat (off :: u32) < 2 ^ k" and l: "l = min len (2 ^ k - off)"
  shows "unat l = min (unat len) (2 ^ k - unat off)" and "unat (len - l) = unat len - unat l"
proof -
  have "off \<le> 2 ^ k" using assms(1,2) by (simp add: word_le_nat_alt)
  then show "unat l = min (unat len) (2 ^ k - unat off)" using assms(1) by (simp add: l unat_min unat_sub)
  show "unat (len - l) = unat len - unat l" by (rule unat_sub) (simp add: l)
qed

lemma in_data_ok:
  assumes k: "k < 32" "ff_size f = 2 ^ k" and b: "ff_buffer f = Some b" "length b = 2 ^ k"
    and fr: "unat len \<le> length from" and fit: "unat len \<le> 2 ^ k"
  shows "fifo_in_data f from len off = Some (f\<lparr>ff_buffer := Some (ring_write b (unat (ff_in f) + unat off) (take (unat len) from))\<rparr>)"
proof -
  define o' where "o' = fifo_off f (ff_in f + off)"
  define l where "l = min len (2 ^ k - o')"
  let ?bs = "take (unat len) from"
  have o': "unat o' = (unat (ff_in f) + unat off) mod length b" unfolding o'_def fifo_off_mod [OF k] b(2) ..
  then have r: "unat o' < length b" using b(2) by simp
  note ul = copy_lengths [OF k(1) _ l_def] r [unfolded b(2)]
  have "memcpy_to (Some b) (unat o') (take (unat l) ?bs) \<bind> (\<lambda>c. memcpy_to c 0 (drop (unat l) ?bs)) = Some (Some (ring_write b (unat o') ?bs))"
    using r fr fit b(2) ul by (intro write_two_parts) simp_all
  moreover have "take (unat l) ?bs = take (unat l) from" using ul by simp
  moreover have "drop (unat l) ?bs = take (unat (len - l)) (drop (unat l) from)" using ul by (simp add: drop_take)
  ultimately show ?thesis
    using fr unfolding fifo_in_data_def Let_def o'_def [symmetric] k(2) l_def [symmetric] b(1) o'
    by (simp add: bind_assoc [symmetric] del: bind_assoc)
qed

lemma out_data_ok:
  assumes k: "k < 32" "ff_size f = 2 ^ k" and b: "ff_buffer f = Some b" "length b = 2 ^ k"
    and to: "unat len \<le> length to" and fit: "unat len \<le> 2 ^ k"
  shows "fifo_out_data f to len off = Some (ring_read b (unat (ff_out f) + unat off) (unat len) @ drop (unat len) to)"
proof -
  define o' where "o' = fifo_off f (ff_out f + off)"
  define l where "l = min len (2 ^ k - o')"
  have o': "unat o' = (unat (ff_out f) + unat off) mod length b" unfolding o'_def fifo_off_mod [OF k] b(2) ..
  then have r: "unat o' < length b" using b(2) by simp
  note ul = copy_lengths [OF k(1) _ l_def] r [unfolded b(2)]
  have c1: "memcpy_from (Some b) (unat o') (unat l) = Some (take (unat l) (drop (unat o') b))" using b(2) ul by (intro memcpy_from_ok) simp
  have c2: "memcpy_from (Some b) 0 (unat (len - l)) = Some (take (unat (len - l)) b)" using memcpy_from_ok [of 0 "unat (len - l)" b] b(2) ul fit by simp
  let ?x = "take (unat l) (drop (unat o') b)" and ?y = "take (unat (len - l)) b"
  have len: "length ?x = unat l" "length ?y = unat len - unat l" "unat l \<le> unat len" using b(2) ul fit by simp_all
  have "memcpy_to (Some to) 0 ?x = Some (Some (take 0 to @ ?x @ drop (0 + length ?x) to))" using len to by (intro memcpy_to_ok) simp
  moreover have "memcpy_to (Some (?x @ drop (unat l) to)) (unat l) ?y = Some (Some (?x @ ?y @ drop (unat len) to))"
    using memcpy_to_ok [of "unat l" ?y "?x @ drop (unat l) to"] len to by simp
  moreover have "?x @ ?y = ring_read b (unat o') (unat len)"
    using read_two_parts [of "unat o'" b "unat len"] r fit b(2) ul by simp
  ultimately show ?thesis
    using c1 c2 len unfolding fifo_out_data_def Let_def o'_def [symmetric] k(2) l_def [symmetric] b(1) o' by simp
qed

subsection \<open>Adding to the end and taking from the front\<close>

lemma ring_dist_inverse: "q < n \<Longrightarrow> q = (p + ring_dist n p q) mod n"
proof -
  assume q: "q < n"
  then have "p mod n < n" by (intro mod_less_divisor) linarith
  then have e: "p mod n + (q + n - p mod n) = q + n" by linarith
  have "(p mod n + (q + n - p mod n)) mod n = q" unfolding e using q by simp
  then show ?thesis by (simp add: ring_dist_def mod_add_left_eq mod_add_right_eq)
qed

lemma ring_dist_bound: "q < n \<Longrightarrow> ring_dist n p q < n"
  by (simp add: ring_dist_def)

lemma ring_dist_shift:
  assumes "q < n" and "m \<le> n"
  shows "ring_dist n (p + m) q = (if m \<le> ring_dist n p q then ring_dist n p q - m else n - m + ring_dist n p q)"
proof -
  let ?j = "ring_dist n p q" and ?i = "if m \<le> ring_dist n p q then ring_dist n p q - m else n - m + ring_dist n p q"
  have j: "?j < n" using assms(1) by (rule ring_dist_bound)
  have e: "p + m + ?i = p + ?j + (if m \<le> ?j then 0 else n)" using assms(2) by simp
  have "(p + m + ?i) mod n = (p + ?j) mod n" unfolding e by simp
  then have q: "(p + m + ?i) mod n = q" using ring_dist_inverse [OF assms(1), of p] by (simp only:)
  have "?i < n" using j assms(2) by (cases "m \<le> ?j") simp_all
  then show ?thesis using ring_dist_add [of ?i n "p + m"] unfolding q by simp
qed

lemma ring_write_append:
  assumes "length xs + length ys \<le> length b"
  shows "ring_write (ring_write b p xs) (p + length xs) ys = ring_write b p (xs @ ys)"
    and "ring_write (ring_write b (p + length xs) ys) p xs = ring_write b p (xs @ ys)"
proof -
  have "ring_dist (length b) (p + length xs) q = (if length xs \<le> ring_dist (length b) p q then ring_dist (length b) p q - length xs
      else length b - length xs + ring_dist (length b) p q)" if "q < length b" for q
    using that assms by (intro ring_dist_shift) simp_all
  note d = this
  have "ring_write (ring_write b p xs) (p + length xs) ys ! q = ring_write b p (xs @ ys) ! q \<and>
      ring_write (ring_write b (p + length xs) ys) p xs ! q = ring_write b p (xs @ ys) ! q" if q: "q < length b" for q
    using assms ring_dist_bound [OF q, of p]
    by (cases "ring_dist (length b) p q < length xs") (simp_all add: nth_ring_write q d nth_append not_less less_diff_conv2)
  note e = this
  show "ring_write (ring_write b p xs) (p + length xs) ys = ring_write b p (xs @ ys)" by (rule nth_equalityI) (use e in simp_all)
  show "ring_write (ring_write b (p + length xs) ys) p xs = ring_write b p (xs @ ys)" by (rule nth_equalityI) (use e in simp_all)
qed

lemma in_mod:
  assumes "k \<le> 32"
  shows "unat (ff_in f) mod 2 ^ k = (unat (ff_out f) + unat (fifo_len f)) mod 2 ^ k"
proof -
  have "ff_out f + fifo_len f = ff_in f" by (simp add: fifo_len_def)
  then have "unat (ff_in f) mod 2 ^ k = unat (ff_out f + fifo_len f) mod 2 ^ k" by (simp only:)
  also have "\<dots> = (unat (ff_out f) + unat (fifo_len f)) mod 2 ^ k" using assms by (rule unat_add_mod_pow2)
  finally show ?thesis .
qed

lemma append_ok:
  assumes k: "k < 32" "ff_size f = 2 ^ k" and b: "ff_buffer f = Some b" "length b = 2 ^ k"
    and fit: "unat (fifo_len f) + length bs \<le> 2 ^ k"
    and f': "f' = f\<lparr>ff_buffer := Some (ring_write b (unat (ff_in f)) bs), ff_in := ff_in f + of_nat (length bs)\<rparr>"
  shows "fifo_ok f'" and "fifo_contents f' = fifo_contents f @ bs"
proof -
  let ?L = "unat (fifo_len f)" and ?p = "unat (ff_out f)"
  have "(2 :: nat) ^ k \<le> 2 ^ 31" using k(1) by (intro power_increasing) simp_all
  then have small: "?L + length bs < 2 ^ 32" using fit by simp
  have "fifo_len f' = of_nat (?L + length bs)" by (simp add: f' fifo_len_def)
  then have L: "unat (fifo_len f') = ?L + length bs" using small by (simp only: unat_of_nat_u32)
  show "fifo_ok f'" using k b fit L by (intro fifo_okI [of k _ "ring_write b (unat (ff_in f)) bs"]) (simp_all add: f')
  have "ring_write b (unat (ff_in f)) bs = ring_write b (unat (ff_in f) mod length b) bs" by (simp only: ring_write_mod)
  also have "unat (ff_in f) mod length b = (?p + ?L) mod length b" unfolding b(2) using k(1) by (intro in_mod) simp
  also have "ring_write b ((?p + ?L) mod length b) bs = ring_write b (?p + ?L) bs" by (simp only: ring_write_mod)
  finally have w: "ring_write b (unat (ff_in f)) bs = ring_write b (?p + ?L) bs" .
  have "fifo_contents f' = ring_read (ring_write b (?p + ?L) bs) ?p (?L + length bs)"
    unfolding fifo_contents_def L by (simp add: f' w)
  also have "\<dots> = ring_read b ?p ?L @ bs"
    unfolding ring_read_append using fit b(2) by (simp add: ring_read_other ring_read_written)
  finally show "fifo_contents f' = fifo_contents f @ bs" by (simp add: fifo_contents_def b(1))
qed

lemma add_out_ok:
  assumes ok: "fifo_ok f" and m: "unat m \<le> length (fifo_contents f)"
  shows "fifo_ok (fifo_add_out f m)" and "fifo_contents (fifo_add_out f m) = drop (unat m) (fifo_contents f)"
proof -
  obtain k b where k: "k < 32" "ff_size f = 2 ^ k" and b: "ff_buffer f = Some b" "length b = 2 ^ k" and L: "unat (fifo_len f) \<le> 2 ^ k"
    using ok by (rule fifo_okE)
  let ?f = "fifo_add_out f m" and ?p = "unat (ff_out f)"
  have m': "unat m \<le> unat (fifo_len f)" using m ok by (simp add: length_contents)
  have "fifo_len ?f = fifo_len f - m" by (simp add: fifo_len_def fifo_add_out_def)
  then have L': "unat (fifo_len ?f) = unat (fifo_len f) - unat m" using m' by (simp add: unat_sub word_le_nat_alt)
  then show "fifo_ok ?f" using k b L by (intro fifo_okI [of k]) (simp_all add: fifo_add_out_def)
  have "unat (ff_out f + m) mod length b = (?p + unat m) mod length b" unfolding b(2) using k(1) by (intro unat_add_mod_pow2) simp
  then have "ring_read b (unat (ff_out f + m)) j = ring_read b (?p + unat m) j" for j by (metis ring_read_mod)
  then have "fifo_contents ?f = ring_read b (?p + unat m) (unat (fifo_len f) - unat m)"
    unfolding fifo_contents_def L' by (simp add: fifo_add_out_def b(1))
  moreover have "fifo_contents f = ring_read b ?p (unat m) @ ring_read b (?p + unat m) (unat (fifo_len f) - unat m)"
    using ring_read_append [of b ?p "unat m" "unat (fifo_len f) - unat m"] m' by (simp add: fifo_contents_def b(1))
  ultimately show "fifo_contents ?f = drop (unat m) (fifo_contents f)" by simp
qed

end
