(* ===== verification/Etk_Queue.thy ===== *)
theory Etk_Queue
  imports Etk_Fifo
begin

unbundle bit_operations_syntax

text \<open>
  What the byte queue of \<open>etk/fifo.h\<close> does, over the list of the bytes it holds: every operation
  keeps the queue usable, bytes come out in the order they went in, records are read back as they
  were written, and the cases in which the code goes wrong.
\<close>

subsection \<open>The operations on the contents\<close>

lemma fifo_in_ok:
  assumes ok: "fifo_ok f" and fr: "unat len \<le> length from"
  shows "\<exists>f'. fifo_in f from len = Some (min (fifo_avail f) len, f') \<and> fifo_ok f' \<and> ff_size f' = ff_size f \<and>
    fifo_contents f' = fifo_contents f @ take (unat (min (fifo_avail f) len)) from"
proof -
  obtain k b where k: "k < 32" "ff_size f = 2 ^ k" and b: "ff_buffer f = Some b" "length b = 2 ^ k" and L: "unat (fifo_len f) \<le> 2 ^ k"
    using ok by (rule fifo_okE)
  let ?m = "min (fifo_avail f) len"
  let ?bs = "take (unat ?m) from"
  have m: "unat ?m \<le> 2 ^ k - unat (fifo_len f)" "unat ?m \<le> length from"
    using unat_avail [OF ok] length_contents [OF ok] k fr by (simp_all add: unat_min)
  let ?f' = "f\<lparr>ff_buffer := Some (ring_write b (unat (ff_in f)) ?bs), ff_in := ff_in f + of_nat (length ?bs)\<rparr>"
  have bs: "length ?bs = unat ?m" using m by simp
  have "fifo_in_data f from ?m 0 = Some (f\<lparr>ff_buffer := Some (ring_write b (unat (ff_in f)) ?bs)\<rparr>)"
    using in_data_ok [OF k b m(2), of 0] m L by simp
  then have run: "fifo_in f from len = Some (?m, ?f')"
    unfolding fifo_in_def Let_def bs by (simp add: fifo_add_in_def)
  have "fifo_ok ?f'" "fifo_contents ?f' = fifo_contents f @ ?bs"
    using append_ok [OF k b _ refl, of ?bs] m L bs by simp_all
  then show ?thesis using run by (intro exI [of _ ?f']) simp
qed

lemma fifo_out_ok:
  assumes ok: "fifo_ok f" and to: "unat len \<le> length to"
  defines "m \<equiv> min (length (fifo_contents f)) (unat len)"
  shows "\<exists>f'. fifo_out f to len = Some (min (fifo_len f) len, take m (fifo_contents f) @ drop m to, f') \<and> fifo_ok f' \<and>
    ff_size f' = ff_size f \<and> fifo_contents f' = drop m (fifo_contents f)"
proof -
  obtain k b where k: "k < 32" "ff_size f = 2 ^ k" and b: "ff_buffer f = Some b" "length b = 2 ^ k" and L: "unat (fifo_len f) \<le> 2 ^ k"
    using ok by (rule fifo_okE)
  let ?m = "min (fifo_len f) len"
  have m: "unat ?m = m" using length_contents [OF ok] by (simp add: m_def unat_min)
  have mm: "m \<le> length to" "m \<le> 2 ^ k" "m \<le> length (fifo_contents f)" "m \<le> unat (fifo_len f)"
    using to L length_contents [OF ok] by (simp_all add: m_def)
  have "ring_read b (unat (ff_out f)) (m + (unat (fifo_len f) - m)) =
      ring_read b (unat (ff_out f)) m @ ring_read b (unat (ff_out f) + m) (unat (fifo_len f) - m)" by (rule ring_read_append)
  then have "ring_read b (unat (ff_out f)) m = take m (fifo_contents f)"
    using mm(4) by (simp add: fifo_contents_def b(1))
  then have "fifo_out_data f to ?m 0 = Some (take m (fifo_contents f) @ drop m to)"
    using out_data_ok [OF k b, of ?m to 0] mm unfolding m by simp
  then have "fifo_out f to len = Some (?m, take m (fifo_contents f) @ drop m to, fifo_add_out f ?m)"
    by (simp add: fifo_out_def Let_def)
  moreover have "fifo_ok (fifo_add_out f ?m)" "fifo_contents (fifo_add_out f ?m) = drop m (fifo_contents f)"
    using add_out_ok [OF ok, of ?m] mm(3) unfolding m by simp_all
  ultimately show ?thesis by (simp add: fifo_add_out_def)
qed

lemma reset_out_ok:
  assumes "fifo_ok f"
  shows "fifo_ok (fifo_reset_out f)" and "fifo_contents (fifo_reset_out f) = []" and "ff_size (fifo_reset_out f) = ff_size f"
  using assms by (auto simp: fifo_ok_def fifo_reset_out_def fifo_contents_def fifo_len_def ring_read_def split: option.splits)

lemma reset_ok:
  assumes "fifo_ok f"
  shows "fifo_ok (fifo_reset f)" and "fifo_contents (fifo_reset f) = []" and "ff_size (fifo_reset f) = ff_size f"
  using assms by (auto simp: fifo_ok_def fifo_reset_def fifo_contents_def fifo_len_def ring_read_def split: option.splits)

lemma fifo_skip_ok:
  assumes "fifo_ok f"
  shows "fifo_ok (fifo_skip f len)" and "fifo_contents (fifo_skip f len) = drop (unat len) (fifo_contents f)"
    and "ff_size (fifo_skip f len) = ff_size f"
proof -
  have l: "len < fifo_len f \<longleftrightarrow> unat len < length (fifo_contents f)" using length_contents [OF assms] by (simp add: word_less_nat_alt)
  show "fifo_ok (fifo_skip f len)" and "fifo_contents (fifo_skip f len) = drop (unat len) (fifo_contents f)"
    using add_out_ok [OF assms, of len] reset_out_ok [OF assms] l by (auto simp: fifo_skip_def)
  show "ff_size (fifo_skip f len) = ff_size f" by (simp add: fifo_skip_def fifo_add_out_def fifo_reset_out_def)
qed

lemma fifo_init_ok:
  assumes "is_power_of_2 n" and "length b = unat n"
  shows "fifo_ok (fifo_init (Some b) n f)" and "fifo_contents (fifo_init (Some b) n f) = []" and "ff_size (fifo_init (Some b) n f) = n"
  using assms by (auto simp: fifo_init_def fifo_init0_def fifo_reset_def fifo_ok_def fifo_contents_def fifo_len_def ring_read_def)

subsection \<open>A queue as its users see it\<close>

datatype 'a queue_cmd = Put "'a list" | Get nat

text \<open>
  A sequence of calls: the elements that were accepted, the elements that were delivered and the
  state at the end.
\<close>

fun queue_run ::
  "('s \<Rightarrow> 'a list \<Rightarrow> (nat \<times> 's) exec) \<Rightarrow> ('s \<Rightarrow> nat \<Rightarrow> ('a list \<times> 's) exec) \<Rightarrow> 's \<Rightarrow> 'a queue_cmd list
     \<Rightarrow> ('a list \<times> 'a list \<times> 's) exec" where
  "queue_run put get s [] = Some ([], [], s)"
| "queue_run put get s (Put xs # cs) = do {
     (n, s) \<leftarrow> put s xs;
     (ins, outs, s) \<leftarrow> queue_run put get s cs;
     Some (take n xs @ ins, outs, s) }"
| "queue_run put get s (Get n # cs) = do {
     (ys, s) \<leftarrow> get s n;
     (ins, outs, s) \<leftarrow> queue_run put get s cs;
     Some (ins, ys @ outs, s) }"

locale bounded_queue =
  fixes ok :: "'s \<Rightarrow> bool" and abs :: "'s \<Rightarrow> 'a list" and cap :: "'s \<Rightarrow> nat"
    and put :: "'s \<Rightarrow> 'a list \<Rightarrow> (nat \<times> 's) exec" and get :: "'s \<Rightarrow> nat \<Rightarrow> ('a list \<times> 's) exec"
  assumes bound: "ok s \<Longrightarrow> length (abs s) \<le> cap s"
    and put_law: "ok s \<Longrightarrow> \<exists>s'. put s xs = Some (min (cap s - length (abs s)) (length xs), s') \<and> ok s' \<and> cap s' = cap s \<and>
      abs s' = abs s @ take (min (cap s - length (abs s)) (length xs)) xs"
    and get_law: "ok s \<Longrightarrow> \<exists>s'. get s n = Some (take n (abs s), s') \<and> ok s' \<and> cap s' = cap s \<and> abs s' = drop n (abs s)"
begin

text \<open>Every sequence of calls returns and delivers, in order, what was accepted.\<close>

lemma run_in_order:
  assumes "ok s"
  shows "\<exists>ins outs s'. queue_run put get s cs = Some (ins, outs, s') \<and> ok s' \<and> cap s' = cap s \<and> abs s @ ins = outs @ abs s'"
  using assms
proof (induction cs arbitrary: s)
  case (Cons c cs)
  show ?case
  proof (cases c)
    case (Put xs)
    let ?n = "min (cap s - length (abs s)) (length xs)"
    obtain s1 where s1: "put s xs = Some (?n, s1)" "ok s1" "cap s1 = cap s" "abs s1 = abs s @ take ?n xs"
      using put_law [OF Cons.prems, of xs] by blast
    obtain ins outs s' where r: "queue_run put get s1 cs = Some (ins, outs, s')" "ok s'" "cap s' = cap s1" "abs s1 @ ins = outs @ abs s'"
      using Cons.IH [OF s1(2)] by blast
    have "queue_run put get s (c # cs) = Some (take ?n xs @ ins, outs, s')" using s1(1) r(1) by (simp add: Put)
    then show ?thesis using r s1 by (intro exI [of _ "take ?n xs @ ins"] exI [of _ outs] exI [of _ s']) simp
  next
    case (Get n)
    obtain s1 where s1: "get s n = Some (take n (abs s), s1)" "ok s1" "cap s1 = cap s" "abs s1 = drop n (abs s)"
      using get_law [OF Cons.prems, of n] by blast
    obtain ins outs s' where r: "queue_run put get s1 cs = Some (ins, outs, s')" "ok s'" "cap s' = cap s1" "abs s1 @ ins = outs @ abs s'"
      using Cons.IH [OF s1(2)] by blast
    have run: "queue_run put get s (c # cs) = Some (ins, take n (abs s) @ outs, s')" using s1(1) r(1) by (simp add: Get)
    have "abs s @ ins = take n (abs s) @ (drop n (abs s) @ ins)" by simp
    also have "\<dots> = (take n (abs s) @ outs) @ abs s'" using r(4) unfolding s1(4) by simp
    finally show ?thesis using run r s1 by (intro exI [of _ ins] exI [of _ "take n (abs s) @ outs"] exI [of _ s']) simp
  qed
qed simp

text \<open>Reading as many elements as the queue can hold empties it.\<close>

lemma drain:
  assumes "ok s" and "cap s \<le> n"
  shows "\<exists>s'. get s n = Some (abs s, s') \<and> ok s' \<and> abs s' = []"
  using get_law [OF assms(1), of n] bound [OF assms(1)] assms(2) by (auto intro: le_trans)

end

text \<open>
  The calls of the code under this interface.  A call passes a length, so at most \<open>2 ^ 32 - 1\<close>
  bytes; a reader passes a buffer of that length.
\<close>

definition put_bytes :: "fifo \<Rightarrow> u8 list \<Rightarrow> (nat \<times> fifo) exec" where
  "put_bytes f xs = do {
     (n, f) \<leftarrow> fifo_in f xs (of_nat (min (length xs) (2 ^ 32 - 1)));
     Some (unat n, f) }"

definition get_bytes :: "fifo \<Rightarrow> nat \<Rightarrow> (u8 list \<times> fifo) exec" where
  "get_bytes f n = do {
     let m = min n (2 ^ 32 - 1);
     (k, t, f) \<leftarrow> fifo_out f (replicate m 0) (of_nat m);
     Some (take (unat k) t, f) }"

lemma contents_31: "fifo_ok f \<Longrightarrow> length (fifo_contents f) \<le> 2 ^ 31 \<and> unat (ff_size f) \<le> 2 ^ 31"
proof -
  assume ok: "fifo_ok f"
  then obtain k where k: "k < 32" "ff_size f = 2 ^ k" by (blast elim: fifo_okE)
  then have "(2 :: nat) ^ k \<le> 2 ^ 31" by (intro power_increasing) simp_all
  then show ?thesis using contents_bound [OF ok] k by simp
qed

lemma put_bytes_ok:
  assumes ok: "fifo_ok f" and n_def: "n = min (unat (ff_size f) - length (fifo_contents f)) (length xs)"
  shows "\<exists>f'. put_bytes f xs = Some (n, f') \<and> fifo_ok f' \<and> unat (ff_size f') = unat (ff_size f) \<and>
    fifo_contents f' = fifo_contents f @ take n xs"
proof -
  define l where "l = min (length xs) (2 ^ 32 - 1)"
  have l: "unat (of_nat l :: u32) = l" by (rule unat_of_nat_u32) (simp add: l_def)
  have n: "unat (min (fifo_avail f) (of_nat l)) = n"
    unfolding unat_min l unat_avail [OF ok] n_def l_def using contents_31 [OF ok] by (auto simp: min_def)
  obtain f' where "fifo_in f xs (of_nat l) = Some (min (fifo_avail f) (of_nat l), f')" "fifo_ok f'" "ff_size f' = ff_size f"
    "fifo_contents f' = fifo_contents f @ take n xs"
    using fifo_in_ok [OF ok, of "of_nat l" xs] unfolding l n by (auto simp: l_def)
  then show ?thesis unfolding put_bytes_def l_def [symmetric] by (simp add: n)
qed

lemma get_bytes_ok:
  assumes ok: "fifo_ok f"
  shows "\<exists>f'. get_bytes f n = Some (take n (fifo_contents f), f') \<and> fifo_ok f' \<and> unat (ff_size f') = unat (ff_size f) \<and>
    fifo_contents f' = drop n (fifo_contents f)"
proof -
  define m where "m = min n (2 ^ 32 - 1)"
  have m: "unat (of_nat m :: u32) = m" by (rule unat_of_nat_u32) (simp add: m_def)
  let ?k = "min (length (fifo_contents f)) m"
  have k: "unat (min (fifo_len f) (of_nat m)) = ?k" unfolding unat_min m length_contents [OF ok] ..
  obtain f' where f': "fifo_out f (replicate m 0) (of_nat m) = Some (min (fifo_len f) (of_nat m), take ?k (fifo_contents f) @ drop ?k (replicate m 0), f')"
    "fifo_ok f'" "ff_size f' = ff_size f" "fifo_contents f' = drop ?k (fifo_contents f)"
    using fifo_out_ok [OF ok, of "of_nat m" "replicate m 0"] unfolding m by auto
  have e: "take ?k (fifo_contents f) = take n (fifo_contents f)" "drop ?k (fifo_contents f) = drop n (fifo_contents f)"
    using contents_31 [OF ok] by (auto simp: m_def min_def)
  have "take ?k (take ?k (fifo_contents f) @ drop ?k (replicate m 0)) = take ?k (fifo_contents f)" by simp
  then have "get_bytes f n = Some (take n (fifo_contents f), f')"
    unfolding get_bytes_def Let_def m_def [symmetric] f'(1) by (simp only: Option.bind.bind_lunit prod.case k e(1))
  then show ?thesis using f' e(2) by simp
qed

interpretation bytes: bounded_queue fifo_ok fifo_contents "\<lambda>f. unat (ff_size f)" put_bytes get_bytes
  by unfold_locales (use contents_bound put_bytes_ok [OF _ refl] get_bytes_ok in blast)+

subsection \<open>Records\<close>

text \<open>The length in front of a record: one byte, or two with the low one first.\<close>

definition rec_header :: "u32 \<Rightarrow> u32 \<Rightarrow> u8 list" where
  "rec_header r n = (if r = 1 then [ucast n] else [ucast n, ucast (drop_bit 8 n)])"

lemma length_rec_header: "r = 1 \<or> r = 2 \<Longrightarrow> length (rec_header r n) = unat r"
  by (auto simp: rec_header_def)

lemma put_ok:
  assumes k: "k < 32" "ff_size f = 2 ^ k" and b: "ff_buffer f = Some b" "length b = 2 ^ k"
  shows "FIFO_PUT f off n s = Some (f\<lparr>ff_buffer := Some (ring_write b (unat (ff_in f) + unat off) [ucast (drop_bit s n)])\<rparr>)"
proof -
  define o' where "o' = unat (fifo_off f (ff_in f + off))"
  have o': "o' = (unat (ff_in f) + unat off) mod length b" unfolding o'_def fifo_off_mod [OF k] b(2) ..
  have r: "o' < length b" unfolding o' b(2) by simp
  then have "Suc 0 \<le> length b" by simp
  then have "memcpy_to (Some b) o' [ucast (drop_bit s n)] = Some (Some (ring_write b o' [ucast (drop_bit s n)]))"
    using write_two_parts [OF r, of "[ucast (drop_bit s n)]" 1] r by (simp add: memcpy_to_def [of _ 0])
  then show ?thesis unfolding FIFO_PUT_def o'_def [symmetric] b(1) by (simp add: o')
qed

lemma in_rec_ok:
  assumes ok: "fifo_ok f" and fr: "unat n \<le> length from" and r: "r = 1 \<or> r = 2"
    and fit: "length (fifo_contents f) + unat n + unat r \<le> unat (ff_size f)"
  shows "\<exists>f'. fifo_in_rec f from n r = Some (0, f') \<and> fifo_ok f' \<and> ff_size f' = ff_size f \<and>
    fifo_contents f' = fifo_contents f @ rec_header r n @ take (unat n) from"
proof -
  obtain k b where k: "k < 32" "ff_size f = 2 ^ k" and b: "ff_buffer f = Some b" "length b = 2 ^ k" and L: "unat (fifo_len f) \<le> 2 ^ k"
    using ok by (rule fifo_okE)
  let ?x = "take (unat n) from" and ?p = "unat (ff_in f)" and ?h = "rec_header r n"
  have sz: "unat n + unat r \<le> 2 ^ 31" "length (fifo_contents f) = unat (fifo_len f)"
    using fit contents_31 [OF ok] length_contents [OF ok] by linarith+
  then have nr: "unat (n + r) = unat n + unat r" by (intro unat_add_lem [THEN iffD1]) simp
  have "\<not> fifo_avail f < n + r" using fit unat_avail [OF ok] by (simp add: word_less_nat_alt nr)
  moreover have nk: "unat n \<le> 2 ^ k" using fit k by simp
  ultimately have n: "fifo_in_n f from n r = Some (0, f\<lparr>ff_buffer := Some (ring_write b (?p + unat r) ?x)\<rparr>)"
    unfolding fifo_in_n_def using in_data_ok [OF k b fr, of r] by simp
  have h: "length ?h = unat r" "length ?h + length ?x \<le> length b" using length_rec_header [OF r] fit fr k b(2) by simp_all
  have poke: "fifo_poke_n (f\<lparr>ff_buffer := Some c\<rparr>) r n = Some (f\<lparr>ff_buffer := Some (ring_write c ?p ?h)\<rparr>)" if c: "length c = 2 ^ k" for c
  proof -
    have "FIFO_PUT (f\<lparr>ff_buffer := Some c\<rparr>) 0 n 0 = Some (f\<lparr>ff_buffer := Some (ring_write c ?p [ucast n])\<rparr>)"
      using put_ok [OF k(1), of "f\<lparr>ff_buffer := Some c\<rparr>" c 0 n 0] k(2) c by simp
    moreover have "FIFO_PUT (f\<lparr>ff_buffer := Some (ring_write c ?p [ucast n])\<rparr>) 1 n 8 =
        Some (f\<lparr>ff_buffer := Some (ring_write (ring_write c ?p [ucast n]) (?p + 1) [ucast (drop_bit 8 n)])\<rparr>)"
      using put_ok [OF k(1), of "f\<lparr>ff_buffer := Some (ring_write c ?p [ucast n])\<rparr>" _ 1 n 8] k(2) c by simp
    moreover have "ring_write (ring_write c ?p [ucast n]) (?p + 1) [ucast (drop_bit 8 n)] = ring_write c ?p [ucast n, ucast (drop_bit 8 n)]"
      if "r = 2" using ring_write_append(1) [of "[ucast n]" "[ucast (drop_bit 8 n)]" c ?p] h b(2) c that by (simp add: rec_header_def)
    ultimately show ?thesis using r by (auto simp: fifo_poke_n_def rec_header_def)
  qed
  have w: "ring_write (ring_write b (?p + unat r) ?x) ?p ?h = ring_write b ?p (?h @ ?x)"
    using ring_write_append(2) [OF h(2), of ?p] unfolding h(1) .
  let ?f' = "f\<lparr>ff_buffer := Some (ring_write b ?p (?h @ ?x)), ff_in := ff_in f + of_nat (length (?h @ ?x))\<rparr>"
  have len: "of_nat (length (?h @ ?x)) = n + r" using h(1) fr by (simp add: add.commute)
  have "fifo_in_rec f from n r = Some (0, ?f')"
    unfolding fifo_in_rec_def n len using r b(2) by (auto simp: poke w fifo_add_in_def)
  moreover have "fifo_ok ?f'" "fifo_contents ?f' = fifo_contents f @ ?h @ ?x"
    using append_ok [OF k b _ refl, of "?h @ ?x"] h fit fr k sz by simp_all
  ultimately show ?thesis by (intro exI [of _ ?f']) simp
qed

lemma in_rec_full:
  assumes ok: "fifo_ok f" and r: "r = 1 \<or> r = 2"
    and fit: "unat (ff_size f) < length (fifo_contents f) + unat n + unat r" and small: "unat n + unat r < 2 ^ 32"
  shows "fifo_in_rec f from n r = Some (n + 1, f)"
proof -
  have "unat (n + r) = unat n + unat r" using small by (intro unat_add_lem [THEN iffD1]) simp
  then have "fifo_avail f < n + r" using fit unat_avail [OF ok] contents_bound [OF ok] by (simp add: word_less_nat_alt)
  moreover have "unat (n + 1) = unat n + unat (1 :: u32)" using small r by (intro unat_add_lem [THEN iffD1]) auto
  then have "n + 1 \<noteq> 0" by auto
  ultimately show ?thesis by (simp add: fifo_in_rec_def fifo_in_n_def)
qed

lemma get_ok:
  assumes ok: "fifo_ok f" and i: "unat off < length (fifo_contents f)"
  shows "FIFO_GET f off s = Some (push_bit s (ucast (fifo_contents f ! unat off)))"
proof -
  obtain k b where k: "k < 32" "ff_size f = 2 ^ k" and b: "ff_buffer f = Some b" "length b = 2 ^ k"
    using ok by (rule fifo_okE)
  define o' where "o' = unat (fifo_off f (ff_out f + off))"
  have o': "o' = (unat (ff_out f) + unat off) mod length b" unfolding o'_def fifo_off_mod [OF k] b(2) ..
  have r: "o' < length b" unfolding o' b(2) by simp
  have "memcpy_from (Some b) o' 1 = Some (take 1 (drop o' b))" using r by (intro memcpy_from_ok) simp
  moreover have "hd (take 1 (drop o' b)) = b ! o'" using r by (simp add: hd_drop_conv_nth hd_take)
  moreover have "b ! o' = fifo_contents f ! unat off" using i length_contents [OF ok] by (simp add: fifo_contents_def b(1) o')
  ultimately show ?thesis unfolding FIFO_GET_def o'_def [symmetric] b(1) by simp
qed

lemma two_bytes:
  fixes n :: u32
  shows "ucast (ucast n :: u8) = take_bit 8 n"
    and "take_bit 8 n OR push_bit 8 (take_bit 8 (drop_bit 8 n)) = take_bit 16 n"
  by (rule bit_eqI; auto simp: bit_simps)+

lemma peek_ok:
  assumes ok: "fifo_ok f" and r: "r = 1 \<or> r = 2" and c: "fifo_contents f = rec_header r n @ zs"
  shows "fifo_peek_n f r = Some (take_bit (8 * unat r) n)"
proof -
  have "FIFO_GET f 0 0 = Some (ucast (ucast n :: u8))" using get_ok [OF ok, of 0 0] c r by (auto simp: rec_header_def)
  moreover have "FIFO_GET f 1 8 = Some (push_bit 8 (ucast (ucast (drop_bit 8 n) :: u8)))" if "r = 2"
    using get_ok [OF ok, of 1 8] c that by (simp add: rec_header_def)
  ultimately show ?thesis using r by (auto simp: fifo_peek_n_def two_bytes)
qed

text \<open>
  Reading a record: the length that was stored, as far as it fits the header, decides what is
  taken out.
\<close>

lemma out_rec_ok:
  assumes ok: "fifo_ok f" and r: "r = 1 \<or> r = 2" and c: "fifo_contents f = rec_header r n @ xs @ zs"
    and xs: "unat (take_bit (8 * unat r) n) = length xs" and room: "length xs \<le> unat m" "unat m \<le> length to"
  shows "\<exists>f'. fifo_out_rec f to m r = Some (0, take_bit (8 * unat r) n, xs @ drop (length xs) to, f') \<and> fifo_ok f' \<and>
    ff_size f' = ff_size f \<and> fifo_contents f' = zs"
proof -
  obtain k b where k: "k < 32" "ff_size f = 2 ^ k" and b: "ff_buffer f = Some b" "length b = 2 ^ k" and L: "unat (fifo_len f) \<le> 2 ^ k"
    using ok by (rule fifo_okE)
  let ?l = "take_bit (8 * unat r) n" and ?p = "unat (ff_out f)"
  have h: "length (rec_header r n) = unat r" by (rule length_rec_header [OF r])
  have len: "unat (fifo_len f) = unat r + length xs + length zs" using length_contents [OF ok] c h by simp
  have "unat r + length xs \<le> 2 ^ 31" using contents_31 [OF ok] c h by simp
  then have lr: "unat (?l + r) = length xs + unat r" using xs by (subst unat_add_lem [THEN iffD1]) simp_all
  have "\<not> fifo_len f < ?l + r" using len by (simp add: word_less_nat_alt lr)
  moreover have "fifo_out_data f to ?l r = Some (ring_read b (?p + unat r) (length xs) @ drop (length xs) to)"
    using out_data_ok [OF k b, of ?l to r] xs room len L by simp
  moreover have "ring_read b (?p + unat r) (length xs) = xs"
  proof -
    have "ring_read b ?p (unat r + (length xs + length zs)) = rec_header r n @ xs @ zs"
      using c len by (simp add: fifo_contents_def b(1) add.assoc)
    then have "ring_read b (?p + unat r) (length xs + length zs) = xs @ zs"
      unfolding ring_read_append [of _ _ "unat r"] using h by simp
    then show ?thesis unfolding ring_read_append by simp
  qed
  ultimately have "fifo_out_n f to ?l r = Some (0, xs @ drop (length xs) to, fifo_add_out f (?l + r))"
    by (simp add: fifo_out_n_def)
  moreover have "\<not> m < ?l" using room(1) xs by (simp add: word_less_nat_alt)
  ultimately have "fifo_out_rec f to m r = Some (0, ?l, xs @ drop (length xs) to, fifo_add_out f (?l + r))"
    using peek_ok [OF ok r c] r by (auto simp: fifo_out_rec_def)
  moreover have "fifo_ok (fifo_add_out f (?l + r))" "fifo_contents (fifo_add_out f (?l + r)) = zs"
    using add_out_ok [OF ok, of "?l + r"] h by (simp_all add: lr c)
  ultimately show ?thesis by (simp add: fifo_add_out_def)
qed

text \<open>Writing a list of records, and reading a number of them with a buffer of \<open>m\<close> bytes.\<close>

fun write_records :: "u32 \<Rightarrow> fifo \<Rightarrow> u8 list list \<Rightarrow> fifo exec" where
  "write_records r f [] = Some f"
| "write_records r f (x # xs) = do {
     (ret, f) \<leftarrow> fifo_in_rec f x (of_nat (length x)) r;
     guard (ret = 0);
     write_records r f xs }"

fun read_records :: "u32 \<Rightarrow> u32 \<Rightarrow> nat \<Rightarrow> fifo \<Rightarrow> (u8 list list \<times> fifo) exec" where
  "read_records r m 0 f = Some ([], f)"
| "read_records r m (Suc k) f = do {
     (ret, total, t, f) \<leftarrow> fifo_out_rec f (replicate (unat m) 0) m r;
     guard (ret = 0);
     (xs, f) \<leftarrow> read_records r m k f;
     Some (take (unat total) t # xs, f) }"

definition record_bytes :: "u32 \<Rightarrow> u8 list \<Rightarrow> u8 list" where
  "record_bytes r x = rec_header r (of_nat (length x)) @ x"

lemma write_records_ok:
  assumes "fifo_ok f" and r: "r = 1 \<or> r = 2"
    and "length (fifo_contents f @ concat (map (record_bytes r) xs)) \<le> unat (ff_size f)"
  shows "\<exists>f'. write_records r f xs = Some f' \<and> fifo_ok f' \<and> ff_size f' = ff_size f \<and>
    fifo_contents f' = fifo_contents f @ concat (map (record_bytes r) xs)"
  using assms(1,3)
proof (induction xs arbitrary: f)
  case (Cons x xs)
  have "length x \<le> 2 ^ 31" using Cons.prems(2) contents_31 [OF Cons.prems(1)] by (simp add: record_bytes_def)
  then have l: "unat (of_nat (length x) :: u32) = length x" by (intro unat_of_nat_u32) simp
  obtain f1 where f1: "fifo_in_rec f x (of_nat (length x)) r = Some (0, f1)" "fifo_ok f1" "ff_size f1 = ff_size f"
    "fifo_contents f1 = fifo_contents f @ record_bytes r x"
    using in_rec_ok [OF Cons.prems(1) _ r, of "of_nat (length x)" x] Cons.prems(2) length_rec_header [OF r]
    by (auto simp: l record_bytes_def)
  then show ?case using Cons.IH [OF f1(2)] Cons.prems(2) by simp
qed simp

lemma read_records_ok:
  assumes "fifo_ok f" and r: "r = 1 \<or> r = 2" and "fifo_contents f = concat (map (record_bytes r) xs) @ zs"
    and "\<forall>x \<in> set xs. length x < 2 ^ (8 * unat r) \<and> length x \<le> unat m"
  shows "\<exists>f'. read_records r m (length xs) f = Some (xs, f') \<and> fifo_ok f' \<and> ff_size f' = ff_size f \<and> fifo_contents f' = zs"
  using assms(1,3,4)
proof (induction xs arbitrary: f)
  case (Cons x xs)
  let ?n = "of_nat (length x) :: u32"
  have x: "length x < 2 ^ (8 * unat r)" "length x \<le> unat m" using Cons.prems(3) by simp_all
  moreover have "(2 :: nat) ^ (8 * unat r) \<le> 2 ^ 16" using r by auto
  ultimately have l: "unat ?n = length x" by (intro unat_of_nat_u32) simp
  have c: "fifo_contents f = rec_header r ?n @ x @ concat (map (record_bytes r) xs) @ zs"
    using Cons.prems(2) by (simp add: record_bytes_def [of r x])
  have "unat (take_bit (8 * unat r) ?n) = length x" using l x(1) by (simp add: unsigned_take_bit_eq take_bit_nat_eq_self)
  then obtain f1 where f1: "fifo_out_rec f (replicate (unat m) 0) m r =
      Some (0, take_bit (8 * unat r) ?n, x @ drop (length x) (replicate (unat m) 0), f1)" "fifo_ok f1" "ff_size f1 = ff_size f"
    "fifo_contents f1 = concat (map (record_bytes r) xs) @ zs" "unat (take_bit (8 * unat r) ?n) = length x"
    using out_rec_ok [OF Cons.prems(1) r, of ?n x "concat (map (record_bytes r) xs) @ zs" m "replicate (unat m) 0"] c x(2)
    by auto
  obtain f' where "read_records r m (length xs) f1 = Some (xs, f')" "fifo_ok f'" "ff_size f' = ff_size f1" "fifo_contents f' = zs"
    using Cons.IH [OF f1(2,4)] Cons.prems(3) by auto
  then show ?case using f1 by simp
qed simp

subsection \<open>Allocation\<close>

lemma bit_top:
  assumes "2 ^ k \<le> unat (x :: u32)" and "unat x < 2 ^ (k + 1)"
  shows "bit x k" and "k < i \<Longrightarrow> \<not> bit x i"
proof -
  have "bit x j \<longleftrightarrow> odd (unat x div 2 ^ j)" for j
    using bit_unsigned_iff [where w = x and n = j and 'a = nat] by (simp add: bit_iff_odd bit_imp_le_length [of x j] cong: conj_cong)
  note b = this
  have "unat x div 2 ^ k = 1" using assms by (intro div_nat_eqI) simp_all
  then show "bit x k" by (simp add: b)
  assume "k < i"
  then have "(2 :: nat) ^ (k + 1) \<le> 2 ^ i" by (intro power_increasing) simp_all
  then show "\<not> bit x i" using assms(2) by (simp add: b)
qed

lemma takeWhile_rev_upt:
  assumes "k < N" and "\<not> P k" and "\<And>i. k < i \<Longrightarrow> P i"
  shows "length (takeWhile P (rev [0..<N])) = N - Suc k"
proof -
  have "[0..<N] = [0..<k] @ k # [Suc k..<N]"
    using upt_add_eq_append [of 0 k "N - k"] upt_conv_Cons [OF assms(1)] assms(1) by simp
  then have "rev [0..<N] = rev [Suc k..<N] @ k # rev [0..<k]" by simp
  moreover have "takeWhile P (rev [Suc k..<N] @ k # rev [0..<k]) = rev [Suc k..<N] @ takeWhile P (k # rev [0..<k])"
    using assms(3) by (intro takeWhile_append2) simp
  ultimately show ?thesis using assms(2) by simp
qed

lemma clz_top:
  assumes k: "k < 32" "2 ^ k \<le> unat (x :: u32)" "unat x < 2 ^ (k + 1)"
  shows "builtin_clz x = Some (31 - k)"
proof -
  have "length (takeWhile (\<lambda>i. \<not> bit x i) (rev [0..<32])) = 32 - Suc k"
    using bit_top [OF k(2,3)] by (intro takeWhile_rev_upt [OF k(1)]) simp_all
  moreover have "x \<noteq> 0" using k(2) by auto
  ultimately show ?thesis unfolding builtin_clz_def by simp
qed

lemma roundup_value:
  assumes k: "0 < k" "k < 32" "2 ^ k < unat n" "unat n < 2 ^ (k + 1)"
  shows "roundup_pow_of_two n = Some (2 ^ (32 - k))"
proof -
  have "n \<noteq> 0" using k(3) by auto
  then have "unat (n - 1) = unat n - 1" by (rule unat_minus_one)
  then have "2 ^ k \<le> unat (n - 1)" "unat (n - 1) < 2 ^ (k + 1)" using k(3,4) by simp_all
  then have "builtin_clz (n - 1) = Some (31 - k)" using k(2) by (intro clz_top)
  moreover have "32 - k = Suc (31 - k)" "31 - k + 1 < 32" using k(1,2) by simp_all
  ultimately show ?thesis by (simp add: roundup_pow_of_two_def push_bit_eq_mult)
qed

lemma alloc_ok:
  assumes "(if is_power_of_2 n then Some n else roundup_pow_of_two n) = Some s" and "is_power_of_2 s"
  shows "\<exists>f'. fifo_alloc (Some g) n f = Some (0, f') \<and> fifo_ok f' \<and> fifo_contents f' = [] \<and> ff_size f' = s"
proof -
  have "fifo_alloc (Some g) n f = Some (0, fifo_init0 (Some (map g [0..<unat s])) s f)" using assms(1) by (simp add: fifo_alloc_def split: if_splits)
  moreover have "fifo_init0 (Some (map g [0..<unat s])) s f = fifo_init (Some (map g [0..<unat s])) s f" using assms(2) by (simp add: fifo_init_def)
  ultimately show ?thesis using fifo_init_ok [OF assms(2), of "map g [0..<unat s]" f] by simp
qed

subsection \<open>Looking ahead\<close>

lemma memcpy_to_overflow: "length c < off + length bs \<Longrightarrow> bs \<noteq> [] \<Longrightarrow> memcpy_to (Some c) off bs = None"
  by (simp add: memcpy_to_def)

lemma out_data_overflow:
  assumes k: "k < 32" "ff_size f = 2 ^ k" and b: "ff_buffer f = Some b" "length b = 2 ^ k"
    and to: "length to < unat len" and fit: "unat len \<le> 2 ^ k"
  shows "fifo_out_data f to len off = None"
proof -
  define o' where "o' = fifo_off f (ff_out f + off)"
  define l where "l = min len (2 ^ k - o')"
  have r: "unat o' < 2 ^ k" unfolding o'_def fifo_off_mod [OF k] by simp
  note ul = copy_lengths [OF k(1) _ l_def, OF r]
  define x y where "x = take (unat l) (drop (unat o') b)" and "y = take (unat (len - l)) b"
  have c1: "memcpy_from (Some b) (unat o') (unat l) = Some x" unfolding x_def using b(2) ul r by (intro memcpy_from_ok) simp
  have c2: "memcpy_from (Some b) 0 (unat (len - l)) = Some y"
    unfolding y_def using memcpy_from_ok [of 0 "unat (len - l)" b] b(2) ul fit by simp
  have len: "length x = unat l" "length y = unat len - unat l" "unat l \<le> unat len" using b(2) ul fit r by (simp_all add: x_def y_def)
  have "memcpy_to (Some to) 0 x \<bind> (\<lambda>t. memcpy_to t (unat l) y \<bind> (\<lambda>t. t)) = None"
  proof (cases "length to < unat l")
    case True
    then have "x \<noteq> []" using len(1) by auto
    then show ?thesis using True len(1) by (simp add: memcpy_to_overflow)
  next
    case False
    then have "y \<noteq> []" using len(2) to by auto
    then have "memcpy_to (Some (x @ drop (unat l) to)) (unat l) y = None"
      using len False to by (intro memcpy_to_overflow) simp_all
    moreover have "memcpy_to (Some to) 0 x = Some (Some (x @ drop (unat l) to))"
      using memcpy_to_ok [of 0 x to] len(1) False by simp
    ultimately show ?thesis by simp
  qed
  then show ?thesis unfolding fifo_out_data_def Let_def o'_def [symmetric] k(2) l_def [symmetric] b(1) c1 c2 by simp
qed

subsection \<open>Properties\<close>

text \<open>A queue of eight bytes whose indices are about to wrap.\<close>

definition ex_fifo :: fifo where
  "ex_fifo = \<lparr>ff_buffer = Some [10, 11, 12, 13, 14, 15, 16, 17], ff_size = 8, ff_in = 2, ff_out = 0xfffffffe\<rparr>"

lemma ex_fifo_ok: "fifo_ok ex_fifo"
  unfolding ex_fifo_def by code_simp

lemma ex_fifo_contents: "fifo_contents ex_fifo = [16, 17, 10, 11]"
  by (simp add: fifo_contents_def fifo_len_def ex_fifo_def ring_read_def upt_rec)

text \<open>
  C25: The ring of bytes implements a bounded queue.  Writing appends as many of the bytes as there is
  room for and returns their number, reading takes from the front as many bytes as there are and
  returns their number, skipping drops them; all three keep the queue usable and of the same
  size, whatever the indices are and also when they wrap.
\<close>

theorem fifo_refines_queue:
  assumes "fifo_ok f" and "unat len \<le> length from" and "unat len \<le> length to"
  shows "(\<exists>n f'. fifo_in f from len = Some (n, f') \<and> fifo_ok f' \<and> ff_size f' = ff_size f \<and>
      unat n = min (unat (ff_size f) - length (fifo_contents f)) (unat len) \<and>
      fifo_contents f' = fifo_contents f @ take (unat n) from) \<and>
    (\<exists>n f'. fifo_out f to len = Some (n, take (unat n) (fifo_contents f) @ drop (unat n) to, f') \<and> fifo_ok f' \<and>
      ff_size f' = ff_size f \<and> unat n = min (length (fifo_contents f)) (unat len) \<and>
      fifo_contents f' = drop (unat n) (fifo_contents f)) \<and>
    fifo_ok (fifo_skip f len) \<and> ff_size (fifo_skip f len) = ff_size f \<and>
      fifo_contents (fifo_skip f len) = drop (unat len) (fifo_contents f)"
proof (intro conjI)
  have n: "unat (min (fifo_avail f) len) = min (unat (ff_size f) - length (fifo_contents f)) (unat len)"
    by (simp add: unat_min unat_avail [OF assms(1)])
  show "\<exists>n f'. fifo_in f from len = Some (n, f') \<and> fifo_ok f' \<and> ff_size f' = ff_size f \<and>
      unat n = min (unat (ff_size f) - length (fifo_contents f)) (unat len) \<and>
      fifo_contents f' = fifo_contents f @ take (unat n) from"
    using fifo_in_ok [OF assms(1,2)] n by (intro exI [of _ "min (fifo_avail f) len"]) simp
  have n: "unat (min (fifo_len f) len) = min (length (fifo_contents f)) (unat len)"
    by (simp add: unat_min length_contents [OF assms(1)])
  show "\<exists>n f'. fifo_out f to len = Some (n, take (unat n) (fifo_contents f) @ drop (unat n) to, f') \<and> fifo_ok f' \<and>
      ff_size f' = ff_size f \<and> unat n = min (length (fifo_contents f)) (unat len) \<and>
      fifo_contents f' = drop (unat n) (fifo_contents f)"
    using fifo_out_ok [OF assms(1,3)] unfolding n [symmetric] by (intro exI [of _ "min (fifo_len f) len"]) simp
qed (rule fifo_skip_ok [OF assms(1)])+

theorem fifo_refines_queue_witness:
  "(\<exists>n f'. fifo_in ex_fifo [1, 2, 3, 4, 5, 6] 6 = Some (n, f') \<and> unat n = 4 \<and> fifo_contents f' = [16, 17, 10, 11] @ take 4 [1, 2, 3, 4, 5, 6]) \<and>
   (\<exists>n f'. fifo_out ex_fifo [0, 0, 0, 0, 0, 0] 6 = Some (n, take 4 [16, 17, 10, 11] @ drop 4 [0, 0, 0, 0, 0, 0], f') \<and>
      fifo_contents f' = drop 4 [16, 17, 10, 11])"
proof -
  have "unat (6 :: u32) \<le> length [1, 2, 3, 4, 5, 6 :: u8]" "unat (6 :: u32) \<le> length [0, 0, 0, 0, 0, 0 :: u8]" by simp_all
  note t = fifo_refines_queue [OF ex_fifo_ok this]
  have "min (unat (ff_size ex_fifo) - length [16, 17, 10, 11 :: u8]) (unat (6 :: u32)) = 4"
    "min (length [16, 17, 10, 11 :: u8]) (unat (6 :: u32)) = 4" by (simp_all add: ex_fifo_def)
  then show ?thesis using t unfolding ex_fifo_contents by metis
qed

text \<open>
  C26: Over every sequence of writes and reads, of any lengths, from an empty queue on: each call
  returns, the queue stays usable, and the bytes read so far followed by the bytes still in it are
  the bytes accepted so far, in order.
\<close>

theorem fifo_in_order:
  assumes "is_power_of_2 n" and "length b = unat n"
  shows "\<exists>ins outs f'. queue_run put_bytes get_bytes (fifo_init (Some b) n f) cs = Some (ins, outs, f') \<and>
    fifo_ok f' \<and> ff_size f' = n \<and> ins = outs @ fifo_contents f' \<and> length (fifo_contents f') \<le> unat n"
proof -
  let ?f = "fifo_init (Some b) n f"
  obtain ins outs f' where r: "queue_run put_bytes get_bytes ?f cs = Some (ins, outs, f')" "fifo_ok f'"
    "unat (ff_size f') = unat (ff_size ?f)" "fifo_contents ?f @ ins = outs @ fifo_contents f'"
    using bytes.run_in_order [OF fifo_init_ok(1) [OF assms]] by blast
  have "ff_size f' = n" using r(3) fifo_init_ok(3) [OF assms] by (simp add: unsigned_word_eqI)
  then show ?thesis using r fifo_init_ok(2) [OF assms] contents_bound [OF r(2)]
    by (intro exI [of _ ins] exI [of _ outs] exI [of _ f']) simp
qed

theorem fifo_in_order_witness:
  "\<exists>ins outs f'. queue_run put_bytes get_bytes (fifo_init (Some [0, 0, 0, 0]) 4 ex_fifo) [Put [1, 2, 3], Get 2, Put [4, 5, 6, 7], Get 9] =
     Some (ins, outs, f') \<and> ins = outs @ fifo_contents f' \<and> fifo_ok f'"
proof -
  have "is_power_of_2 4" by code_simp
  moreover have "length [0, 0, 0, 0 :: u8] = unat (4 :: u32)" by simp
  ultimately show ?thesis
    using fifo_in_order [of 4 "[0, 0, 0, 0]" ex_fifo "[Put [1, 2, 3], Get 2, Put [4, 5, 6, 7], Get 9]"] by blast
qed

text \<open>
  C27: Records of any contents, written while there is room for them and their length fields, are
  read back one by one, unchanged and in order.
\<close>

theorem records_round_trip:
  assumes "fifo_ok f" and "r = 1 \<or> r = 2" and "fifo_contents f = []"
    and "length (concat (map (record_bytes r) xs)) \<le> unat (ff_size f)"
    and "\<forall>x \<in> set xs. length x < 2 ^ (8 * unat r) \<and> length x \<le> unat m"
  shows "\<exists>f1 f2. write_records r f xs = Some f1 \<and> read_records r m (length xs) f1 = Some (xs, f2) \<and> fifo_ok f2 \<and> fifo_contents f2 = []"
proof -
  obtain f1 where f1: "write_records r f xs = Some f1" "fifo_ok f1" "fifo_contents f1 = concat (map (record_bytes r) xs)"
    using write_records_ok [OF assms(1,2), of xs] assms(3,4) by auto
  then have "fifo_contents f1 = concat (map (record_bytes r) xs) @ []" by simp
  from read_records_ok [OF f1(2) assms(2) this assms(5)] show ?thesis using f1(1) by blast
qed

theorem records_round_trip_witness:
  "\<exists>f1 f2. write_records 1 (fifo_reset_out ex_fifo) [[1, 2], [], [3]] = Some f1 \<and>
     read_records 1 2 (length [[1, 2], [], [3 :: u8]]) f1 = Some ([[1, 2], [], [3]], f2) \<and> fifo_ok f2 \<and> fifo_contents f2 = []"
proof (rule records_round_trip)
  show "fifo_ok (fifo_reset_out ex_fifo)" "fifo_contents (fifo_reset_out ex_fifo) = []"
    using reset_out_ok [OF ex_fifo_ok] by simp_all
  show "length (concat (map (record_bytes 1) [[1, 2], [], [3]])) \<le> unat (ff_size (fifo_reset_out ex_fifo))"
    by (simp add: ex_fifo_def fifo_reset_out_def record_bytes_def rec_header_def)
qed simp_all

text \<open>
  C36: With a length field of one byte, a record of 256 bytes or more is accepted, but only its length
  modulo 256 is stored: the reader gets that many bytes, and the rest of the record is taken for
  the records that follow.
\<close>

theorem record_length_truncated:
  assumes "fifo_ok f" and "fifo_contents f = []" and "256 \<le> unat n" and "unat n + 1 \<le> unat (ff_size f)"
    and "unat n \<le> length from" and "unat n mod 256 \<le> unat m" and "unat m \<le> length to"
  shows "\<exists>f1 f2 total. fifo_in_rec f from n 1 = Some (0, f1) \<and>
    fifo_out_rec f1 to m 1 = Some (0, total, take (unat n mod 256) from @ drop (unat n mod 256) to, f2) \<and>
    unat total = unat n mod 256 \<and> fifo_contents f2 = drop (unat n mod 256) (take (unat n) from)"
proof -
  obtain f1 where f1: "fifo_in_rec f from n 1 = Some (0, f1)" "fifo_ok f1" "fifo_contents f1 = rec_header 1 n @ take (unat n) from"
    using in_rec_ok [OF assms(1,5), of 1] assms(2,4) by auto
  let ?k = "unat n mod 256"
  have "unat (take_bit 8 n) = unat n mod 2 ^ 8" by (simp only: unsigned_take_bit_eq) (simp only: take_bit_eq_mod)
  then have t: "unat (take_bit (8 * unat (1 :: u32)) n) = ?k" by simp
  have k: "?k \<le> unat n" by simp
  have "fifo_contents f1 = rec_header 1 n @ take ?k (take (unat n) from) @ drop ?k (take (unat n) from)"
    unfolding f1(3) append_take_drop_id ..
  moreover have "take ?k (take (unat n) from) = take ?k from" "length (take ?k from) = ?k" using k assms(5) by simp_all
  ultimately obtain f2 where "fifo_out_rec f1 to m 1 = Some (0, take_bit (8 * unat (1 :: u32)) n, take ?k from @ drop ?k to, f2)"
    "fifo_contents f2 = drop ?k (take (unat n) from)"
    using out_rec_ok [OF f1(2), of 1 n "take ?k from" "drop ?k (take (unat n) from)" m to] t assms(6,7) by auto
  then show ?thesis using f1(1) t by blast
qed

theorem record_length_truncated_witness:
  "\<exists>f1 f2 total. fifo_in_rec (fifo_init (Some (replicate 512 0)) 512 ex_fifo) (replicate 257 7) 257 1 = Some (0, f1) \<and>
    fifo_out_rec f1 (replicate 16 0) 16 1 =
      Some (0, total, take (unat (257 :: u32) mod 256) (replicate 257 7) @ drop (unat (257 :: u32) mod 256) (replicate 16 0), f2) \<and>
    unat total = unat (257 :: u32) mod 256 \<and>
    fifo_contents f2 = drop (unat (257 :: u32) mod 256) (take (unat (257 :: u32)) (replicate 257 7))"
proof -
  have "is_power_of_2 512" unfolding is_power_of_2_iff by (intro exI [of _ 9]) simp
  note f = fifo_init_ok [OF this, of "replicate 512 0" ex_fifo]
  show ?thesis by (rule record_length_truncated) (use f in simp_all)
qed

text \<open>
  C37: Looking ahead at an offset copies that many bytes too many: with at least \<open>len + offset\<close> bytes
  in the queue and a destination of \<open>len\<close> bytes, the copy runs over the end of the destination.
\<close>

theorem peek_overflows:
  assumes ok: "fifo_ok f" and "0 < unat offset" and to: "length to = unat len"
    and c: "unat len + unat offset \<le> length (fifo_contents f)"
  shows "fifo_out_peek f to len offset = None"
proof -
  obtain k b where k: "k < 32" "ff_size f = 2 ^ k" and b: "ff_buffer f = Some b" "length b = 2 ^ k" and L: "unat (fifo_len f) \<le> 2 ^ k"
    using ok by (rule fifo_okE)
  have "unat (len + offset) = unat len + unat offset"
    using c contents_31 [OF ok] by (intro unat_add_lem [THEN iffD1]) simp
  then have "unat (min (fifo_len f) (len + offset)) = unat len + unat offset"
    using c length_contents [OF ok] by (simp add: unat_min)
  then have "fifo_out_data f to (min (fifo_len f) (len + offset)) offset = None"
    using assms(2) to c L length_contents [OF ok] by (intro out_data_overflow [OF k b]) simp_all
  then show ?thesis by (simp add: fifo_out_peek_def Let_def)
qed

theorem peek_overflows_witness: "fifo_out_peek ex_fifo [0, 0] 2 1 = None"
  by (rule peek_overflows [OF ex_fifo_ok]) (simp_all add: ex_fifo_contents)

text \<open>
  C38: The size of an allocated queue is never rounded up to the next power of two when it is not one
  already.  For a request between \<open>2 ^ k\<close> and \<open>2 ^ (k + 1)\<close> the queue has \<open>2 ^ (32 - k)\<close> bytes
  instead of \<open>2 ^ (k + 1)\<close>, and is smaller than what was asked for from \<open>k = 16\<close> on.
\<close>

theorem alloc_wrong_size:
  assumes k: "0 < k" "k < 32" and n: "2 ^ k < unat n" "unat n < 2 ^ (k + 1)"
  shows "\<exists>f'. fifo_alloc (Some g) n f = Some (0, f') \<and> fifo_ok f' \<and> fifo_contents f' = [] \<and> unat (ff_size f') = 2 ^ (32 - k) \<and>
    unat (ff_size f') \<noteq> 2 ^ (k + 1) \<and> (16 \<le> k \<longrightarrow> unat (ff_size f') < unat n)"
proof -
  have "\<not> is_power_of_2 n"
  proof
    assume "is_power_of_2 n"
    then obtain j where j: "unat n = 2 ^ j" by (auto simp: is_power_of_2_iff)
    have "k < j" "j < k + 1"
      using n power_less_imp_less_exp [of "2 :: nat" k j] power_less_imp_less_exp [of "2 :: nat" j "k + 1"] unfolding j by simp_all
    then show False by simp
  qed
  moreover have "is_power_of_2 (2 ^ (32 - k))" unfolding is_power_of_2_iff using k(1) by (intro exI [of _ "32 - k"]) simp
  ultimately obtain f' where f': "fifo_alloc (Some g) n f = Some (0, f')" "fifo_ok f'" "fifo_contents f' = []" "ff_size f' = 2 ^ (32 - k)"
    using alloc_ok [of n "2 ^ (32 - k)" g f] roundup_value [OF k n] by auto
  have s: "unat (ff_size f') = 2 ^ (32 - k)" using f'(4) k(1) by simp
  moreover have "32 - k \<noteq> k + 1" using k by presburger
  then have "(2 :: nat) ^ (32 - k) \<noteq> 2 ^ (k + 1)" using power_inject_exp [of "2 :: nat" "32 - k" "k + 1"] by simp
  moreover have "unat (ff_size f') < unat n" if "16 \<le> k"
    unfolding s using that by (intro le_less_trans [OF _ n(1)] power_increasing) simp_all
  ultimately show ?thesis using f' by (intro exI [of _ f']) metis
qed

theorem alloc_wrong_size_witness:
  "(\<exists>f'. fifo_alloc (Some (\<lambda>_. 0)) 100 ex_fifo = Some (0, f') \<and> unat (ff_size f') = 2 ^ (32 - 6)) \<and>
   (\<exists>f'. fifo_alloc (Some (\<lambda>_. 0)) 70000 ex_fifo = Some (0, f') \<and> unat (ff_size f') < unat (70000 :: u32))"
proof -
  have "\<exists>f'. fifo_alloc (Some (\<lambda>_. 0)) 100 ex_fifo = Some (0, f') \<and> unat (ff_size f') = 2 ^ (32 - 6)"
    using alloc_wrong_size [of 6 100 "\<lambda>_. 0" ex_fifo] by auto
  moreover have "\<exists>f'. fifo_alloc (Some (\<lambda>_. 0)) 70000 ex_fifo = Some (0, f') \<and> unat (ff_size f') < unat (70000 :: u32)"
    using alloc_wrong_size [of 16 70000 "\<lambda>_. 0" ex_fifo] by auto
  ultimately show ?thesis ..
qed

text \<open>
  A queue that was serialized is rebuilt exactly, with its indices and all bytes of its buffer.
\<close>

theorem serialize_round_trip:
  assumes "fifo_ok f"
  shows "\<exists>len s. fifo_serialize True f = Some (len, Some s) \<and> unat len = 12 + unat (ff_size f) \<and>
    fifo_unserialize (Some g) f0 s = Some (0, f)"
proof -
  obtain k b where k: "k < 32" "ff_size f = 2 ^ k" and b: "ff_buffer f = Some b" "length b = 2 ^ k"
    using assms by (rule fifo_okE)
  have p: "is_power_of_2 (ff_size f)" using assms by (simp add: fifo_ok_def)
  let ?s = "\<lparr>fs_size = ff_size f, fs_in = ff_in f, fs_out = ff_out f, fs_buffer = b\<rparr>"
  have ser: "fifo_serialize True f = Some (12 + ff_size f, Some ?s)"
    using memcpy_from_ok [of 0 "unat (ff_size f)" b] k b by (simp add: fifo_serialize_def)
  have "unat (12 + ff_size f) = unat (12 :: u32) + unat (ff_size f)"
    using contents_31 [OF assms] by (intro unat_add_lem [THEN iffD1]) simp
  then have len: "unat (12 + ff_size f) = 12 + unat (ff_size f)" by simp
  have "memcpy_to (Some (map g [0..<2 ^ k])) 0 b = Some (Some b)" using memcpy_to_ok [of 0 b "map g [0..<2 ^ k]"] b(2) by simp
  then have "fifo_unserialize (Some g) f0 ?s = Some (0, f)"
    using p k b by (simp add: fifo_unserialize_def fifo_alloc_def fifo_init0_def fifo_reset_def Let_def)
  then show ?thesis using ser len by blast
qed

theorem serialize_round_trip_witness:
  "\<exists>len s. fifo_serialize True ex_fifo = Some (len, Some s) \<and> fifo_unserialize (Some (\<lambda>_. 0)) (fifo_free ex_fifo) s = Some (0, ex_fifo)"
  using serialize_round_trip [OF ex_fifo_ok, of "\<lambda>_. 0" "fifo_free ex_fifo"] by blast

end
