(* ===== verification/Nbd_Xml.thy ===== *)
theory Nbd_Xml
  imports Nbd_Client
begin

text \<open>
  The calls to the nbd daemon whose answer is an allocated block, most of them XML texts, and the files
  \<open>sambactl.c\<close>, \<open>usharectl.c\<close>, \<open>backup3g.c\<close>, \<open>disk.c\<close>, \<open>printer.c\<close> and \<open>ddnsctl.c\<close> of \<open>efixo-libnbd/src/lib\<close>.
\<close>

text \<open>
  What \<open>nbd_query_new\<close> returns over a daemon (\<open>nbd_get_new_query\<close> below).  \<open>mem\<close> says whether the block could be
  allocated: without it the caller still gets the code of the daemon, and no block.
\<close>

definition nbd_get_new :: "nbd_daemon \<Rightarrow> calls \<Rightarrow> bool \<Rightarrow> string list \<Rightarrow> (int \<times> string option) exec" where
  "nbd_get_new D h mem args = do {
     guard (query_fits args);
     let (ret, data) = D h args;
     Some (ret, if mem then Some data else None) }"

text \<open>A NULL argument ends the list of arguments.\<close>

definition arg_opt :: "string option \<Rightarrow> string list" where
  "arg_opt a = (case a of None \<Rightarrow> [] | Some s \<Rightarrow> [s])"

subsection \<open>\<open>nvram.c\<close>, \<open>status.c\<close>, \<open>nbctl.c\<close>, \<open>wlan.c\<close>, \<open>dsl.c\<close>, \<open>lan.c\<close> and \<open>nat.c\<close>\<close>

definition nbd_system_config_xml :: "nbd_daemon \<Rightarrow> calls \<Rightarrow> bool \<Rightarrow> string \<Rightarrow> (int \<times> string option) exec" where
  "nbd_system_config_xml D h mem key = nbd_get_new D h mem [''nvram'', ''xml'', key]"

definition nbd_user_config_xml :: "nbd_daemon \<Rightarrow> calls \<Rightarrow> bool \<Rightarrow> string \<Rightarrow> (int \<times> string option) exec" where
  "nbd_user_config_xml D h mem key = nbd_get_new D h mem [''nvram'', ''xml'', key]"

definition nbd_system_xml_privateport :: "nbd_daemon \<Rightarrow> calls \<Rightarrow> bool \<Rightarrow> (int \<times> string option) exec" where
  "nbd_system_xml_privateport D h mem = nbd_get_new D h mem [''nvram'', ''privateport'']"

definition nbd_status_xml :: "nbd_daemon \<Rightarrow> calls \<Rightarrow> bool \<Rightarrow> string \<Rightarrow> (int \<times> string option) exec" where
  "nbd_status_xml D h mem key = nbd_get_new D h mem [''status'', ''xml'', key]"

definition nbd_gruiks :: "nbd_daemon \<Rightarrow> calls \<Rightarrow> bool \<Rightarrow> (int \<times> string option) exec" where
  "nbd_gruiks D h mem = nbd_get_new D h mem [''nbctl'', ''gruiks'']"

definition nbd_wlan_list_assoc :: "nbd_daemon \<Rightarrow> calls \<Rightarrow> bool \<Rightarrow> string option \<Rightarrow> (int \<times> string option) exec" where
  "nbd_wlan_list_assoc D h mem ifname = nbd_get_new D h mem ([''wlan'', ''list'', ''assoc''] @ arg_opt ifname)"

definition nbd_wlan_diag_host :: "nbd_daemon \<Rightarrow> calls \<Rightarrow> bool \<Rightarrow> string \<Rightarrow> (int \<times> string option) exec" where
  "nbd_wlan_diag_host D h mem mac = nbd_get_new D h mem [''wlan'', ''diag_host'', mac]"

definition nbd_wlan_get_diag_host :: "nbd_daemon \<Rightarrow> calls \<Rightarrow> bool \<Rightarrow> string \<Rightarrow> (int \<times> string option) exec" where
  "nbd_wlan_get_diag_host D h mem mac = nbd_get_new D h mem [''wlan'', ''get_diag_host'', mac]"

definition nbd_wlan_get_counters :: "nbd_daemon \<Rightarrow> calls \<Rightarrow> bool \<Rightarrow> (int \<times> string option) exec" where
  "nbd_wlan_get_counters D h mem = nbd_get_new D h mem [''wlan'', ''get_counters'']"

text \<open>The four bytes of an integer.\<close>

definition nbd_wlan_get_rssi :: "nbd_daemon \<Rightarrow> calls \<Rightarrow> buf \<Rightarrow> string \<Rightarrow> (int \<times> buf) exec" where
  "nbd_wlan_get_rssi D h val mac = nbd_get D h [''wlan'', ''get_rssi'', mac] val 4"

definition nbd_dsl_plugtest :: "nbd_daemon \<Rightarrow> calls \<Rightarrow> bool \<Rightarrow> (int \<times> string option) exec" where
  "nbd_dsl_plugtest D h mem = nbd_get_new D h mem [''dsl'', ''plugtest'']"

definition nbd_lan_stats :: "nbd_daemon \<Rightarrow> calls \<Rightarrow> bool \<Rightarrow> string option \<Rightarrow> (int \<times> string option) exec" where
  "nbd_lan_stats D h mem filt = nbd_get_new D h mem ([''lan'', ''stats''] @ arg_opt filt)"

definition nbd_lan_fullstats :: "nbd_daemon \<Rightarrow> calls \<Rightarrow> bool \<Rightarrow> string option \<Rightarrow> (int \<times> string option) exec" where
  "nbd_lan_fullstats D h mem filt = nbd_get_new D h mem ([''lan'', ''fullstats''] @ arg_opt filt)"

definition nbd_nat_upnp_list :: "nbd_daemon \<Rightarrow> calls \<Rightarrow> bool \<Rightarrow> (int \<times> string option) exec" where
  "nbd_nat_upnp_list D h mem = nbd_get_new D h mem [''nat'', ''upnp_list'']"

subsection \<open>\<open>sambactl.c\<close>\<close>

definition nbd_sambactl_start :: "nbd_daemon \<Rightarrow> calls \<Rightarrow> (int \<times> calls) exec" where
  "nbd_sambactl_start D = nbd_set D [''sambactl'', ''start'']"

definition nbd_sambactl_stop :: "nbd_daemon \<Rightarrow> calls \<Rightarrow> (int \<times> calls) exec" where
  "nbd_sambactl_stop D = nbd_set D [''sambactl'', ''stop'']"

definition nbd_sambactl_restart :: "nbd_daemon \<Rightarrow> calls \<Rightarrow> (int \<times> calls) exec" where
  "nbd_sambactl_restart D = nbd_set D [''sambactl'', ''restart'']"

definition nbd_sambactl_status :: "nbd_daemon \<Rightarrow> calls \<Rightarrow> bool \<Rightarrow> (int \<times> string option) exec" where
  "nbd_sambactl_status D h mem = nbd_get_new D h mem [''sambactl'', ''status'']"

definition nbd_sambactl_add_share :: "nbd_daemon \<Rightarrow> string \<Rightarrow> string \<Rightarrow> string \<Rightarrow> calls \<Rightarrow> (int \<times> calls) exec" where
  "nbd_sambactl_add_share D name uuid dir = nbd_set D [''sambactl'', ''add_share'', name, uuid, dir]"

definition nbd_sambactl_del_share :: "nbd_daemon \<Rightarrow> int \<Rightarrow> calls \<Rightarrow> (int \<times> calls) exec" where
  "nbd_sambactl_del_share D idx h = do {
     s \<leftarrow> print_num 16 idx;
     nbd_set D [''sambactl'', ''del_share'', s] h }"

subsection \<open>\<open>voip.c\<close>: the commands\<close>

definition nbd_voip_start :: "nbd_daemon \<Rightarrow> calls \<Rightarrow> (int \<times> calls) exec" where
  "nbd_voip_start D = nbd_set D [''voip'', ''start'']"

definition nbd_voip_stop :: "nbd_daemon \<Rightarrow> calls \<Rightarrow> (int \<times> calls) exec" where
  "nbd_voip_stop D = nbd_set D [''voip'', ''stop'']"

definition nbd_voip_restart :: "nbd_daemon \<Rightarrow> calls \<Rightarrow> (int \<times> calls) exec" where
  "nbd_voip_restart D = nbd_set D [''voip'', ''restart'']"

definition nbd_voip_callhistory_flush :: "nbd_daemon \<Rightarrow> calls \<Rightarrow> (int \<times> calls) exec" where
  "nbd_voip_callhistory_flush D = nbd_set D [''voip'', ''history_reset'']"

definition nbd_voip_reg_init :: "nbd_daemon \<Rightarrow> calls \<Rightarrow> (int \<times> calls) exec" where
  "nbd_voip_reg_init D = nbd_set D [''voip'', ''regInit'']"

definition nbd_voip_manage_missed_calls :: "nbd_daemon \<Rightarrow> calls \<Rightarrow> (int \<times> calls) exec" where
  "nbd_voip_manage_missed_calls D = nbd_set D [''voip'', ''stopmisscalls'']"

subsection \<open>\<open>backup3g.c\<close>\<close>

definition nbd_backup3g_start :: "nbd_daemon \<Rightarrow> string \<Rightarrow> calls \<Rightarrow> (int \<times> calls) exec" where
  "nbd_backup3g_start D option = nbd_set D [''backup3g'', ''start'', option]"

definition nbd_backup3g_stop :: "nbd_daemon \<Rightarrow> string \<Rightarrow> calls \<Rightarrow> (int \<times> calls) exec" where
  "nbd_backup3g_stop D option = nbd_set D [''backup3g'', ''stop'', option]"

definition nbd_backup3g_restart :: "nbd_daemon \<Rightarrow> calls \<Rightarrow> (int \<times> calls) exec" where
  "nbd_backup3g_restart D = nbd_set D [''backup3g'', ''restart'']"

definition nbd_backup3g_getInfo :: "nbd_daemon \<Rightarrow> calls \<Rightarrow> bool \<Rightarrow> (int \<times> string option) exec" where
  "nbd_backup3g_getInfo D h mem = nbd_get_new D h mem [''backup3g'', ''getInfo'']"

definition nbd_backup3g_puk_unlock :: "nbd_daemon \<Rightarrow> string \<Rightarrow> string \<Rightarrow> calls \<Rightarrow> (int \<times> calls) exec" where
  "nbd_backup3g_puk_unlock D puk newpin = nbd_set D [''backup3g'', ''puk_unlock'', puk, newpin]"

definition nbd_backup3g_unlock_simprotect :: "nbd_daemon \<Rightarrow> calls \<Rightarrow> (int \<times> calls) exec" where
  "nbd_backup3g_unlock_simprotect D = nbd_set D [''backup3g'', ''unlock_simprotect'']"

definition nbd_backup3g_init_session :: "nbd_daemon \<Rightarrow> calls \<Rightarrow> (int \<times> calls) exec" where
  "nbd_backup3g_init_session D = nbd_set D [''backup3g'', ''init_session'']"

definition nbd_backup3g_end_session :: "nbd_daemon \<Rightarrow> calls \<Rightarrow> (int \<times> calls) exec" where
  "nbd_backup3g_end_session D = nbd_set D [''backup3g'', ''end_session'']"

subsection \<open>\<open>disk.c\<close>\<close>

definition nbd_disk_get_list :: "nbd_daemon \<Rightarrow> calls \<Rightarrow> bool \<Rightarrow> (int \<times> string option) exec" where
  "nbd_disk_get_list D h mem = nbd_get_new D h mem [''disk'', ''get_list'']"

definition nbd_disk_umount :: "nbd_daemon \<Rightarrow> string \<Rightarrow> calls \<Rightarrow> (int \<times> calls) exec" where
  "nbd_disk_umount D devpath = nbd_set D [''disk'', ''umount'', devpath]"

definition nbd_disk_umount_force :: "nbd_daemon \<Rightarrow> string \<Rightarrow> calls \<Rightarrow> (int \<times> calls) exec" where
  "nbd_disk_umount_force D devpath = nbd_set D [''disk'', ''umount'', devpath, ''--force'']"

definition nbd_disk_get_partition_uuid_list :: "nbd_daemon \<Rightarrow> calls \<Rightarrow> bool \<Rightarrow> (int \<times> string option) exec" where
  "nbd_disk_get_partition_uuid_list D h mem = nbd_get_new D h mem [''disk'', ''get_partition_uuid_list'']"

definition nbd_disk_get_mount_partition_uuid_list :: "nbd_daemon \<Rightarrow> calls \<Rightarrow> bool \<Rightarrow> (int \<times> string option) exec" where
  "nbd_disk_get_mount_partition_uuid_list D h mem = nbd_get_new D h mem [''disk'', ''get_mount_partition_uuid_list'']"

text \<open>
  The block is printed with \<open>%s\<close> up to its first NUL, and one without NUL is read beyond its end.  The second
  function reads its array even when the daemon does not answer.
\<close>

definition nbd_disk_get_mntpath_from_uuid :: "nbd_daemon \<Rightarrow> calls \<Rightarrow> bool \<Rightarrow> string \<Rightarrow> buf \<Rightarrow> (int \<times> buf) exec" where
  "nbd_disk_get_mntpath_from_uuid D h mem uuid path = do {
     (r, block) \<leftarrow> nbd_get_new D h mem [''disk'', ''get_mntpath_from_uuid'', uuid];
     if r < 0 then Some (- 1, path)
     else do {
       block \<leftarrow> block;
       s \<leftarrow> read_str block;
       (_, path) \<leftarrow> snprintf path (length path) s;
       Some (0, path) } }"

definition nbd_disk_part_uuid_is_online :: "nbd_daemon \<Rightarrow> calls \<Rightarrow> string \<Rightarrow> int exec" where
  "nbd_disk_part_uuid_is_online D h uuid = do {
     (_, b) \<leftarrow> nbd_get D h [''disk'', ''part_uuid_is_online'', uuid] (replicate 16 (CHR 0xFF)) 16;
     s \<leftarrow> read_str b;
     Some (fst (strtol 10 s)) }"

definition nbd_disk_get_dirlisting :: "nbd_daemon \<Rightarrow> calls \<Rightarrow> bool \<Rightarrow> string \<Rightarrow> (int \<times> string option) exec" where
  "nbd_disk_get_dirlisting D h mem uuid = nbd_get_new D h mem [''disk'', ''get_dirlisting'', uuid]"

definition nbd_disk_stockage_add :: "nbd_daemon \<Rightarrow> string \<Rightarrow> calls \<Rightarrow> (int \<times> calls) exec" where
  "nbd_disk_stockage_add D uuid = nbd_set D [''disk'', ''stockage_add'', uuid]"

definition nbd_disk_stockage_del :: "nbd_daemon \<Rightarrow> string \<Rightarrow> calls \<Rightarrow> (int \<times> calls) exec" where
  "nbd_disk_stockage_del D uuid = nbd_set D [''disk'', ''stockage_del'', uuid]"

definition nbd_disk_stockage_get :: "nbd_daemon \<Rightarrow> calls \<Rightarrow> bool \<Rightarrow> string \<Rightarrow> (int \<times> string option) exec" where
  "nbd_disk_stockage_get D h mem uuid = nbd_get_new D h mem [''disk'', ''stockage_get'', uuid]"

subsection \<open>\<open>usharectl.c\<close>\<close>

definition nbd_usharectl_start :: "nbd_daemon \<Rightarrow> calls \<Rightarrow> (int \<times> calls) exec" where
  "nbd_usharectl_start D = nbd_set D [''usharectl'', ''start'']"

definition nbd_usharectl_stop :: "nbd_daemon \<Rightarrow> calls \<Rightarrow> (int \<times> calls) exec" where
  "nbd_usharectl_stop D = nbd_set D [''usharectl'', ''stop'']"

definition nbd_usharectl_restart :: "nbd_daemon \<Rightarrow> calls \<Rightarrow> (int \<times> calls) exec" where
  "nbd_usharectl_restart D = nbd_set D [''usharectl'', ''restart'']"

definition nbd_usharectl_status :: "nbd_daemon \<Rightarrow> calls \<Rightarrow> bool \<Rightarrow> (int \<times> string option) exec" where
  "nbd_usharectl_status D h mem = nbd_get_new D h mem [''usharectl'', ''status'']"

definition nbd_usharectl_set_mode :: "nbd_daemon \<Rightarrow> string \<Rightarrow> calls \<Rightarrow> (int \<times> calls) exec" where
  "nbd_usharectl_set_mode D mode = nbd_set D [''usharectl'', ''set_mode'', mode]"

definition nbd_usharectl_add_share :: "nbd_daemon \<Rightarrow> string \<Rightarrow> string \<Rightarrow> calls \<Rightarrow> (int \<times> calls) exec" where
  "nbd_usharectl_add_share D uuid dir = nbd_set D [''usharectl'', ''add_share'', uuid, dir]"

definition nbd_usharectl_del_share :: "nbd_daemon \<Rightarrow> int \<Rightarrow> calls \<Rightarrow> (int \<times> calls) exec" where
  "nbd_usharectl_del_share D idx h = do {
     s \<leftarrow> print_num 16 idx;
     nbd_set D [''usharectl'', ''del_share'', s] h }"

subsection \<open>\<open>printer.c\<close>, \<open>ddnsctl.c\<close>\<close>

definition nbd_ddnsctl_start :: "nbd_daemon \<Rightarrow> calls \<Rightarrow> (int \<times> calls) exec" where
  "nbd_ddnsctl_start D = nbd_set D [''ddnsctl'', ''start'']"

definition nbd_ddnsctl_stop :: "nbd_daemon \<Rightarrow> calls \<Rightarrow> (int \<times> calls) exec" where
  "nbd_ddnsctl_stop D = nbd_set D [''ddnsctl'', ''stop'']"

definition nbd_ddnsctl_restart :: "nbd_daemon \<Rightarrow> calls \<Rightarrow> (int \<times> calls) exec" where
  "nbd_ddnsctl_restart D = nbd_set D [''ddnsctl'', ''restart'']"

definition nbd_printer_get_list :: "nbd_daemon \<Rightarrow> calls \<Rightarrow> bool \<Rightarrow> (int \<times> string option) exec" where
  "nbd_printer_get_list D h mem = nbd_get_new D h mem [''printer'', ''get_list'']"

definition nbd_ddnsctl_status :: "nbd_daemon \<Rightarrow> calls \<Rightarrow> bool \<Rightarrow> (int \<times> string option) exec" where
  "nbd_ddnsctl_status D h mem = nbd_get_new D h mem [''ddnsctl'', ''status'']"

text \<open>Over a socket that delivers the answer in the pieces that it has, \<open>nbd_query_new\<close> returns what \<open>nbd_get_new\<close> says.\<close>

lemma nbd_get_new_query:
  assumes "nbd_get_new D h mem args = Some (r, out)" and "nbd_query_send args b0 l = Some (n, l')" and "0 \<le> n"
    and "clean rs" and "stream rs = snd (D h args) @ rest"
    and "- 2147483648 \<le> fst (D h args)" and "fst (D h args) < 2147483648" and "length (snd (D h args)) < 2 ^ 32" and "length size0 = 4"
    and "malloc (length (snd (D h args))) = (if mem then Some block else None)" and "length block = length (snd (D h args))"
  shows "\<exists>rs'. nbd_query_new malloc size0 args b0 (Chunk (s32_bytes (fst (D h args))) # Chunk (be32 (length (snd (D h args)))) # rs) l =
    Some (r, out, be32 (length (snd (D h args))), rs', l')"
proof -
  have "r = fst (D h args)" "out = (if mem then Some (snd (D h args)) else None)"
    using assms(1) by (auto simp: nbd_get_new_def bind_Some_iff guard_def split_beta split: if_splits)
  then show ?thesis
    using query_new_ok [OF assms(2-9), of malloc] assms(10,11) by auto
qed

end
