(* ===== verification/Nbd_Voip.thy ===== *)
theory Nbd_Voip
  imports Nbd_Xml
begin

text \<open>
  The log of telephone calls, \<open>voip.c\<close> of \<open>efixo-libnbd/src/lib\<close>: the state of the current call, \<open>new_call\<close>, and the
  functions by which the telephone daemon reports its events, in the build without \<open>NB5\<close>.  A finished call is sent
  to the configuration daemon, and the status \<open>voip_upgrade\<close> says whether the box may be upgraded.

  \<open>now\<close> is what \<open>time\<close> gives.  \<open>nbd_voip_register_call\<close> reads its local variable \<open>my_call\<close> also when it was not
  assigned: \<open>junk\<close> is what the stack holds there.
\<close>

record call_log =
  c_type :: nat
  c_direction :: nat
  c_number :: buf
  c_length :: int
  c_date :: int
  c_start :: int
  c_finish :: int

abbreviation (input) NBD_PHONE_CALL_UNINIT :: nat where "NBD_PHONE_CALL_UNINIT \<equiv> 65535"
abbreviation (input) NBD_PHONE_CALL_PSTN :: nat where "NBD_PHONE_CALL_PSTN \<equiv> 0"
abbreviation (input) NBD_PHONE_CALL_VOIP :: nat where "NBD_PHONE_CALL_VOIP \<equiv> 1"
abbreviation (input) NBD_PHONE_CALL_COMPLEX :: nat where "NBD_PHONE_CALL_COMPLEX \<equiv> 2"
abbreviation (input) NBD_PHONE_CALL_3G :: nat where "NBD_PHONE_CALL_3G \<equiv> 3"
abbreviation (input) NBD_PHONE_CALL_INCOMING :: nat where "NBD_PHONE_CALL_INCOMING \<equiv> 0"
abbreviation (input) NBD_PHONE_CALL_OUTGOING :: nat where "NBD_PHONE_CALL_OUTGOING \<equiv> 1"
abbreviation (input) NBD_PHONE_START_CALL :: int where "NBD_PHONE_START_CALL \<equiv> 1"
abbreviation (input) NBD_PHONE_STOP_CALL :: int where "NBD_PHONE_STOP_CALL \<equiv> 0"

record voip =
  new_call :: call_log
  v_calls :: calls

definition resetCall :: call_log where
  "resetCall = \<lparr>c_type = NBD_PHONE_CALL_UNINIT, c_direction = NBD_PHONE_CALL_UNINIT, c_number = replicate 32 NUL, c_length = - 1, c_date = - 1,
     c_start = 0, c_finish = 0\<rparr>"

subsection \<open>The operations\<close>

definition voip_set :: "(calls \<Rightarrow> (int \<times> calls) exec) \<Rightarrow> voip \<Rightarrow> (int \<times> voip) exec" where
  "voip_set f v = do {
     (r, h) \<leftarrow> f (v_calls v);
     Some (r, v\<lparr>v_calls := h\<rparr>) }"

definition nbd_voip_upgrade :: "nbd_daemon \<Rightarrow> voip \<Rightarrow> voip exec" where
  "nbd_voip_upgrade D v = do {
     (_, v) \<leftarrow> voip_set (nbd_status_set D ''voip_upgrade''
       (if c_length (new_call v) = - 1 \<and> c_direction (new_call v) \<noteq> NBD_PHONE_CALL_INCOMING then ''ok'' else ''ko'')) v;
     Some v }"

definition nbd_voip_io_call :: "nbd_daemon \<Rightarrow> int \<Rightarrow> nat \<Rightarrow> voip \<Rightarrow> voip exec" where
  "nbd_voip_io_call D now io_call v = (let c = (new_call v)\<lparr>c_date := now\<rparr>;
     c = (if c_length c = 0 \<and> c_type c \<noteq> NBD_PHONE_CALL_PSTN then c\<lparr>c_type := NBD_PHONE_CALL_COMPLEX\<rparr>
          else if c_length c = 0 \<and> c_type c = NBD_PHONE_CALL_PSTN then c
          else c\<lparr>c_direction := io_call, c_length := - 1, c_start := 0, c_finish := 0, c_number := replicate 32 NUL, c_type := NBD_PHONE_CALL_VOIP\<rparr>)
     in nbd_voip_upgrade D (v\<lparr>new_call := c\<rparr>))"

definition dial_char :: "char \<Rightarrow> bool" where
  "dial_char c \<longleftrightarrow> c = CHR ''#'' \<or> c = CHR ''*'' \<or> c = CHR ''+'' \<or> (48 \<le> (of_char c :: nat) \<and> (of_char c :: nat) \<le> 57)"

text \<open>\<open>strncpy (new_call.number, number_called, i)\<close> for the \<open>i\<close> characters of a telephone number: no bound, no NUL.\<close>

definition copy_number :: "string \<Rightarrow> buf \<Rightarrow> buf exec" where
  "copy_number number_called number = blit (takeWhile dial_char number_called) number"

definition nbd_voip_number_call :: "string option \<Rightarrow> int \<Rightarrow> voip \<Rightarrow> voip exec" where
  "nbd_voip_number_call number_called num v = (let c = new_call v in
     if c_length c = - 1 then
       if c_direction c = NBD_PHONE_CALL_INCOMING \<and> (c_type c = NBD_PHONE_CALL_VOIP \<or> c_type c = NBD_PHONE_CALL_3G) \<and> num = - 1
          \<or> c_direction c = NBD_PHONE_CALL_INCOMING \<and> c_type c = NBD_PHONE_CALL_PSTN \<and> num = - 1 then do {
         s \<leftarrow> number_called;
         b \<leftarrow> copy_number s (c_number c);
         Some (v\<lparr>new_call := c\<lparr>c_number := b\<rparr>\<rparr>) }
       else if c_direction c = NBD_PHONE_CALL_OUTGOING \<and> number_called = None then do {
         n \<leftarrow> read_str (c_number c);
         let i = length n;
         b \<leftarrow> (if num < 10 then map_option (\<lambda>b. take i (c_number c) @ b) (blit (dec_int num @ [NUL]) (drop i (c_number c)))
              else set_byte (c_number c) (int i) (if num = 10 then CHR ''*'' else CHR ''#''));
         Some (v\<lparr>new_call := c\<lparr>c_number := b\<rparr>\<rparr>) }
       else if c_direction c = NBD_PHONE_CALL_OUTGOING \<and> number_called \<noteq> None \<and> num = - 1 then do {
         s \<leftarrow> number_called;
         b \<leftarrow> copy_number s (c_number c);
         Some (v\<lparr>new_call := c\<lparr>c_number := b\<rparr>\<rparr>) }
       else Some v
     else Some v)"

definition nbd_voip_type_call :: "nbd_daemon \<Rightarrow> nat \<Rightarrow> voip \<Rightarrow> voip exec" where
  "nbd_voip_type_call D type_call v = (let c = new_call v;
     c = (if c_type c \<noteq> NBD_PHONE_CALL_COMPLEX \<and> c_length c = - 1 then c\<lparr>c_type := type_call\<rparr> else c);
     c = (if type_call = NBD_PHONE_CALL_COMPLEX \<and> c_length c = 0 then c\<lparr>c_number := replicate 32 NUL, c_type := type_call\<rparr> else c)
     in nbd_voip_upgrade D (v\<lparr>new_call := c\<rparr>))"

text \<open>\<open>nbd_voip_register_call\<close>: the call is over, or its ringing.\<close>

definition call_ended :: "string \<Rightarrow> call_log \<Rightarrow> bool" where
  "call_ended call c \<longleftrightarrow> c_length c = - 1 \<and> c_direction c = NBD_PHONE_CALL_INCOMING \<and> strncmp call ''ring_stop'' 9 = 0
     \<or> c_length c \<ge> 0 \<and> strncmp call ''stop_call'' 9 = 0
     \<or> c_length c \<ge> 0 \<and> c_direction c = NBD_PHONE_CALL_OUTGOING \<and> strncmp call ''ring_stop'' 9 = 0"

text \<open>\<open>nbd_voip_register_call\<close>: the entry of the history.\<close>

definition history_add :: "nbd_daemon \<Rightarrow> int \<Rightarrow> call_log \<Rightarrow> voip \<Rightarrow> (int \<times> voip) exec" where
  "history_add D now my_call v = do {
     let type = (if c_type my_call \<noteq> NBD_PHONE_CALL_COMPLEX \<and> c_type my_call \<noteq> NBD_PHONE_CALL_UNINIT then c_type my_call else NBD_PHONE_CALL_VOIP);
     let direction = (if c_direction my_call \<noteq> NBD_PHONE_CALL_OUTGOING then NBD_PHONE_CALL_INCOMING else c_direction my_call);
     number \<leftarrow> read_str (if c_type my_call = NBD_PHONE_CALL_COMPLEX then replicate 32 NUL else c_number my_call);
     let date = (if c_date my_call = - 1 then now else c_date my_call);
     voip_set (nbd_set D [''voip'', ''history_call_add'', dec_nat type, dec_nat direction, number, dec_int (c_length my_call), dec_int date]) v }"

definition nbd_voip_register_call :: "nbd_daemon \<Rightarrow> int \<Rightarrow> call_log \<Rightarrow> string \<Rightarrow> voip \<Rightarrow> (int \<times> voip) exec" where
  "nbd_voip_register_call D now junk call v = do {
     let ended = call_ended call (new_call v);
     let my_call = (if ended then new_call v else junk);
     (r, v) \<leftarrow> (if ended then do {
         v \<leftarrow> nbd_voip_upgrade D (v\<lparr>new_call := resetCall\<rparr>);
         on \<leftarrow> nbd_user_config_matches D (v_calls v) ''voip_callhistory'' ''on'';
         if on then history_add D now my_call v else Some (0, v) }
       else Some (0, v));
     if r \<noteq> 0 then Some (- 1, v)
     else if c_direction my_call = NBD_PHONE_CALL_INCOMING \<and> c_length my_call = - 1 then do {
       (_, v) \<leftarrow> voip_set (nbd_set D [''voip'', ''misscalls'']) v;
       Some (0, v) }
     else Some (0, v) }"

definition nbd_voip_duration_call :: "nbd_daemon \<Rightarrow> int \<Rightarrow> call_log \<Rightarrow> int \<Rightarrow> voip \<Rightarrow> (int \<times> voip) exec" where
  "nbd_voip_duration_call D now junk start_stop_call v = (let c = new_call v in do {
     (r, v) \<leftarrow> (
       if start_stop_call = NBD_PHONE_START_CALL \<and> c_length c = - 1 then
         Some (0, v\<lparr>new_call := c\<lparr>c_start := now, c_length := 0,
           c_type := (if strncmp (c_str (c_number c)) ''999'' 32 = 0 then NBD_PHONE_CALL_PSTN else c_type c)\<rparr>\<rparr>)
       else if start_stop_call = NBD_PHONE_STOP_CALL \<and> c_length c = 0 then do {
         n \<leftarrow> s32_add now (- c_start c);
         nbd_voip_register_call D now junk ''stop_call'' (v\<lparr>new_call := c\<lparr>c_finish := now, c_length := n\<rparr>\<rparr>) }
       else if start_stop_call = NBD_PHONE_STOP_CALL \<and> c_length c = - 1 then nbd_voip_register_call D now junk ''ring_stop'' v
       else Some (0, v));
     if r \<noteq> 0 then Some (- 1, v)
     else do {
       v \<leftarrow> nbd_voip_upgrade D v;
       Some (0, v) } })"

subsection \<open>The events of the telephone\<close>

text \<open>The telephone daemon reports its events in any order, at any time; the stack holds anything.\<close>

inductive voip_step :: "nbd_daemon \<Rightarrow> voip \<Rightarrow> voip \<Rightarrow> bool" for D where
  io: "io_call < 65536 \<Longrightarrow> nbd_voip_io_call D now io_call v = Some v' \<Longrightarrow> voip_step D v v'"
| number: "nbd_voip_number_call number_called num v = Some v' \<Longrightarrow> voip_step D v v'"
| type: "type_call < 65536 \<Longrightarrow> nbd_voip_type_call D type_call v = Some v' \<Longrightarrow> voip_step D v v'"
| duration: "nbd_voip_duration_call D now junk start_stop v = Some (r, v') \<Longrightarrow> voip_step D v v'"
| register: "nbd_voip_register_call D now junk call v = Some (r, v') \<Longrightarrow> voip_step D v v'"

definition voip_init :: "calls \<Rightarrow> voip" where
  "voip_init h = \<lparr>new_call = resetCall, v_calls = h\<rparr>"

text \<open>What the status \<open>voip_upgrade\<close> was last set to, and whether the telephone is at rest.\<close>

definition upgrade_request :: "string list \<Rightarrow> bool" where
  "upgrade_request args \<longleftrightarrow> take 3 args = [''status'', ''set'', ''voip_upgrade''] \<and> length args = 4"

definition upgrade_flag :: "calls \<Rightarrow> string option" where
  "upgrade_flag h = (case filter upgrade_request (rev h) of [] \<Rightarrow> None | args # _ \<Rightarrow> Some (args ! 3))"

definition at_rest :: "call_log \<Rightarrow> bool" where
  "at_rest c \<longleftrightarrow> c_length c = - 1 \<and> c_direction c \<noteq> NBD_PHONE_CALL_INCOMING"

definition flagged :: "voip \<Rightarrow> bool" where
  "flagged v \<longleftrightarrow> upgrade_flag (v_calls v) = Some (if at_rest (new_call v) then ''ok'' else ''ko'')"

definition untouched :: "voip \<Rightarrow> bool" where
  "untouched v \<longleftrightarrow> upgrade_flag (v_calls v) = None \<and> new_call v = resetCall"

lemma upgrade_flag_snoc [simp]: "upgrade_flag (h @ [args]) = (if upgrade_request args then Some (args ! 3) else upgrade_flag h)"
  by (simp add: upgrade_flag_def)

lemma upgrade_request_simps [simp]:
  "upgrade_request [''status'', ''set'', ''voip_upgrade'', x]" "\<not> upgrade_request (''voip'' # args)"
  by (simp_all add: upgrade_request_def)

lemma voip_set_Some:
  "voip_set (nbd_set D args) v = Some (r, v') \<longleftrightarrow>
     query_fits args \<and> v' = v\<lparr>v_calls := v_calls v @ [args]\<rparr> \<and> r = (if snd (D (v_calls v) args) = [] then fst (D (v_calls v) args) else - 1)"
  by (auto simp: voip_set_def bind_Some_iff nbd_set_Some)

lemma upgrade_fits: "query_fits [''status'', ''set'', ''voip_upgrade'', if b then ''ok'' else ''ko'']"
  by (simp add: query_fits_def query_room_def)

lemma upgrade_total:
  "nbd_voip_upgrade D v =
     Some (v\<lparr>v_calls := v_calls v @ [[''status'', ''set'', ''voip_upgrade'', if at_rest (new_call v) then ''ok'' else ''ko'']]\<rparr>)"
proof -
  let ?args = "[''status'', ''set'', ''voip_upgrade'', if at_rest (new_call v) then ''ok'' else ''ko'']"
  obtain r where "voip_set (nbd_set D ?args) v = Some (r, v\<lparr>v_calls := v_calls v @ [?args]\<rparr>)"
    using voip_set_Some [of D ?args v] upgrade_fits by blast
  then show ?thesis by (simp add: nbd_voip_upgrade_def nbd_status_set_def at_rest_def)
qed

lemma upgrade_flags: "nbd_voip_upgrade D v = Some v' \<Longrightarrow> flagged v'"
  by (auto simp: upgrade_total flagged_def)

lemma set_keeps_flag:
  "voip_set (nbd_set D (''voip'' # args)) v = Some (r, v') \<Longrightarrow> upgrade_flag (v_calls v') = upgrade_flag (v_calls v) \<and> new_call v' = new_call v"
  by (auto simp: voip_set_Some)

lemma set_keeps: "voip_set (nbd_set D (''voip'' # args)) v = Some (r, v') \<Longrightarrow> flagged v' = flagged v \<and> untouched v' = untouched v"
  by (drule set_keeps_flag) (simp add: flagged_def untouched_def)

lemma history_keeps: "history_add D now my_call v = Some (r, v') \<Longrightarrow> flagged v' = flagged v"
  by (auto simp: history_add_def Let_def bind_Some_iff dest: set_keeps)

text \<open>The report of a call either ends it, and sets the status, or leaves the log and the status alone.\<close>

lemma register_cases:
  assumes "nbd_voip_register_call D now junk call v = Some (r, v')"
  shows "flagged v' \<or> r = 0 \<and> flagged v' = flagged v \<and> untouched v' = untouched v"
proof -
  let ?my = "if call_ended call (new_call v) then new_call v else junk"
  obtain r1 v1 where one: "(if call_ended call (new_call v) then do {
         v \<leftarrow> nbd_voip_upgrade D (v\<lparr>new_call := resetCall\<rparr>);
         on \<leftarrow> nbd_user_config_matches D (v_calls v) ''voip_callhistory'' ''on'';
         if on then history_add D now ?my v else Some (0, v) } else Some (0, v)) = Some (r1, v1)"
    and two: "(if r1 \<noteq> 0 then Some (- 1, v1)
       else if c_direction ?my = NBD_PHONE_CALL_INCOMING \<and> c_length ?my = - 1 then do {
         (_, v) \<leftarrow> voip_set (nbd_set D [''voip'', ''misscalls'']) v1;
         Some (0, v) } else Some (0, v1)) = Some (r, v')"
    using assms by (auto simp: nbd_voip_register_call_def Let_def bind_Some_iff)
  have step: "flagged v' = flagged v1 \<and> untouched v' = untouched v1 \<and> (r1 = 0 \<longrightarrow> r = 0)"
    using two by (auto simp: bind_Some_iff split: if_splits dest: set_keeps)
  show ?thesis
  proof (cases "call_ended call (new_call v)")
    case True
    then have "flagged v1" using one by (auto simp: bind_Some_iff split: if_splits dest: upgrade_flags history_keeps)
    then show ?thesis using step by simp
  next
    case False
    then show ?thesis using one step by auto
  qed
qed

lemma duration_flags:
  assumes "nbd_voip_duration_call D now junk start_stop v = Some (r, v')"
  shows "flagged v'"
  using assms unfolding nbd_voip_duration_call_def Let_def
  by (auto simp: bind_Some_iff split: if_splits dest: upgrade_flags register_cases)

lemma number_keeps:
  assumes "nbd_voip_number_call number_called num v = Some v'"
  shows "flagged v' = flagged v"
  using assms by (auto simp: nbd_voip_number_call_def Let_def bind_Some_iff flagged_def at_rest_def split: if_splits)

lemma number_untouched: "untouched v \<Longrightarrow> nbd_voip_number_call number_called num v = Some v"
  by (simp add: nbd_voip_number_call_def untouched_def resetCall_def)

lemma step_flagged:
  assumes "voip_step D v v'" and "untouched v \<or> flagged v"
  shows "untouched v' \<or> flagged v'"
  using assms(1)
proof cases
  case (number number_called num)
  then show ?thesis using assms(2) number_keeps number_untouched by fastforce
next
  case (register now junk call r)
  then show ?thesis using assms(2) register_cases by blast
qed (auto simp: nbd_voip_io_call_def nbd_voip_type_call_def Let_def dest: upgrade_flags duration_flags)

subsection \<open>One call after the other\<close>

text \<open>An incoming call: it rings at \<open>t0\<close>, shows its number, is taken at \<open>t1\<close> and ends at \<open>t2\<close>.\<close>

definition incoming_call :: "nbd_daemon \<Rightarrow> call_log \<Rightarrow> string \<Rightarrow> int \<Rightarrow> int \<Rightarrow> int \<Rightarrow> voip \<Rightarrow> (int \<times> voip) exec" where
  "incoming_call D junk s t0 t1 t2 v = do {
     v \<leftarrow> nbd_voip_io_call D t0 NBD_PHONE_CALL_INCOMING v;
     v \<leftarrow> nbd_voip_number_call (Some s) (- 1) v;
     (r, v) \<leftarrow> nbd_voip_duration_call D t1 junk NBD_PHONE_START_CALL v;
     nbd_voip_duration_call D t2 junk NBD_PHONE_STOP_CALL v }"

definition call_time :: "int \<Rightarrow> bool" where
  "call_time t \<longleftrightarrow> 0 \<le> t \<and> t < 2147483648"

definition phone_number :: "string \<Rightarrow> bool" where
  "phone_number s \<longleftrightarrow> list_all dial_char s \<and> length s < 32"

definition set_upgrade :: "string \<Rightarrow> string list" where
  "set_upgrade x = [''status'', ''set'', ''voip_upgrade'', x]"

lemma dial_char_NUL: "\<not> dial_char NUL"
  by code_simp

lemma phone_number_NUL: "phone_number s \<Longrightarrow> NUL \<notin> set s"
  using dial_char_NUL by (auto simp: phone_number_def list_all_iff)

lemma copy_phone_number: "phone_number s \<Longrightarrow> copy_number s (replicate 32 NUL) = Some (s @ replicate (32 - length s) NUL)"
  by (simp add: phone_number_def copy_number_def blit_def list_all_iff takeWhile_eq_all_conv [THEN iffD2])

lemma read_phone_number:
  assumes "phone_number s"
  shows "read_str (s @ replicate (32 - length s) NUL) = Some s"
    and "c_str (s @ replicate (32 - length s) NUL) = s"
proof -
  obtain k where "32 - length s = Suc k" using assms unfolding phone_number_def by (cases "32 - length s") auto
  then have "s @ replicate (32 - length s) NUL = s @ NUL # replicate k NUL" by simp
  then show "read_str (s @ replicate (32 - length s) NUL) = Some s" "c_str (s @ replicate (32 - length s) NUL) = s"
    using phone_number_NUL [OF assms] by simp_all
qed

lemma dec_time_length: "call_time t \<Longrightarrow> length (dec_int t) \<le> 10"
  unfolding call_time_def dec_int_def by (auto intro!: dec_nat_length)

lemma dec_small: "dec_nat 0 = ''0''" "dec_nat 1 = ''1''" "dec_nat (Suc 0) = ''1''"
  by code_simp+

lemma history_fits:
  assumes "phone_number s" and "call_time n" and "call_time t"
  shows "query_fits [''voip'', ''history_call_add'', ''1'', ''0'', s, dec_int n, dec_int t]"
  using assms(1) dec_time_length [OF assms(2)] dec_time_length [OF assms(3)]
  by (simp add: query_fits_def query_room_def phone_number_def)

lemma rings:
  assumes "c_length (new_call v) \<noteq> 0"
  shows "nbd_voip_io_call D t io v = Some \<lparr>new_call = \<lparr>c_type = NBD_PHONE_CALL_VOIP, c_direction = io, c_number = replicate 32 NUL,
      c_length = - 1, c_date = t, c_start = 0, c_finish = 0\<rparr>,
    v_calls = v_calls v @ [set_upgrade (if io = NBD_PHONE_CALL_INCOMING then ''ko'' else ''ok'')]\<rparr>"
  using assms by (simp add: nbd_voip_io_call_def Let_def upgrade_total at_rest_def set_upgrade_def)

lemma taken:
  assumes "phone_number s" and "s \<noteq> ''999''"
  shows "nbd_voip_duration_call D t junk NBD_PHONE_START_CALL \<lparr>new_call = \<lparr>c_type = k, c_direction = d, c_number = s @ replicate (32 - length s) NUL,
      c_length = - 1, c_date = t0, c_start = 0, c_finish = 0\<rparr>, v_calls = h\<rparr>
    = Some (0, \<lparr>new_call = \<lparr>c_type = k, c_direction = d, c_number = s @ replicate (32 - length s) NUL,
      c_length = 0, c_date = t0, c_start = t, c_finish = 0\<rparr>, v_calls = h @ [set_upgrade ''ko'']\<rparr>)"
proof -
  have "take 32 s \<noteq> take 32 ''999''" using assms by (simp add: phone_number_def)
  then have "strncmp s ''999'' 32 \<noteq> 0" using phone_number_NUL [OF assms(1)] by (subst strncmp_eq_0) simp_all
  then show ?thesis
    by (simp add: nbd_voip_duration_call_def read_phone_number(2) [OF assms(1)] upgrade_total at_rest_def set_upgrade_def)
qed

lemma ended:
  assumes s: "phone_number s" and t: "call_time t0" "call_time t1" "call_time t2" "t1 \<le> t2"
    and on: "\<forall>h. nbd_user_config_matches D h ''voip_callhistory'' ''on'' = Some True"
    and add: "\<forall>h args. D h (''voip'' # args) = (0, [])"
  shows "nbd_voip_duration_call D t2 junk NBD_PHONE_STOP_CALL \<lparr>new_call = \<lparr>c_type = NBD_PHONE_CALL_VOIP, c_direction = NBD_PHONE_CALL_INCOMING,
      c_number = s @ replicate (32 - length s) NUL, c_length = 0, c_date = t0, c_start = t1, c_finish = 0\<rparr>, v_calls = h\<rparr>
    = Some (0, voip_init (h @ [set_upgrade ''ok'',
        [''voip'', ''history_call_add'', ''1'', ''0'', s, dec_int (t2 - t1), dec_int t0], set_upgrade ''ok'']))"
proof -
  have n: "s32_add t2 (- t1) = Some (t2 - t1)" "call_time (t2 - t1)" using t by (simp_all add: s32_add_def call_time_def)
  let ?args = "[''voip'', ''history_call_add'', ''1'', ''0'', s, dec_int (t2 - t1), dec_int t0]"
  have set: "voip_set (nbd_set D ?args) v = Some (0, v\<lparr>v_calls := v_calls v @ [?args]\<rparr>)" for v
    using history_fits [OF s n(2) t(1)] add by (simp add: voip_set_Some)
  let ?c = "\<lparr>c_type = 1, c_direction = 0, c_number = s @ replicate (32 - length s) NUL, c_length = t2 - t1, c_date = t0, c_start = t1, c_finish = t2\<rparr>"
  have hist: "history_add D t2 ?c v = Some (0, v\<lparr>v_calls := v_calls v @ [?args]\<rparr>)" for v
    using set [of v] t by (simp only: history_add_def Let_def) (simp add: read_phone_number(1) [OF s] dec_small call_time_def)
  have "strncmp ''stop_call'' ''stop_call'' 9 = 0" by (subst strncmp_eq_0) simp_all
  then have "call_ended ''stop_call'' ?c" using t by (simp add: call_ended_def)
  then have "nbd_voip_register_call D t2 junk ''stop_call'' \<lparr>new_call = ?c, v_calls = h\<rparr>
      = Some (0, voip_init (h @ [set_upgrade ''ok'', ?args]))"
    using on hist t by (simp add: nbd_voip_register_call_def upgrade_total at_rest_def resetCall_def voip_init_def set_upgrade_def)
  then show ?thesis using n
    by (simp add: nbd_voip_duration_call_def upgrade_total at_rest_def resetCall_def voip_init_def set_upgrade_def)
qed

subsection \<open>What the log of calls promises\<close>

lemma steps_flagged: "(voip_step D)\<^sup>*\<^sup>* v v' \<Longrightarrow> untouched v \<or> flagged v \<Longrightarrow> untouched v' \<or> flagged v'"
  by (induction rule: rtranclp_induct) (use step_flagged in blast)+

lemma untouched_init: "untouched (voip_init [])"
  by (simp add: untouched_def voip_init_def upgrade_flag_def)

text \<open>
  C13: The status \<open>voip_upgrade\<close>, by which the box decides whether it may be upgraded, is right at every moment: after any
  sequence of reported events it says \<open>ok\<close> exactly when no call is established and none comes in, whatever the stack
  held and whatever the daemon answered; before the first event that sets it, the log of the call is as at the start.
\<close>

theorem upgrade_only_at_rest:
  assumes "(voip_step D)\<^sup>*\<^sup>* (voip_init []) v"
  shows "upgrade_flag (v_calls v) =
      Some (if c_length (new_call v) = - 1 \<and> c_direction (new_call v) \<noteq> NBD_PHONE_CALL_INCOMING then ''ok'' else ''ko'') \<or>
    upgrade_flag (v_calls v) = None \<and> new_call v = resetCall"
  using steps_flagged [OF assms] untouched_init by (auto simp: flagged_def untouched_def at_rest_def)

text \<open>
  C14: An incoming call that is taken and ends reaches the history of the box once, with its number, its length in
  seconds and the time it rang; on the way the box is told that it must not be upgraded while it rings and while it
  lasts, and may again once it is over, and the log is as at the start.  The call history is switched on and the daemon
  takes the commands of the telephone; the number fits the log and is not \<open>999\<close>,
  which is counted as a call over the public network.
\<close>

theorem incoming_call_recorded:
  assumes "phone_number s" and "s \<noteq> ''999''" and "call_time t0" and "call_time t1" and "call_time t2" and "t1 \<le> t2"
    and "\<forall>h. nbd_user_config_matches D h ''voip_callhistory'' ''on'' = Some True"
    and "\<forall>h args. D h (''voip'' # args) = (0, [])"
    and "c_length (new_call v) \<noteq> 0"
  shows "incoming_call D junk s t0 t1 t2 v = Some (0, voip_init (v_calls v @
    [set_upgrade ''ko'', set_upgrade ''ko'', set_upgrade ''ok'',
     [''voip'', ''history_call_add'', ''1'', ''0'', s, dec_int (t2 - t1), dec_int t0], set_upgrade ''ok'']))"
proof -
  have number: "nbd_voip_number_call (Some s) (- 1) \<lparr>new_call = \<lparr>c_type = 1, c_direction = 0, c_number = replicate 32 NUL,
      c_length = - 1, c_date = t0, c_start = 0, c_finish = 0\<rparr>, v_calls = h\<rparr>
    = Some \<lparr>new_call = \<lparr>c_type = 1, c_direction = 0, c_number = s @ replicate (32 - length s) NUL,
      c_length = - 1, c_date = t0, c_start = 0, c_finish = 0\<rparr>, v_calls = h\<rparr>" for h
    by (simp add: nbd_voip_number_call_def copy_phone_number [OF assms(1)])
  show ?thesis
    unfolding incoming_call_def rings [OF assms(9)] using number
    by (simp add: taken [OF assms(1,2)] ended [OF assms(1,3,4,5,6,7,8)] del: One_nat_def)
qed

text \<open>
  C40: Hanging up an outgoing call that nobody took leaves \<open>my_call\<close> unassigned: whether the box announces a missed call
  is decided by what the stack happens to hold.
\<close>

theorem unanswered_reads_stack:
  assumes "c_length (new_call v) = - 1" and "c_direction (new_call v) = NBD_PHONE_CALL_OUTGOING"
  shows "nbd_voip_duration_call D now junk NBD_PHONE_STOP_CALL v = Some (0, v\<lparr>v_calls := v_calls v @
    (if c_direction junk = NBD_PHONE_CALL_INCOMING \<and> c_length junk = - 1 then [[''voip'', ''misscalls'']] else []) @ [set_upgrade ''ok'']\<rparr>)"
proof -
  have e: "\<not> call_ended ''ring_stop'' (new_call v)" using assms by (simp add: call_ended_def)
  have "query_fits [''voip'', ''misscalls'']" by (simp add: query_fits_def query_room_def)
  then obtain r where "voip_set (nbd_set D [''voip'', ''misscalls'']) v = Some (r, v\<lparr>v_calls := v_calls v @ [[''voip'', ''misscalls'']]\<rparr>)"
    using voip_set_Some [of D "[''voip'', ''misscalls'']" v] by blast
  with e have "nbd_voip_register_call D now junk ''ring_stop'' v = Some (0, v\<lparr>v_calls := v_calls v @
      (if c_direction junk = NBD_PHONE_CALL_INCOMING \<and> c_length junk = - 1 then [[''voip'', ''misscalls'']] else [])\<rparr>)"
    by (simp add: nbd_voip_register_call_def)
  then show ?thesis using assms by (simp add: nbd_voip_duration_call_def upgrade_total at_rest_def set_upgrade_def)
qed

definition ex_phone :: nbd_daemon where
  "ex_phone h args = (if args = [''nvram'', ''get'', ''voip_callhistory''] then (0, ''on'') else (0, []))"

lemma ex_phone_on: "nbd_user_config_matches ex_phone h ''voip_callhistory'' ''on'' = Some True"
  by (simp add: nbd_user_config_matches_def answer_matches_def nbd_user_config_get_def nbd_get_def nbd_ask_def ex_phone_def
      guard_def query_fits_def query_room_def out_ok_def answer_spec_def)

theorem upgrade_only_at_rest_witness:
  "\<exists>v. voip_step ex_phone (voip_init []) v \<and> upgrade_flag (v_calls v) = Some ''ko''"
proof -
  let ?v = "\<lparr>new_call = \<lparr>c_type = 1, c_direction = 0, c_number = replicate 32 NUL, c_length = - 1, c_date = 5, c_start = 0, c_finish = 0\<rparr>,
    v_calls = [set_upgrade ''ko'']\<rparr>"
  have "nbd_voip_io_call ex_phone 5 0 (voip_init []) = Some ?v"
    using rings [of "voip_init []" ex_phone 5 0] by (simp add: voip_init_def resetCall_def)
  then have s: "voip_step ex_phone (voip_init []) ?v" by (intro voip_step.io [of 0]) simp_all
  have "upgrade_flag (v_calls ?v) \<noteq> None \<or> new_call ?v \<noteq> resetCall" by (simp add: resetCall_def)
  then show ?thesis using s upgrade_only_at_rest [OF r_into_rtranclp [where r = "voip_step ex_phone", OF s]]
    by (intro exI [of _ ?v]) (auto simp: resetCall_def)
qed

theorem incoming_call_recorded_witness:
  "phone_number ''0123456789'' \<and> incoming_call ex_phone resetCall ''0123456789'' 100 110 172 (voip_init [])
    = Some (0, voip_init ([] @ [set_upgrade ''ko'', set_upgrade ''ko'', set_upgrade ''ok'',
        [''voip'', ''history_call_add'', ''1'', ''0'', ''0123456789'', dec_int (172 - 110), dec_int 100], set_upgrade ''ok'']))"
proof -
  have p: "phone_number ''0123456789''" by code_simp
  have "v_calls (voip_init []) = []" "c_length (new_call (voip_init [])) \<noteq> 0" by (simp_all add: voip_init_def resetCall_def)
  moreover have "\<forall>h args. ex_phone h (''voip'' # args) = (0, [])" by (simp add: ex_phone_def)
  ultimately show ?thesis
    using p incoming_call_recorded [OF p, of 100 110 172 ex_phone "voip_init []" resetCall] ex_phone_on by (simp add: call_time_def)
qed

theorem unanswered_reads_stack_witness:
  "nbd_voip_duration_call ex_phone 9 (resetCall\<lparr>c_direction := 0\<rparr>) 0 ((voip_init [])\<lparr>new_call := resetCall\<lparr>c_direction := 1\<rparr>\<rparr>)
    \<noteq> nbd_voip_duration_call ex_phone 9 resetCall 0 ((voip_init [])\<lparr>new_call := resetCall\<lparr>c_direction := 1\<rparr>\<rparr>)"
  using unanswered_reads_stack [of "(voip_init [])\<lparr>new_call := resetCall\<lparr>c_direction := 1\<rparr>\<rparr>" ex_phone 9 "resetCall\<lparr>c_direction := 0\<rparr>"]
    unanswered_reads_stack [of "(voip_init [])\<lparr>new_call := resetCall\<lparr>c_direction := 1\<rparr>\<rparr>" ex_phone 9 resetCall]
  by (simp add: voip_init_def resetCall_def)

end
