(* ===== verification/Api_Common.thy ===== *)
theory Api_Common
  imports Api_Session Ewf_Web Nbd_Client
begin

text \<open>
  The REST API: the table of its methods (\<open>ewf_hashtable.c\<close>), parameters and errors, the dispatcher with
  the check of the token (\<open>api_common.c\<close>, \<open>ewf_fastcgi.c\<close>, \<open>ewf_http.c\<close>) and the two methods that
  hand out and validate tokens (\<open>ctl/auth.c\<close>).  Sources are under \<open>efixo-api/src/src\<close>.

  The state of the process has the HDF data set of the request, the session table, the array
  \<open>buffer\<close>, the calls made to the configuration daemon and the templates displayed.  The
  methods are registered before the first request, so that the table of methods is an argument.
  \<open>api_env\<close> is what the clock and the random device give to the calls of one request.
\<close>

subsection \<open>\<open>ewf_hashtable.c\<close>\<close>

text \<open>
  The table of \<open>hsearch_r\<close>: a key that is present is not replaced, and a new key is refused when the
  table is full.  \<open>hcreate_r\<close> makes a table of the next prime number of entries; the one use of it
  asks for 97.
\<close>

record 'a hsearch_data =
  ht_size :: nat
  ht_entries :: "(string \<times> 'a) list"

definition ewf_hashtable_create :: "bool \<Rightarrow> bool \<Rightarrow> nat \<Rightarrow> int \<times> 'a hsearch_data option" where
  "ewf_hashtable_create calloc_ok hcreate_ok sz =
     (if \<not> calloc_ok then (EWF_ERROR, None)
      else if \<not> hcreate_ok then (EWF_ERROR, Some \<lparr>ht_size = 0, ht_entries = []\<rparr>)
      else (EWF_SUCCESS, Some \<lparr>ht_size = sz, ht_entries = []\<rparr>))"

definition hsearch_enter :: "string \<Rightarrow> 'a \<Rightarrow> 'a hsearch_data \<Rightarrow> bool \<times> 'a hsearch_data" where
  "hsearch_enter key data t =
     (if map_of (ht_entries t) key \<noteq> None then (True, t)
      else if length (ht_entries t) < ht_size t then (True, t\<lparr>ht_entries := ht_entries t @ [(key, data)]\<rparr>)
      else (False, t))"

definition ewf_hashtable_insert :: "string \<Rightarrow> 'a \<Rightarrow> 'a hsearch_data \<Rightarrow> int \<times> 'a hsearch_data" where
  "ewf_hashtable_insert key data t = (let (r, t) = hsearch_enter key data t in (if r then EWF_SUCCESS else EWF_ERROR, t))"

definition ewf_hashtable_find :: "'a hsearch_data \<Rightarrow> string \<Rightarrow> int \<times> 'a option" where
  "ewf_hashtable_find t key = (case map_of (ht_entries t) key of None \<Rightarrow> (EWF_ERROR, None) | Some d \<Rightarrow> (EWF_SUCCESS, Some d))"

subsection \<open>State\<close>

record 'h api =
  a_hdf :: 'h
  a_sess :: session_state
  a_buffer :: buf
  a_calls :: calls
  a_display :: "string list"

type_synonym 'h action = "'h api \<Rightarrow> 'h api exec"

datatype api_access_policy = API_ACCESS_POLICY_PUBLIC | API_ACCESS_POLICY_PRIVATE

datatype api_error = API_ERROR_UNKNOWN | API_ERROR_FORMAT_NOT_FOUND | API_ERROR_METHOD_NOT_FOUND | API_ERROR_NEED_ARG
  | API_ERROR_INVALID_ARG | API_ERROR_NEED_AUTH | API_ERROR_BOX_UPGRADING

datatype http_method = METHOD_UNKNOWN | METHOD_GET | METHOD_POST | METHOD_PUT | METHOD_DELETE

record 'h api_method =
  am_request_method :: http_method
  am_access_policy :: api_access_policy
  am_action_handler :: "'h action option"

record 'h api_method_list =
  ml_list :: "'h api_method hsearch_data option"
  ml_initialized :: bool

record api_env =
  ae_clean :: int
  ae_clean2 :: int
  ae_check :: timeval
  ae_time :: "timeval option"
  ae_rdm :: "u8 list"

fun error_table :: "api_error \<Rightarrow> string \<times> string" where
  "error_table API_ERROR_UNKNOWN = (''0'', ''Unknown error'')"
| "error_table API_ERROR_FORMAT_NOT_FOUND = (''111'', ''Format not found'')"
| "error_table API_ERROR_METHOD_NOT_FOUND = (''112'', ''Method not found'')"
| "error_table API_ERROR_NEED_ARG = (''113'', ''Need argument(s)'')"
| "error_table API_ERROR_INVALID_ARG = (''114'', ''Invalid argument(s)'')"
| "error_table API_ERROR_NEED_AUTH = (''115'', ''Need authentication'')"
| "error_table API_ERROR_BOX_UPGRADING = (''120'', ''The box being upgrade'')"

subsection \<open>Parameters, values and errors\<close>

definition ewf_fastcgi_get_parameter :: "'h ewf_ext \<Rightarrow> string \<Rightarrow> 'h api \<Rightarrow> string option exec" where
  "ewf_fastcgi_get_parameter X name s = do {
     (_, b) \<leftarrow> bprintf 64 (''Query.'' @ name);
     Some (hdf_get_value X (a_hdf s) b) }"

definition api_get_parameter :: "'h ewf_ext \<Rightarrow> string \<Rightarrow> 'h api \<Rightarrow> (string option \<times> 'h api) exec" where
  "api_get_parameter X name s = do {
     (_, b) \<leftarrow> nbu_string_printf (Some (a_buffer s)) 256 (Some (''Query.'' @ name));
     b \<leftarrow> b;
     k \<leftarrow> read_str b;
     Some (hdf_get_value X (a_hdf s) k, s\<lparr>a_buffer := b\<rparr>) }"

definition api_set_value :: "'h ewf_ext \<Rightarrow> string \<Rightarrow> string option \<Rightarrow> 'h action" where
  "api_set_value X name value s = (case value of None \<Rightarrow> Some s
    | Some v \<Rightarrow> do {
        (r, b) \<leftarrow> bprintf 64 name;
        if r = - 1 then Some s
        else Some (s\<lparr>a_hdf := hdf_set_value X (a_hdf s) b v\<rparr>) })"

definition api_set_custom_error :: "'h ewf_ext \<Rightarrow> string \<Rightarrow> string \<Rightarrow> 'h action" where
  "api_set_custom_error X err_id err_msg s = do {
     s \<leftarrow> api_set_value X ''stat'' (Some ''fail'') s;
     s \<leftarrow> api_set_value X ''err.code'' (Some err_id) s;
     api_set_value X ''err.msg'' (Some err_msg) s }"

definition api_set_error :: "'h ewf_ext \<Rightarrow> api_error \<Rightarrow> 'h action" where
  "api_set_error X e = api_set_custom_error X (fst (error_table e)) (snd (error_table e))"

definition ewf_fastcgi_display :: "string \<Rightarrow> 'h api \<Rightarrow> 'h api" where
  "ewf_fastcgi_display name s = s\<lparr>a_display := a_display s @ [name]\<rparr>"

text \<open>A character of a C string, its NUL included; beyond it the read is out of bounds.\<close>

definition char_at :: "string \<Rightarrow> nat \<Rightarrow> char exec" where
  "char_at s i = (if i < length s then Some (s ! i) else if i = length s then Some NUL else None)"

definition ewf_http_request_method :: "'h ewf_ext \<Rightarrow> 'h \<Rightarrow> http_method exec" where
  "ewf_http_request_method X h = (case hdf_get_value X h ''CGI.RequestMethod'' of
      None \<Rightarrow> Some METHOD_UNKNOWN
    | Some m \<Rightarrow> do {
        c3 \<leftarrow> char_at m 3;
        if c3 = NUL \<and> strncmp ''GET'' m 3 = 0 then Some METHOD_GET
        else do {
          c4 \<leftarrow> char_at m 4;
          if c4 = NUL \<and> strncmp ''POST'' m 4 = 0 then Some METHOD_POST
          else if c3 = NUL \<and> strncmp ''PUT'' m 3 = 0 then Some METHOD_PUT
          else do {
            c6 \<leftarrow> char_at m 6;
            if c6 = NUL \<and> strncmp ''DELETE'' m 6 = 0 then Some METHOD_DELETE
            else Some METHOD_UNKNOWN } } })"

subsection \<open>Registration and dispatch, \<open>api_common.c\<close>\<close>

definition api_register_method ::
  "bool \<Rightarrow> bool \<Rightarrow> bool \<Rightarrow> string \<Rightarrow> http_method \<Rightarrow> api_access_policy \<Rightarrow> 'h action option
     \<Rightarrow> 'h api_method_list \<Rightarrow> 'h api_method_list exec" where
  "api_register_method htab_ok hcreate_ok calloc_ok method_name request_method access_policy action_handler ml = do {
     let (r, ml) = (if \<not> ml_initialized ml
         then (let (r, t) = ewf_hashtable_create htab_ok hcreate_ok 97 in (r, ml\<lparr>ml_list := t\<rparr>)) else (EWF_SUCCESS, ml));
     if r = EWF_ERROR then Some ml
     else do {
       let ml = ml\<lparr>ml_initialized := True\<rparr>;
       if \<not> calloc_ok then Some ml
       else do {
         t \<leftarrow> ml_list ml;
         let m = \<lparr>am_request_method = request_method, am_access_policy = access_policy, am_action_handler = action_handler\<rparr>;
         Some (ml\<lparr>ml_list := Some (snd (ewf_hashtable_insert method_name m t))\<rparr>) } } }"

definition api_fail :: "'h ewf_ext \<Rightarrow> api_error \<Rightarrow> 'h action" where
  "api_fail X e s = do {
     s \<leftarrow> api_set_error X e s;
     Some (ewf_fastcgi_display ''api/generic.xml'' s) }"

definition set_buffer :: "string \<Rightarrow> 'h action" where
  "set_buffer t s = do {
     (_, b) \<leftarrow> nbu_string_printf (Some (a_buffer s)) 256 (Some t);
     b \<leftarrow> b;
     Some (s\<lparr>a_buffer := b\<rparr>) }"

text \<open>\<open>api_handle_request\<close>: the note about an upgrade, which does not end the request.\<close>

definition handle_upgrading :: "'h ewf_ext \<Rightarrow> nbd_daemon \<Rightarrow> 'h action" where
  "handle_upgrading X D s = do {
     (ret, b) \<leftarrow> nbd_autoconf_get D (a_calls s) ''status'' (uninit 64) 64;
     if ret = 0 then do {
       t \<leftarrow> read_str b;
       if strncmp ''downloading'' t 11 = 0 then api_fail X API_ERROR_BOX_UPGRADING s else Some s }
     else Some s }"

text \<open>\<open>api_handle_request\<close>: the decision \<open>have_authoriz\<close>.\<close>

definition authoriz_token :: "'h ewf_ext \<Rightarrow> timeval option \<Rightarrow> 'h api \<Rightarrow> (bool \<times> 'h api) exec" where
  "authoriz_token X time s = do {
     token \<leftarrow> ewf_fastcgi_get_parameter X ''token'' s;
     case token of
       None \<Rightarrow> do { s \<leftarrow> api_set_error X API_ERROR_NEED_AUTH s; Some (False, s) }
     | Some t \<Rightarrow> do {
         (r, session, ss) \<leftarrow> api_session_get (Some t) (a_sess s);
         let s = s\<lparr>a_sess := ss\<rparr>;
         if r \<noteq> EWF_SUCCESS then do { s \<leftarrow> api_set_error X API_ERROR_NEED_AUTH s; Some (False, s) }
         else do {
           (r, ss) \<leftarrow> api_session_check session time (a_sess s);
           let s = s\<lparr>a_sess := ss\<rparr>;
           if r \<noteq> EWF_SUCCESS then do { s \<leftarrow> api_set_error X API_ERROR_NEED_AUTH s; Some (False, s) }
           else Some (True, s) } } }"

definition handle_authoriz ::
  "'h ewf_ext \<Rightarrow> nbd_daemon \<Rightarrow> timeval option \<Rightarrow> api_access_policy \<Rightarrow> 'h api \<Rightarrow> (bool \<times> 'h api) exec" where
  "handle_authoriz X D time policy s =
     (if policy = API_ACCESS_POLICY_PRIVATE then do {
        (r, b) \<leftarrow> nbd_nv_get D (a_calls s) ''web_auth'' (uninit 64) 64;
        off \<leftarrow> (if r = 0 then map_option (\<lambda>t. nbu_string_matches t ''off'' = NBU_STRING_EQUAL) (read_str b) else Some False);
        if off then Some (True, s) else authoriz_token X time s }
      else Some (True, s))"

text \<open>\<open>api_handle_request\<close>: the handler, and the template that shows its result.\<close>

definition handle_action :: "'h ewf_ext \<Rightarrow> http_method \<Rightarrow> string \<Rightarrow> 'h action \<Rightarrow> 'h action" where
  "handle_action X reqm name act s = do {
     s \<leftarrow> act s;
     if (case hdf_get_value X (a_hdf s) ''stat'' of None \<Rightarrow> False
         | Some c_stat \<Rightarrow> nbu_string_compare (Some c_stat) (Some ''fail'') = NBU_STRING_EQUAL)
     then set_buffer ''api/generic.xml'' s
     else do {
       s \<leftarrow> set_buffer (if reqm = METHOD_GET then ''api/'' @ name @ ''.xml'' else ''api/generic.xml'') s;
       api_set_value X ''stat'' (Some ''ok'') s } }"

definition api_handle_request ::
  "'h ewf_ext \<Rightarrow> 'h cgi_ext \<Rightarrow> nbd_daemon \<Rightarrow> timeval option \<Rightarrow> 'h api_method option \<Rightarrow> string \<Rightarrow> 'h action" where
  "api_handle_request X C D time m name s = (case m of
      None \<Rightarrow> api_fail X API_ERROR_METHOD_NOT_FOUND s
    | Some m \<Rightarrow> do {
        reqm \<leftarrow> ewf_http_request_method X (a_hdf s);
        if reqm \<noteq> am_request_method m then api_fail X API_ERROR_METHOD_NOT_FOUND s
        else (case am_action_handler m of
            None \<Rightarrow> api_fail X API_ERROR_METHOD_NOT_FOUND s
          | Some act \<Rightarrow> do {
              s \<leftarrow> handle_upgrading X D s;
              let s = (if reqm = METHOD_POST then s\<lparr>a_hdf := cgi_parse C (a_hdf s)\<rparr> else s);
              (have_authoriz, s) \<leftarrow> handle_authoriz X D time (am_access_policy m) s;
              s \<leftarrow> (if \<not> have_authoriz then set_buffer ''api/generic.xml'' s else handle_action X reqm name act s);
              t \<leftarrow> read_str (a_buffer s);
              Some (ewf_fastcgi_display t s) }) })"

text \<open>\<open>api_dispatch\<close>: the values that every answer has.\<close>

definition dispatch_values :: "'h ewf_ext \<Rightarrow> string \<Rightarrow> 'h action" where
  "dispatch_values X boxname s = do {
     s \<leftarrow> api_set_value X ''version'' (Some ''1.0'') s;
     s \<leftarrow> api_set_value X ''env.uname'' (Some boxname) s;
     api_set_value X ''cgiout.ContentType'' (Some ''text/xml'') s }"

definition api_dispatch ::
  "'h ewf_ext \<Rightarrow> 'h cgi_ext \<Rightarrow> nbd_daemon \<Rightarrow> timeval option \<Rightarrow> string \<Rightarrow> 'h api_method hsearch_data \<Rightarrow> 'h action" where
  "api_dispatch X C D time boxname methods s = do {
     s \<leftarrow> dispatch_values X boxname s;
     if hdf_get_value X (a_hdf s) ''CGI.RequestURI'' = None then api_fail X API_ERROR_METHOD_NOT_FOUND s
     else do {
       name \<leftarrow> ewf_fastcgi_get_parameter X ''method'' s;
       case name of
         None \<Rightarrow> api_fail X API_ERROR_METHOD_NOT_FOUND s
       | Some name \<Rightarrow> (case ewf_hashtable_find methods name of
             (r, m) \<Rightarrow> if r = EWF_ERROR then api_fail X API_ERROR_METHOD_NOT_FOUND s
                       else api_handle_request X C D time m name s) } }"

text \<open>One turn of the loop of \<open>main\<close> in \<open>api_main.c\<close>.\<close>

definition api_serve ::
  "'h ewf_ext \<Rightarrow> 'h cgi_ext \<Rightarrow> nbd_daemon \<Rightarrow> timeval option \<Rightarrow> string \<Rightarrow> 'h api_method hsearch_data \<Rightarrow> 'h action" where
  "api_serve X C D time boxname methods s = api_dispatch X C D time boxname methods (s\<lparr>a_hdf := cgi_init C\<rparr>)"

subsection \<open>Tokens, \<open>ctl/auth.c\<close>\<close>

datatype auth_method = auth_invalid | auth_off | auth_passwd | auth_button

text \<open>\<open>getToken\<close>: the error that does not end the request, and the new session.\<close>

definition note_auth_off :: "'h ewf_ext \<Rightarrow> nbd_daemon \<Rightarrow> 'h action" where
  "note_auth_off X D s = do {
     (r, b) \<leftarrow> nbd_nv_get D (a_calls s) ''web_auth'' (uninit 64) 64;
     if r = 0 then do {
       t \<leftarrow> read_str b;
       if nbu_string_matches t ''off'' = NBU_STRING_EQUAL
       then api_set_custom_error X ''205'' ''Authentification disabled'' s else Some s }
     else Some s }"

definition new_token :: "'h ewf_ext \<Rightarrow> nbd_daemon \<Rightarrow> api_env \<Rightarrow> 'h action" where
  "new_token X D e s = do {
     (r, b, ss) \<leftarrow> api_session_create (ae_time e) (ae_rdm e) (a_buffer s) 256 (a_sess s);
     let s = s\<lparr>a_buffer := b, a_sess := ss\<rparr>;
     if r = EWF_SUCCESS then do {
       t \<leftarrow> read_str (a_buffer s);
       s \<leftarrow> api_set_value X ''auth.token'' (Some t) s;
       (r, b) \<leftarrow> nbd_nv_get D (a_calls s) ''web_auth'' (a_buffer s) 256;
       let s = s\<lparr>a_buffer := b\<rparr>;
       if r = 0 then do {
         t \<leftarrow> read_str (a_buffer s);
         api_set_value X ''auth.method'' (Some t) s }
       else Some s }
     else api_set_error X API_ERROR_UNKNOWN s }"

definition getToken :: "'h ewf_ext \<Rightarrow> nbd_daemon \<Rightarrow> api_env \<Rightarrow> 'h action" where
  "getToken X D e s = do {
     (_, ss) \<leftarrow> api_session_cleaner (ae_clean e) (a_sess s);
     let s = s\<lparr>a_sess := ss\<rparr>;
     n \<leftarrow> api_session_count (a_sess s);
     if sint n > 64 then do {
       s \<leftarrow> api_set_custom_error X ''201'' ''Max token reached'' s;
       (_, ss) \<leftarrow> api_session_cleaner (ae_clean2 e) (a_sess s);
       Some (s\<lparr>a_sess := ss\<rparr>) }
     else do {
       s \<leftarrow> note_auth_off X D s;
       new_token X D e s } }"

text \<open>\<open>checkToken\<close>: which method of authentication is asked for; \<open>Inl\<close> when the request ends here.\<close>

definition choose_method :: "'h ewf_ext \<Rightarrow> string \<Rightarrow> 'h api \<Rightarrow> ('h api + auth_method \<times> string option) exec" where
  "choose_method X web_auth s =
     (if nbu_string_matches web_auth ''all'' = NBU_STRING_EQUAL then do {
        hash \<leftarrow> ewf_fastcgi_get_parameter X ''hash'' s;
        Some (Inr (if hash \<noteq> None then auth_passwd else auth_button, hash)) }
      else if nbu_string_matches web_auth ''button'' = NBU_STRING_EQUAL then Some (Inr (auth_button, None))
      else if nbu_string_matches web_auth ''passwd'' = NBU_STRING_EQUAL then do {
        hash \<leftarrow> ewf_fastcgi_get_parameter X ''hash'' s;
        if hash \<noteq> None then Some (Inr (auth_passwd, hash))
        else do { s \<leftarrow> api_set_error X API_ERROR_NEED_ARG s; Some (Inl s) } }
      else do { s \<leftarrow> api_set_custom_error X ''205'' ''Authentification disabled'' s; Some (Inl s) })"

text \<open>\<open>checkToken\<close>: the session is activated and the token sent back.\<close>

definition accept_token :: "'h ewf_ext \<Rightarrow> api_env \<Rightarrow> addr \<Rightarrow> string \<Rightarrow> 'h action" where
  "accept_token X e session token s = do {
     (_, ss) \<leftarrow> api_session_validate session (ae_time e) (a_sess s);
     api_set_value X ''auth.token'' (Some token) (s\<lparr>a_sess := ss\<rparr>) }"

definition check_button :: "'h ewf_ext \<Rightarrow> nbd_daemon \<Rightarrow> api_env \<Rightarrow> addr \<Rightarrow> string \<Rightarrow> 'h action" where
  "check_button X D e session token s = do {
     (r, b) \<leftarrow> nbd_status_get D (a_calls s) ''web_autologin'' (a_buffer s) 256;
     let s = s\<lparr>a_buffer := b\<rparr>;
     if r \<noteq> 0 then api_set_error X API_ERROR_UNKNOWN s
     else do {
       t \<leftarrow> read_str (a_buffer s);
       if nbu_string_matches t ''on'' = NBU_STRING_EQUAL then do {
         (_, ss) \<leftarrow> api_session_validate session (ae_time e) (a_sess s);
         let s = s\<lparr>a_sess := ss\<rparr>;
         (_, h) \<leftarrow> nbd_halt_webautologin D (a_calls s);
         api_set_value X ''auth.token'' (Some token) (s\<lparr>a_calls := h\<rparr>) }
       else api_set_custom_error X ''203'' ''Push button not pushed'' s } }"

definition set_a_mem :: "smem \<Rightarrow> 'h api \<Rightarrow> 'h api" where
  "set_a_mem m s = s\<lparr>a_sess := (a_sess s)\<lparr>ss_mem := m\<rparr>\<rparr>"

abbreviation (input) invalid_login :: "'h ewf_ext \<Rightarrow> 'h action" where
  "invalid_login X \<equiv> api_set_custom_error X ''204'' ''Invalid login and/or password''"

text \<open>\<open>checkToken\<close>: the two comparisons; \<open>Inl\<close> when the request ends with an error.\<close>

definition check_login :: "'h ewf_ext \<Rightarrow> nbd_daemon \<Rightarrow> string \<Rightarrow> string \<Rightarrow> 'h api \<Rightarrow> ('h api + 'h api) exec" where
  "check_login X D token arg_login s = do {
     (r, b) \<leftarrow> nbd_nv_get D (a_calls s) ''web_login'' (uninit 256) 256;
     if r \<noteq> 0 then map_option Inl (api_set_error X API_ERROR_UNKNOWN s)
     else do {
       login \<leftarrow> read_str b;
       (r, login_hash, m) \<leftarrow> ewf_crypto_sha256_hash X (Some login) (ss_mem (a_sess s));
       let s = set_a_mem m s;
       if r \<noteq> EWF_SUCCESS then map_option Inl (api_set_error X API_ERROR_UNKNOWN s)
       else do {
         (r, login_hashed, m) \<leftarrow> ewf_crypto_hmac_sha256_mac X token (Some login_hash) (ss_mem (a_sess s));
         let s = set_a_mem m s;
         if r \<noteq> EWF_SUCCESS then map_option Inl (api_set_error X API_ERROR_UNKNOWN s)
         else if nbu_string_compare (Some arg_login) (Some login_hashed) \<noteq> NBU_SUCCESS then map_option Inl (invalid_login X s)
         else Some (Inr s) } } }"

definition check_password :: "'h ewf_ext \<Rightarrow> nbd_daemon \<Rightarrow> string \<Rightarrow> string \<Rightarrow> 'h api \<Rightarrow> ('h api + 'h api) exec" where
  "check_password X D token arg_password s = do {
     (r, b) \<leftarrow> nbd_nv_get D (a_calls s) ''web_password'' (uninit 256) 256;
     if r \<noteq> 0 then map_option Inl (api_set_error X API_ERROR_UNKNOWN s)
     else do {
       password \<leftarrow> read_str b;
       (r, password_hashed, m) \<leftarrow> ewf_crypto_hmac_sha256_mac X token (Some password) (ss_mem (a_sess s));
       let s = set_a_mem m s;
       if r \<noteq> EWF_SUCCESS then map_option Inl (api_set_error X API_ERROR_UNKNOWN s)
       else if nbu_string_compare (Some arg_password) (Some password_hashed) \<noteq> NBU_STRING_EQUAL then map_option Inl (invalid_login X s)
       else Some (Inr s) } }"

definition check_passwd :: "'h ewf_ext \<Rightarrow> nbd_daemon \<Rightarrow> api_env \<Rightarrow> addr \<Rightarrow> string \<Rightarrow> string \<Rightarrow> 'h action" where
  "check_passwd X D e session token hash s =
     (if length hash \<noteq> 64 + 64 then invalid_login X s
      else do {
        (_, arg_login) \<leftarrow> bcopy 65 hash;
        (_, arg_password) \<leftarrow> bcopy 65 (drop 64 hash);
        l \<leftarrow> check_login X D token arg_login s;
        case l of Inl s \<Rightarrow> Some s
        | Inr s \<Rightarrow> do {
            p \<leftarrow> check_password X D token arg_password s;
            case p of Inl s \<Rightarrow> Some s | Inr s \<Rightarrow> accept_token X e session token s } })"

abbreviation (input) PRESESSION_TIMEOUT_FAST :: int where "PRESESSION_TIMEOUT_FAST \<equiv> 5"

text \<open>\<open>checkToken\<close> for a token whose session was found.\<close>

definition check_session :: "'h ewf_ext \<Rightarrow> nbd_daemon \<Rightarrow> api_env \<Rightarrow> addr \<Rightarrow> string \<Rightarrow> 'h action" where
  "check_session X D e session token s = do {
     (r, b) \<leftarrow> nbd_nv_get D (a_calls s) ''web_auth'' (uninit 128) 128;
     if r \<noteq> 0 then api_set_error X API_ERROR_UNKNOWN s
     else do {
       web_auth \<leftarrow> read_str b;
       let presession_timeout =
         (if nbu_string_matches web_auth ''passwd'' = NBU_STRING_EQUAL then PRESESSION_TIMEOUT_FAST else PRESESSION_TIMEOUT);
       w \<leftarrow> m_objs (ss_mem (a_sess s)) session;
       if s_activated w = 1 then api_set_custom_error X ''201'' ''Invalid session'' s
       else do {
         t \<leftarrow> s32_add (tv_sec (s_tv w)) presession_timeout;
         if t < tv_sec (ae_check e) then do {
           (_, ss) \<leftarrow> api_session_remove (Some (c_str (s_id w))) (a_sess s);
           api_set_custom_error X ''202'' ''Session for validation timeout'' (s\<lparr>a_sess := ss\<rparr>) }
         else do {
           m \<leftarrow> choose_method X web_auth s;
           case m of
             Inl s \<Rightarrow> Some s
           | Inr (auth_button, _) \<Rightarrow> check_button X D e session token s
           | Inr (auth_passwd, hash) \<Rightarrow> do { h \<leftarrow> hash; check_passwd X D e session token h s }
           | Inr _ \<Rightarrow> Some s } } } }"

definition checkToken :: "'h ewf_ext \<Rightarrow> nbd_daemon \<Rightarrow> api_env \<Rightarrow> 'h action" where
  "checkToken X D e s = do {
     (_, ss) \<leftarrow> api_session_cleaner (ae_clean e) (a_sess s);
     let s = s\<lparr>a_sess := ss\<rparr>;
     token \<leftarrow> ewf_fastcgi_get_parameter X ''token'' s;
     case token of
       None \<Rightarrow> api_set_error X API_ERROR_NEED_ARG s
     | Some t \<Rightarrow> do {
         (r, session, ss) \<leftarrow> api_session_get (Some t) (a_sess s);
         let s = s\<lparr>a_sess := ss\<rparr>;
         if r = EWF_SUCCESS then check_session X D e session t s
         else api_set_custom_error X ''201'' ''Invalid session'' s } }"

subsection \<open>The main loop, \<open>api_main.c\<close>\<close>

text \<open>
  One request: the data set that the web server and ClearSilver make of it, and the answers of the
  daemon, the clock and the random device while it is served.  The methods get the last two
  through the table.
\<close>

record 'h request =
  rq_cgi :: "'h cgi_ext"
  rq_daemon :: nbd_daemon
  rq_time :: "timeval option"
  rq_env :: api_env

fun api_main :: "'h ewf_ext \<Rightarrow> string \<Rightarrow> ('h request \<Rightarrow> 'h api_method hsearch_data) \<Rightarrow> 'h request list \<Rightarrow> 'h action" where
  "api_main X boxname methods [] s = Some s"
| "api_main X boxname methods (rq # rqs) s = do {
     s \<leftarrow> api_serve X (rq_cgi rq) (rq_daemon rq) (rq_time rq) boxname (methods rq) s;
     api_main X boxname methods rqs s }"

end
