(* ===== verification/Api_Auth.thy ===== *)
theory Api_Auth
  imports Api_Common
begin

text \<open>
  Who gets into the REST API.  The effect of every step of a request on the session table, the steps as
  a relation, and what holds in every state that they reach: a session is activated only
  after its token was presented with the button pressed or with the right login and
  password, tokens are 40 hexadecimal digits, and there are at most 65 sessions.
\<close>

subsection \<open>What leaves the sessions alone\<close>

definition hdf_only :: "'h api \<Rightarrow> 'h api \<Rightarrow> bool" where
  "hdf_only s s' \<longleftrightarrow> (\<exists>h. s' = s\<lparr>a_hdf := h\<rparr>)"

lemma hdf_only_refl [simp, intro]: "hdf_only s s"
  unfolding hdf_only_def by (rule exI [of _ "a_hdf s"]) simp

lemma hdf_only_hdf [simp, intro]: "hdf_only s (s\<lparr>a_hdf := h\<rparr>)"
  by (auto simp: hdf_only_def)

lemma hdf_only_trans: "hdf_only a b \<Longrightarrow> hdf_only b c \<Longrightarrow> hdf_only a c"
  by (auto simp: hdf_only_def)

lemma hdf_onlyD: "hdf_only s s' \<Longrightarrow> a_sess s' = a_sess s \<and> a_buffer s' = a_buffer s \<and> a_calls s' = a_calls s"
  by (auto simp: hdf_only_def)

lemma set_value_frame: "api_set_value X n v s = Some s' \<Longrightarrow> hdf_only s s'"
  by (auto simp: api_set_value_def bind_Some_iff split: option.splits if_splits)

lemma custom_error_frame: "api_set_custom_error X i t s = Some s' \<Longrightarrow> hdf_only s s'"
  by (auto simp: api_set_custom_error_def bind_Some_iff intro: hdf_only_trans dest!: set_value_frame)

lemma error_frame: "api_set_error X e s = Some s' \<Longrightarrow> hdf_only s s'"
  by (auto simp: api_set_error_def dest: custom_error_frame)

lemmas error_frames = error_frame [THEN hdf_onlyD] custom_error_frame [THEN hdf_onlyD] set_value_frame [THEN hdf_onlyD]

text \<open>An allocation outside the table.\<close>

lemma table_spend: "table st ps \<Longrightarrow> table (st\<lparr>ss_mem := spend n (ss_mem st)\<rparr>) ps"
  by (rule table_mem) (simp_all add: spend_def)

lemma hmac_frame:
  assumes "ewf_crypto_hmac_sha256_mac X k (Some v) m = Some (r, t, m')" and "sha2_laws X"
  shows "\<exists>n. m' = spend n m" and "r = EWF_SUCCESS \<Longrightarrow> t = hmac_hex X k v"
  using assms hex_digest_ok [of "sha2_hmac X k v"]
  by (auto simp: ewf_crypto_hmac_sha256_mac_def bind_Some_iff hmac_hex_def sha2_laws_def split: if_splits prod.splits dest: heap_alloc_spend)

lemma sha_frame:
  assumes "ewf_crypto_sha256_hash X (Some v) m = Some (r, t, m')" and "sha2_laws X"
  shows "\<exists>n. m' = spend n m" and "r = EWF_SUCCESS \<Longrightarrow> t = sha_hex X v"
  using assms hex_digest_ok [of "sha2_digest X v"]
  by (auto simp: ewf_crypto_sha256_hash_def bind_Some_iff sha_hex_def sha2_laws_def split: if_splits prod.splits dest: heap_alloc_spend)

subsection \<open>Creating a token\<close>

lemma hex_loop_long:
  assumes "length pre = 2 * n" and "2 * length bytes < length rest"
  shows "\<exists>rest'. hex_loop bytes n (pre @ rest) = Some (pre @ hex_id bytes @ rest') \<and> length rest' = length rest - 2 * length bytes"
  using assms
proof (induction bytes arbitrary: n pre rest)
  case (Cons r rs)
  obtain rest' where r': "printf_at (pre @ rest) (2 * n) (hex2 (unat r)) = Some (pre @ hex2 (unat r) @ NUL # rest')"
    "length rest' + 3 = length rest"
    by (rule printf_at_hex [of pre "2 * n" rest r]) (use Cons.prems in auto)
  obtain rest2 where "hex_loop rs (Suc n) ((pre @ hex2 (unat r)) @ NUL # rest') = Some ((pre @ hex2 (unat r)) @ hex_id rs @ rest2)"
    "length rest2 = length (NUL # rest') - 2 * length rs"
    using Cons.IH [of "pre @ hex2 (unat r)" "Suc n" "NUL # rest'"] Cons.prems r'(2) by auto
  then show ?case using r' Cons.prems by (auto simp: hex_id_def)
qed (simp add: hex_id_def)

definition token_session :: "u8 list \<Rightarrow> timeval \<Rightarrow> ewf_session_t" where
  "token_session bytes tv = \<lparr>s_activated = 0, s_id = hex_id bytes @ [NUL], s_tv = tv\<rparr>"

lemma token_session_props [simp]:
  "sid (token_session bytes tv) = hex_id bytes" "s_activated (token_session bytes tv) = 0"
  by (simp_all add: token_session_def sid_def)

lemma create_effect:
  assumes T: "table st ps" and b: "length b = 256" and tv: "\<And>tv. time = Some tv \<Longrightarrow> time_ok tv"
    and run: "api_session_create time bytes b 256 st = Some (r, b', st')"
  shows "length b' = 256 \<and> (r = EWF_ERROR \<and> table st' ps \<or>
    (\<exists>d tv. r = EWF_SUCCESS \<and> length bytes = 20 \<and> time = Some tv \<and> read_str b' = Some (hex_id bytes) \<and> table st' (ps @ [(d, token_session bytes tv)])))"
proof (cases time)
  case None
  then show ?thesis using run b T by (simp add: api_session_create_def)
next
  case (Some tv0)
  let ?m = "ss_mem st" and ?w = "token_session bytes tv0"
  have len: "length bytes = 20" using run Some by (auto simp: api_session_create_def bind_Some_iff guard_def split: if_splits)
  have av: "0 < m_avail ?m"
    using run Some by (auto simp: api_session_create_def bind_Some_iff guard_def calloc_obj_def split: if_splits)
  obtain rest where rest: "hex_loop bytes 0 b = Some (hex_id bytes @ rest)" "length rest = 216"
    using hex_loop_long [of "[]" 0 bytes b] b len by auto
  then obtain x xs where x: "rest = x # xs" "length xs = 215" by (cases rest) auto
  have h40: "length (hex_id bytes) = 40" using len by simp
  have set: "set_byte (hex_id bytes @ rest) 40 NUL = Some (hex_id bytes @ NUL # xs)"
    using h40 x by (simp add: set_byte_def list_update_append)
  have rd: "read_str (hex_id bytes @ NUL # xs) = Some (hex_id bytes)" by simp
  have "room (replicate 41 NUL) 41" by (simp add: room_def)
  then have cp: "nbu_string_copy (Some (replicate 41 NUL)) 41 (Some (hex_id bytes)) = Some (NBU_SUCCESS, Some (hex_id bytes @ [NUL]))"
    using string_copy_ok [of "replicate 41 NUL" 41 "hex_id bytes"] h40 by simp
  define m1 where "m1 = ?m\<lparr>m_brk := Suc (m_brk ?m), m_avail := m_avail ?m - 1, m_objs := (m_objs ?m)(m_brk ?m \<mapsto> ?w)\<rparr>"
  note fresh = table_fresh [OF T]
  have run': "api_session_create time bytes b 256 st =
      do { (r, m) \<leftarrow> nbu_list_insert_end (ewf_session_list st) (m_brk ?m) m1;
        Some (if r = NBU_SUCCESS then EWF_SUCCESS else EWF_ERROR, hex_id bytes @ NUL # xs, st\<lparr>ss_mem := m\<rparr>) }"
    using Some len av rest(1) set rd cp fresh(3)
    by (simp add: api_session_create_def calloc_obj_def null_session_def m1_def token_session_def)
  have T1: "table (st\<lparr>ss_mem := m1\<rparr>) ps"
    by (rule table_mem [OF T]) (use fresh in \<open>force simp: m1_def\<close>)+
  then have O: "objs_at m1 (ewf_session_list st) ps" by (simp add: table_def table_at_def)
  have wok: "session_ok ?w" using tv [OF Some] h40 by (simp add: session_ok_def token_session_def time_ok_def)
  show ?thesis
  proof (cases "m_avail m1 = 0")
    case True
    then have "nbu_list_insert_end (ewf_session_list st) (m_brk ?m) m1 = Some (NBU_ERROR, m1)" by (rule objs_insert_oom [OF O])
    then show ?thesis using run run' T1 h40 x(2) by auto
  next
    case False
    obtain m' where m': "nbu_list_insert_end (ewf_session_list st) (m_brk ?m) m1 = Some (NBU_SUCCESS, m')"
      "objs_at m' (ewf_session_list st) (ps @ [(m_brk ?m, ?w)])"
      by (rule objs_insert_end [OF O, of "m_brk ?m" ?w]) (use False fresh in \<open>auto simp: m1_def\<close>)
    then have "table (st\<lparr>ss_mem := m'\<rparr>) (ps @ [(m_brk ?m, ?w)])" using T1 wok by (auto simp: table_def table_at_def)
    then show ?thesis using run run' m'(1) h40 x(2) rd len Some by auto
  qed
qed

subsection \<open>Validating a token\<close>

definition nv_string :: "nbd_daemon \<Rightarrow> calls \<Rightarrow> string \<Rightarrow> nat \<Rightarrow> string option" where
  "nv_string D h key n = do {
     (r, b) \<leftarrow> nbd_nv_get D h key (uninit n) (of_nat n);
     if r = 0 then read_str b else None }"

definition passwd_ok :: "'h ewf_ext \<Rightarrow> nbd_daemon \<Rightarrow> calls \<Rightarrow> string \<Rightarrow> string \<Rightarrow> bool" where
  "passwd_ok X D h token hash \<longleftrightarrow> (case (nv_string D h ''web_login'' 256, nv_string D h ''web_password'' 256) of
      (Some login, Some password) \<Rightarrow> hash = hmac_hex X token (sha_hex X login) @ hmac_hex X token password
    | _ \<Rightarrow> False)"

definition button_on :: "nbd_daemon \<Rightarrow> calls \<Rightarrow> bool" where
  "button_on D h \<longleftrightarrow> (\<exists>b b'. length b = 256 \<and> nbd_status_get D h ''web_autologin'' b 256 = Some (0, b') \<and> read_str b' = Some ''on'')"

definition query_param :: "'h ewf_ext \<Rightarrow> string \<Rightarrow> 'h api \<Rightarrow> string option" where
  "query_param X name s = hdf_get_value X (a_hdf s) (''Query.'' @ name)"

text \<open>What the configured method of authentication asks for.\<close>

definition credential_ok :: "'h ewf_ext \<Rightarrow> nbd_daemon \<Rightarrow> 'h api \<Rightarrow> string \<Rightarrow> bool" where
  "credential_ok X D s t \<longleftrightarrow> (case (nv_string D (a_calls s) ''web_auth'' 128, query_param X ''hash'' s) of
      (None, _) \<Rightarrow> False
    | (Some a, None) \<Rightarrow> (a = ''button'' \<or> a = ''all'') \<and> button_on D (a_calls s)
    | (Some a, Some hash) \<Rightarrow> a = ''button'' \<and> button_on D (a_calls s) \<or>
        (a = ''passwd'' \<or> a = ''all'') \<and> passwd_ok X D (a_calls s) t hash)"

text \<open>The parameters of a request are C strings.\<close>

definition query_strings :: "'h ewf_ext \<Rightarrow> 'h \<Rightarrow> bool" where
  "query_strings X h \<longleftrightarrow> (\<forall>n v. hdf_get_value X h (''Query.'' @ n) = Some v \<longrightarrow> NUL \<notin> set v)"

lemma query_NUL: "query_strings X (a_hdf s) \<Longrightarrow> query_param X n s = Some v \<Longrightarrow> NUL \<notin> set v"
  by (auto simp: query_strings_def query_param_def)

definition accepted :: "string \<Rightarrow> stable \<Rightarrow> stable \<Rightarrow> bool" where
  "accepted t ps ps' \<longleftrightarrow> (\<exists>qs d w rs tv. ps = qs @ (d, w) # rs \<and> sid w = t \<and> s_activated w \<noteq> 1 \<and>
     ps' = qs @ (d, w\<lparr>s_activated := 1, s_tv := tv\<rparr>) # rs)"

lemma parameter_eq [simp]:
  "ewf_fastcgi_get_parameter X ''token'' s = Some (query_param X ''token'' s)"
  "ewf_fastcgi_get_parameter X ''hash'' s = Some (query_param X ''hash'' s)"
  "ewf_fastcgi_get_parameter X ''method'' s = Some (query_param X ''method'' s)"
  by (simp_all add: ewf_fastcgi_get_parameter_def query_param_def bprintf_ok)

lemma validate_effect:
  assumes T: "table st (qs @ (d, w) # rs)" and tv: "\<And>tv. time = Some tv \<Longrightarrow> time_ok tv"
    and run: "api_session_validate d time st = Some (r, st')"
  shows "table st' (qs @ (d, w) # rs) \<or> (\<exists>tv. table st' (qs @ (d, w\<lparr>s_activated := 1, s_tv := tv\<rparr>) # rs))"
proof (cases time)
  case None
  then show ?thesis using run T by (auto simp: api_session_validate_def bind_Some_iff)
next
  case (Some tv0)
  have "session_ok (w\<lparr>s_activated := 1, s_tv := tv0\<rparr>)"
    using table_split(2) [OF T] tv [OF Some] by (simp add: session_ok_def time_ok_def)
  from table_update [OF T this] show ?thesis
    using run Some table_split [OF T] by (auto simp: api_session_validate_def bind_Some_iff)
qed

lemma button_effect:
  assumes T: "table (a_sess s) (qs @ (d, w) # rs)" and b: "length (a_buffer s) = 256"
    and tv: "\<And>tv. ae_time e = Some tv \<Longrightarrow> time_ok tv" and run: "check_button X D e d t s = Some s'"
  shows "length (a_buffer s') = 256 \<and> (table (a_sess s') (qs @ (d, w) # rs) \<or>
    button_on D (a_calls s) \<and> (\<exists>tv. table (a_sess s') (qs @ (d, w\<lparr>s_activated := 1, s_tv := tv\<rparr>) # rs)))"
proof -
  obtain r b' where g: "nbd_status_get D (a_calls s) ''web_autologin'' (a_buffer s) 256 = Some (r, b')"
    using run by (auto simp: check_button_def bind_Some_iff)
  then have b': "length b' = 256" using b by (auto simp: nbd_status_get_def nbd_get_Some answer_spec_def split: if_splits)
  let ?s = "s\<lparr>a_buffer := b'\<rparr>"
  show ?thesis
  proof (cases "r = 0 \<and> read_str b' = Some ''on''")
    case False
    then have "hdf_only ?s s'"
      using run g by (auto simp: check_button_def bind_Some_iff Let_def nbu_string_matches_def split: if_splits
          intro: error_frame custom_error_frame)
    then show ?thesis using T b' by (auto dest: hdf_onlyD)
  next
    case True
    then have on: "button_on D (a_calls s)" using g b by (auto simp: button_on_def)
    obtain r1 ss h where v: "api_session_validate d (ae_time e) (a_sess s) = Some (r1, ss)"
      and s': "hdf_only (?s\<lparr>a_sess := ss, a_calls := h\<rparr>) s'"
      using run g True by (auto simp: check_button_def bind_Some_iff Let_def nbu_string_matches_def dest: set_value_frame)
    show ?thesis using validate_effect [OF T tv v] hdf_onlyD [OF s'] on b' by auto
  qed
qed

text \<open>Only the amount of free memory may differ.\<close>

definition same_table :: "'h api \<Rightarrow> 'h api \<Rightarrow> bool" where
  "same_table s s' \<longleftrightarrow> (\<exists>n. a_sess s' = (a_sess s)\<lparr>ss_mem := spend n (ss_mem (a_sess s))\<rparr>) \<and>
     a_buffer s' = a_buffer s \<and> a_calls s' = a_calls s"

lemma same_tableD: "same_table s s' \<Longrightarrow> table (a_sess s) ps \<Longrightarrow> table (a_sess s') ps"
  by (auto simp: same_table_def table_spend)

lemma same_table_hdf: "hdf_only s s' \<Longrightarrow> same_table s s'"
  unfolding same_table_def by (auto dest!: hdf_onlyD intro!: exI [of _ 0] simp: spend_def)

lemma same_table_spend: "same_table s (set_a_mem (spend n (ss_mem (a_sess s))) s)"
  by (auto simp: same_table_def set_a_mem_def)

lemma same_table_trans: "same_table a b \<Longrightarrow> same_table b c \<Longrightarrow> same_table a c"
  by (auto simp: same_table_def)

lemma same_table_refl [simp]: "same_table s s"
  by (rule same_table_hdf) simp

lemmas same_table_error = error_frame [THEN same_table_hdf] custom_error_frame [THEN same_table_hdf]

lemma error_ends:
  assumes "\<not> (\<exists>s'. r = Inl s' \<and> same_table s s')" and "same_table s s1"
  shows "map_option Inl (api_set_error X e s1) \<noteq> Some r" and "map_option Inl (api_set_custom_error X i j s1) \<noteq> Some r"
  using assms same_table_error same_table_trans by (fastforce simp: map_option_case split: option.splits)+

lemma login_effect:
  assumes X: "sha2_laws X" and run: "check_login X D t arg s = Some r"
  shows "(\<exists>s'. r = Inl s' \<and> same_table s s') \<or> (\<exists>s' login. r = Inr s' \<and> same_table s s' \<and>
    nv_string D (a_calls s) ''web_login'' 256 = Some login \<and> arg = hmac_hex X t (sha_hex X login))"
proof (subst disj_commute, rule disjCI)
  assume "\<not> (\<exists>s'. r = Inl s' \<and> same_table s s')"
  note fail = error_ends [OF this]
  obtain b login where b: "nbd_nv_get D (a_calls s) ''web_login'' (uninit 256) 256 = Some (0, b)" "read_str b = Some login"
    using run fail(1) [OF same_table_refl] by (auto simp: check_login_def bind_Some_iff split: if_splits)
  obtain r1 lh m1 where c1: "ewf_crypto_sha256_hash X (Some login) (ss_mem (a_sess s)) = Some (r1, lh, m1)"
    using run b by (auto simp: check_login_def bind_Some_iff)
  let ?s1 = "set_a_mem m1 s"
  have s1: "same_table s ?s1" using sha_frame(1) [OF c1 X] same_table_spend by blast
  have r1: "r1 = EWF_SUCCESS"
    using run b c1 fail(1) [OF s1] by (auto simp: check_login_def Let_def split: if_splits)
  obtain r2 lm m2 where c2: "ewf_crypto_hmac_sha256_mac X t (Some lh) (ss_mem (a_sess ?s1)) = Some (r2, lm, m2)"
    using run b c1 r1 by (auto simp: check_login_def bind_Some_iff Let_def)
  let ?s2 = "set_a_mem m2 ?s1"
  have s2: "same_table s ?s2" using hmac_frame(1) [OF c2 X] same_table_spend same_table_trans [OF s1] by blast
  have "r2 = EWF_SUCCESS \<and> arg = lm \<and> r = Inr ?s2"
    using run b c1 r1 c2 fail(1) [OF s2] fail(2) [OF s2, of X "''204''" "''Invalid login and/or password''"] by (auto simp: check_login_def Let_def string_compare_eq split: if_splits)
  then show "\<exists>s' login. r = Inr s' \<and> same_table s s' \<and>
      nv_string D (a_calls s) ''web_login'' 256 = Some login \<and> arg = hmac_hex X t (sha_hex X login)"
    using b s2 sha_frame(2) [OF c1 X r1] hmac_frame(2) [OF c2 X] by (auto simp: nv_string_def)
qed

lemma password_effect:
  assumes X: "sha2_laws X" and run: "check_password X D t arg s = Some r"
  shows "(\<exists>s'. r = Inl s' \<and> same_table s s') \<or> (\<exists>s' password. r = Inr s' \<and> same_table s s' \<and>
    nv_string D (a_calls s) ''web_password'' 256 = Some password \<and> arg = hmac_hex X t password)"
proof (subst disj_commute, rule disjCI)
  assume "\<not> (\<exists>s'. r = Inl s' \<and> same_table s s')"
  note fail = error_ends [OF this]
  obtain b pw where b: "nbd_nv_get D (a_calls s) ''web_password'' (uninit 256) 256 = Some (0, b)" "read_str b = Some pw"
    using run fail(1) [OF same_table_refl] by (auto simp: check_password_def bind_Some_iff split: if_splits)
  obtain r1 pm m1 where c1: "ewf_crypto_hmac_sha256_mac X t (Some pw) (ss_mem (a_sess s)) = Some (r1, pm, m1)"
    using run b by (auto simp: check_password_def bind_Some_iff)
  let ?s1 = "set_a_mem m1 s"
  have s1: "same_table s ?s1" using hmac_frame(1) [OF c1 X] same_table_spend by blast
  have "r1 = EWF_SUCCESS \<and> arg = pm \<and> r = Inr ?s1"
    using run b c1 fail(1) [OF s1] fail(2) [OF s1, of X "''204''" "''Invalid login and/or password''"] by (auto simp: check_password_def Let_def string_compare_eq split: if_splits)
  then show "\<exists>s' password. r = Inr s' \<and> same_table s s' \<and>
      nv_string D (a_calls s) ''web_password'' 256 = Some password \<and> arg = hmac_hex X t password"
    using b s1 hmac_frame(2) [OF c1 X] by (auto simp: nv_string_def)
qed

lemma passwd_effect:
  assumes X: "sha2_laws X" and hash: "NUL \<notin> set hash" and run: "check_passwd X D e d t hash s = Some s'"
  shows "same_table s s' \<or> passwd_ok X D (a_calls s) t hash \<and> (\<exists>s1. same_table s s1 \<and> accept_token X e d t s1 = Some s')"
proof (cases "length hash = 128")
  case True
  have "NUL \<notin> set (drop 64 hash)" using hash by (auto dest: in_set_dropD)
  then have cp: "bcopy 65 hash = Some (NBU_ERROR, take 64 hash)" "bcopy 65 (drop 64 hash) = Some (NBU_SUCCESS, drop 64 hash)"
    using hash True by (simp_all add: bcopy_ok)
  obtain l where l: "check_login X D t (take 64 hash) s = Some l" using run cp True by (auto simp: check_passwd_def bind_Some_iff)
  from login_effect [OF X l] show ?thesis
  proof (elim disjE exE conjE)
    fix s1 login assume s1: "l = Inr s1" "same_table s s1" "nv_string D (a_calls s) ''web_login'' 256 = Some login"
      "take 64 hash = hmac_hex X t (sha_hex X login)"
    have c: "a_calls s1 = a_calls s" using s1(2) by (simp add: same_table_def)
    obtain p where p: "check_password X D t (drop 64 hash) s1 = Some p" using run cp True l s1 by (auto simp: check_passwd_def bind_Some_iff)
    from password_effect [OF X p] show ?thesis
    proof (elim disjE exE conjE)
      fix s2 pw assume s2: "p = Inr s2" "same_table s1 s2" "nv_string D (a_calls s1) ''web_password'' 256 = Some pw"
        "drop 64 hash = hmac_hex X t pw"
      have "hash = hmac_hex X t (sha_hex X login) @ hmac_hex X t pw" using s1(4) s2(4) by (metis append_take_drop_id)
      then have "passwd_ok X D (a_calls s) t hash" using s1(3) s2(3) c by (simp add: passwd_ok_def)
      then show ?thesis using run cp True l s1 p s2 same_table_trans by (auto simp: check_passwd_def)
    qed (use run cp True l s1 p same_table_trans in \<open>auto simp: check_passwd_def\<close>)
  qed (use run cp True l in \<open>auto simp: check_passwd_def\<close>)
qed (use run in \<open>auto simp: check_passwd_def dest: same_table_error\<close>)

subsection \<open>The steps of a token\<close>

definition cleaned :: "int \<Rightarrow> stable \<Rightarrow> stable" where
  "cleaned now ps = filter (\<lambda>p. \<not> expired PRESESSION_TIMEOUT now (snd p)) ps"

lemma accept_effect:
  assumes T: "table (a_sess s) (qs @ (d, w) # rs)" and tv: "\<And>tv. ae_time e = Some tv \<Longrightarrow> time_ok tv"
    and run: "accept_token X e d t s = Some s'"
  shows "a_buffer s' = a_buffer s \<and> (table (a_sess s') (qs @ (d, w) # rs) \<or>
    (\<exists>tv. table (a_sess s') (qs @ (d, w\<lparr>s_activated := 1, s_tv := tv\<rparr>) # rs)))"
proof -
  obtain r ss where v: "api_session_validate d (ae_time e) (a_sess s) = Some (r, ss)" and s': "hdf_only (s\<lparr>a_sess := ss\<rparr>) s'"
    using run by (auto simp: accept_token_def bind_Some_iff dest: set_value_frame)
  show ?thesis using validate_effect [OF T tv v] hdf_onlyD [OF s'] by auto
qed

lemma choose_effect:
  assumes "choose_method X a s = Some m"
  shows "(\<exists>s'. m = Inl s' \<and> same_table s s') \<or>
    (\<exists>h. m = Inr (auth_button, h) \<and> (a = ''button'' \<or> a = ''all'' \<and> query_param X ''hash'' s = None)) \<or>
    (\<exists>h. m = Inr (auth_passwd, Some h) \<and> (a = ''passwd'' \<or> a = ''all'') \<and> query_param X ''hash'' s = Some h)"
  using assms by (auto simp: choose_method_def nbu_string_matches_def bind_Some_iff split: if_splits dest: same_table_error)

lemma check_session_effect:
  assumes X: "sha2_laws X" "query_strings X (a_hdf s)" and T: "table (a_sess s) ps" and ps: "ps = qs @ (d, w) # rs" "sid w = t"
    and b: "length (a_buffer s) = 256" and tv: "\<And>tv. ae_time e = Some tv \<Longrightarrow> time_ok tv"
    and run: "check_session X D e d t s = Some s'"
  shows "length (a_buffer s') = 256 \<and> (\<exists>ps'. table (a_sess s') ps' \<and>
    (ps' = ps \<or> ps' = remove_first t ps \<or> credential_ok X D s t \<and> accepted t ps ps'))"
proof -
  note T' = T [unfolded ps(1)]
  have t: "NUL \<notin> set t" using ps(2) by (auto simp: sid_def)
  have idle: ?thesis if "same_table s s'" using that b same_tableD [OF that T] by (auto simp: same_table_def)
  obtain r b0 where g: "nbd_nv_get D (a_calls s) ''web_auth'' (uninit 128) 128 = Some (r, b0)"
    using run by (auto simp: check_session_def bind_Some_iff)
  consider "same_table s s'"
    | r ss where "api_session_remove (Some t) (a_sess s) = Some (r, ss)" "hdf_only (s\<lparr>a_sess := ss\<rparr>) s'"
    | a m where "r = 0" "read_str b0 = Some a" "s_activated w \<noteq> 1" "choose_method X a s = Some m"
      "(case m of Inl s \<Rightarrow> Some s | Inr (auth_button, _) \<Rightarrow> check_button X D e d t s
        | Inr (auth_passwd, hash) \<Rightarrow> do { h \<leftarrow> hash; check_passwd X D e d t h s } | Inr _ \<Rightarrow> Some s) = Some s'"
    using run g table_split [OF T'] ps(2) by (auto simp: check_session_def bind_Some_iff Let_def sid_def split: if_splits
        dest: same_table_error custom_error_frame)
  then show ?thesis
  proof cases
    case 1
    then show ?thesis using idle by simp
  next
    case 2
    with api_remove_table [OF T t] have "table (a_sess s') (remove_first t ps)" by (auto dest: hdf_onlyD)
    then show ?thesis using 2 b by (auto dest: hdf_onlyD)
  next
    case 3
    then have a: "nv_string D (a_calls s) ''web_auth'' 128 = Some a" using g by (simp add: nv_string_def)
    have acc: "accepted t ps (qs @ (d, w\<lparr>s_activated := 1, s_tv := tv\<rparr>) # rs)" for tv
      using ps 3(3) unfolding accepted_def by blast
    consider (stop) s2 where "m = Inl s2" "same_table s s2"
      | (button) h where "m = Inr (auth_button, h)" "a = ''button'' \<or> a = ''all'' \<and> query_param X ''hash'' s = None"
      | (passwd) h where "m = Inr (auth_passwd, Some h)" "a = ''passwd'' \<or> a = ''all''" "query_param X ''hash'' s = Some h"
      using choose_effect [OF 3(4)] by blast
    then show ?thesis
    proof cases
      case stop
      then show ?thesis using 3(5) idle by simp
    next
      case button
      then have "check_button X D e d t s = Some s'" using 3(5) by simp
      from button_effect [OF T' b tv this] button(2) a acc ps(1) show ?thesis
        by (auto simp: credential_ok_def split: option.splits)
    next
      case (passwd h)
      have h: "NUL \<notin> set h" by (rule query_NUL [OF X(2) passwd(3)])
      have c: "check_passwd X D e d t h s = Some s'" using 3(5) passwd(1) by simp
      from passwd_effect [OF X(1) h c] show ?thesis
      proof (elim disjE conjE exE)
        fix s1 assume pw: "passwd_ok X D (a_calls s) t h" and s1: "same_table s s1" "accept_token X e d t s1 = Some s'"
        have "credential_ok X D s t" using pw a passwd by (auto simp: credential_ok_def)
        then show ?thesis using accept_effect [OF same_tableD [OF s1(1) T'] tv s1(2)] acc ps(1) s1(1) b
          by (auto simp: same_table_def)
      qed (simp add: idle)
    qed
  qed
qed

lemma cleaner_effect: "table st ps \<Longrightarrow> \<exists>n st'. api_session_cleaner now st = Some (n, st') \<and> table st' (cleaned now ps)"
  using api_cleaner_table unfolding cleaned_def by blast

lemma credential_sess [simp]: "credential_ok X D (s\<lparr>a_sess := ss\<rparr>) t = credential_ok X D s t"
  "query_param X n (s\<lparr>a_sess := ss\<rparr>) = query_param X n s"
  by (simp_all add: credential_ok_def query_param_def split: option.split)

lemma checkToken_effect:
  assumes X: "sha2_laws X" "query_strings X (a_hdf s)" and T: "table (a_sess s) ps" and b: "length (a_buffer s) = 256"
    and tv: "\<And>tv. ae_time e = Some tv \<Longrightarrow> time_ok tv" and run: "checkToken X D e s = Some s'"
  shows "length (a_buffer s') = 256 \<and> (\<exists>ps' t. table (a_sess s') ps' \<and>
    (ps' = cleaned (ae_clean e) ps \<or> ps' = remove_first t (cleaned (ae_clean e) ps) \<or>
     query_param X ''token'' s = Some t \<and> credential_ok X D s t \<and> accepted t (cleaned (ae_clean e) ps) ps'))"
proof -
  let ?ps = "cleaned (ae_clean e) ps"
  obtain n ss where c: "api_session_cleaner (ae_clean e) (a_sess s) = Some (n, ss)" "table ss ?ps"
    using cleaner_effect [OF T] by blast
  show ?thesis
  proof (cases "query_param X ''token'' s")
    case None
    then have "api_set_error X API_ERROR_NEED_ARG (s\<lparr>a_sess := ss\<rparr>) = Some s'" using run c by (simp add: checkToken_def)
    then show ?thesis using b c(2) by (auto dest!: error_frames)
  next
    case (Some t)
    then have t: "NUL \<notin> set t" using query_NUL [OF X(2)] by blast
    obtain st where st: "api_session_get (Some t) ss = Some (if lookup t ?ps = 0 then EWF_ERROR else EWF_SUCCESS,
        if lookup t ?ps = 0 then last (0 # map fst ?ps) else lookup t ?ps, st)" "table st ?ps"
      using api_session_get_ok [OF c(2) t] by blast
    show ?thesis
    proof (cases "lookup t ?ps = 0")
      case True
      then have "api_set_custom_error X ''201'' ''Invalid session'' (s\<lparr>a_sess := st\<rparr>) = Some s'"
        using run c(1) st(1) Some by (simp add: checkToken_def del: last.simps)
      then show ?thesis using b st(2) by (auto dest!: error_frames)
    next
      case False
      then obtain qs w rs where w: "?ps = qs @ (lookup t ?ps, w) # rs" "sid w = t"
        using lookup_cases [of ?ps t] by metis
      have "check_session X D e (lookup t ?ps) t (s\<lparr>a_sess := st\<rparr>) = Some s'"
        using run c(1) st(1) Some False by (simp add: checkToken_def del: last.simps)
      from check_session_effect [OF X(1) _ _ w(1,2) _ tv this] X(2) st(2) b Some show ?thesis by (simp, metis)
    qed
  qed
qed

lemma sint_small: "k \<le> 65 \<Longrightarrow> sint (of_nat k :: u32) = int k"
  by (simp add: sint_u32 unsigned_of_nat take_bit_nat_eq_self)

lemma note_auth_off_frame: "note_auth_off X D s = Some s' \<Longrightarrow> hdf_only s s'"
  by (auto simp: note_auth_off_def bind_Some_iff split: if_splits dest: custom_error_frame)

lemma nv_get_length: "nbd_nv_get D h k b n = Some (r, b') \<Longrightarrow> length b = unat n \<Longrightarrow> length b' = length b"
  by (auto simp: nbd_nv_get_def nbd_get_Some answer_spec_def split: if_splits)

lemma new_token_effect:
  assumes T: "table (a_sess s) ps" and b: "length (a_buffer s) = 256"
    and tv: "\<And>tv. ae_time e = Some tv \<Longrightarrow> time_ok tv" and run: "new_token X D e s = Some s'"
  shows "length (a_buffer s') = 256 \<and> (table (a_sess s') ps \<or>
    length (ae_rdm e) = 20 \<and> (\<exists>d tv. table (a_sess s') (ps @ [(d, token_session (ae_rdm e) tv)])))"
proof -
  obtain r bf ss where c: "api_session_create (ae_time e) (ae_rdm e) (a_buffer s) 256 (a_sess s) = Some (r, bf, ss)"
    using run by (auto simp: new_token_def bind_Some_iff)
  note cr = create_effect [OF T b tv c]
  let ?s = "s\<lparr>a_buffer := bf, a_sess := ss\<rparr>"
  have "a_sess s' = ss \<and> length (a_buffer s') = 256"
  proof (cases "r = EWF_SUCCESS")
    case False
    then have "api_set_error X API_ERROR_UNKNOWN ?s = Some s'" using run c by (simp add: new_token_def)
    then show ?thesis using cr by (auto dest: error_frames)
  next
    case True
    obtain t s1 r2 b2 where s1: "api_set_value X ''auth.token'' (Some t) ?s = Some s1"
      "nbd_nv_get D (a_calls s1) ''web_auth'' (a_buffer s1) 256 = Some (r2, b2)"
      and s': "hdf_only (s1\<lparr>a_buffer := b2\<rparr>) s'"
      using run c True by (auto simp: new_token_def bind_Some_iff Let_def split: if_splits dest: set_value_frame)
    then show ?thesis
      using cr hdf_onlyD [OF s'] hdf_onlyD [OF set_value_frame [OF s1(1)]] nv_get_length [OF s1(2)] by simp
  qed
  then show ?thesis using cr by blast
qed

lemma getToken_effect:
  assumes T: "table (a_sess s) ps" and b: "length (a_buffer s) = 256" and n: "length ps \<le> 65"
    and tv: "\<And>tv. ae_time e = Some tv \<Longrightarrow> time_ok tv" and run: "getToken X D e s = Some s'"
  shows "length (a_buffer s') = 256 \<and> (\<exists>ps'. table (a_sess s') ps' \<and>
    (ps' = cleaned (ae_clean e) ps \<or> ps' = cleaned (ae_clean2 e) (cleaned (ae_clean e) ps) \<or>
     length (cleaned (ae_clean e) ps) \<le> 64 \<and> length (ae_rdm e) = 20 \<and>
     (\<exists>d tv. ps' = cleaned (ae_clean e) ps @ [(d, token_session (ae_rdm e) tv)])))"
proof -
  let ?ps = "cleaned (ae_clean e) ps"
  obtain n ss where c: "api_session_cleaner (ae_clean e) (a_sess s) = Some (n, ss)" "table ss ?ps"
    using cleaner_effect [OF T] by blast
  have len: "length ?ps \<le> 65" using n unfolding cleaned_def by (rule le_trans [OF length_filter_le])
  then have cnt: "api_session_count ss = Some (of_nat (length ?ps))" "sint (of_nat (length ?ps) :: u32) = int (length ?ps)"
    using objs_at_count [OF c(2) [unfolded table_def table_at_def, THEN conjunct1]]
    by (simp_all only: api_session_count_def sint_small)
  show ?thesis
  proof (cases "length ?ps \<le> 64")
    case False
    then obtain s1 k ss1 where s1: "api_set_custom_error X ''201'' ''Max token reached'' (s\<lparr>a_sess := ss\<rparr>) = Some s1"
      "api_session_cleaner (ae_clean2 e) (a_sess s1) = Some (k, ss1)" "s' = s1\<lparr>a_sess := ss1\<rparr>"
      using run c(1) cnt by (auto simp: getToken_def bind_Some_iff)
    note f = custom_error_frame [OF s1(1), THEN hdf_onlyD]
    then show ?thesis using cleaner_effect [of "a_sess s1" ?ps "ae_clean2 e"] c(2) s1 b by auto
  next
    case True
    then obtain s1 where s1: "note_auth_off X D (s\<lparr>a_sess := ss\<rparr>) = Some s1" "new_token X D e s1 = Some s'"
      using run c(1) cnt by (auto simp: getToken_def bind_Some_iff)
    note f = hdf_onlyD [OF note_auth_off_frame [OF s1(1)]]
    have "table (a_sess s1) ?ps" "length (a_buffer s1) = 256" using f c(2) b by simp_all
    from new_token_effect [OF this tv s1(2)] True show ?thesis by blast
  qed
qed

subsection \<open>The decision of the dispatcher\<close>

definition auth_off :: "nbd_daemon \<Rightarrow> calls \<Rightarrow> bool" where
  "auth_off D h \<longleftrightarrow> nv_string D h ''web_auth'' 64 = Some ''off''"

text \<open>The token of the request belongs to an activated session that is not older than the time-out.\<close>

definition token_live :: "'h ewf_ext \<Rightarrow> timeval option \<Rightarrow> 'h api \<Rightarrow> stable \<Rightarrow> bool" where
  "token_live X time s ps \<longleftrightarrow> (case (query_param X ''token'' s, time) of
      (Some t, Some tv) \<Rightarrow> \<exists>(d, w) \<in> set ps. sid w = t \<and> s_activated w \<noteq> 0 \<and> tv_sec tv \<le> tv_sec (s_tv w) + SESSION_TIMEOUT
    | _ \<Rightarrow> False)"

definition refreshed :: "stable \<Rightarrow> stable \<Rightarrow> bool" where
  "refreshed ps ps' \<longleftrightarrow> (\<exists>qs d w rs tv. ps = qs @ (d, w) # rs \<and> ps' = qs @ (d, w\<lparr>s_tv := tv\<rparr>) # rs)"

lemma check_effect:
  assumes T: "table st ps" and ps: "ps = qs @ (d, w) # rs" and tv: "\<And>tv. time = Some tv \<Longrightarrow> time_ok tv"
    and run: "api_session_check d time st = Some (r, st')"
  shows "\<exists>ps'. table st' ps' \<and> (ps' = ps \<or> ps' = remove_first (sid w) ps \<or> refreshed ps ps') \<and>
    (r = EWF_SUCCESS \<longrightarrow> (\<exists>tv. time = Some tv \<and> s_activated w \<noteq> 0 \<and> tv_sec tv \<le> tv_sec (s_tv w) + SESSION_TIMEOUT))"
proof (cases "time = None \<or> s_activated w = 0")
  case True
  then show ?thesis using run T table_split [OF T [unfolded ps]] by (auto simp: api_session_check_def split: option.splits)
next
  case False
  then obtain tv0 where t: "time = Some tv0" "s_activated w \<noteq> 0" by (cases time) auto
  note w = table_split [OF T [unfolded ps]]
  have add: "s32_add (tv_sec (s_tv w)) SESSION_TIMEOUT = Some (tv_sec (s_tv w) + SESSION_TIMEOUT)"
    using w(2) by (auto simp: session_ok_def s32_add_def)
  show ?thesis
  proof (cases "tv_sec tv0 \<le> tv_sec (s_tv w) + SESSION_TIMEOUT")
    case True
    have "session_ok (w\<lparr>s_tv := tv0\<rparr>)" using w(2) tv [OF t(1)] by (simp add: session_ok_def time_ok_def)
    from table_update [OF T [unfolded ps] this] have "table st' (qs @ (d, w\<lparr>s_tv := tv0\<rparr>) # rs)"
      using run w add t True by (simp add: api_session_check_def)
    moreover have "refreshed ps (qs @ (d, w\<lparr>s_tv := tv0\<rparr>) # rs)" using ps unfolding refreshed_def by blast
    ultimately show ?thesis using t True by blast
  next
    case False
    have "NUL \<notin> set (sid w)" by (simp add: sid_def)
    with api_remove_table [OF T this] have "table st' (remove_first (sid w) ps) \<and> r = EWF_ERROR"
      using run w add t False by (auto simp: api_session_check_def bind_Some_iff sid_def)
    then show ?thesis by auto
  qed
qed

lemma authoriz_private:
  assumes "handle_authoriz X D time API_ACCESS_POLICY_PRIVATE s = Some z" and "\<not> auth_off D (a_calls s)"
  shows "authoriz_token X time s = Some z"
  using assms by (auto simp: handle_authoriz_def auth_off_def nv_string_def nbu_string_matches_def bind_Some_iff split: if_splits)

lemma authoriz_open:
  assumes "handle_authoriz X D time policy s = Some (ok, s')" and "policy = API_ACCESS_POLICY_PUBLIC \<or> auth_off D (a_calls s)"
  shows "ok \<and> s' = s"
  using assms by (auto simp: handle_authoriz_def auth_off_def nv_string_def nbu_string_matches_def bind_Some_iff split: if_splits)

lemma authoriz_effect:
  assumes X: "query_strings X (a_hdf s)" and T: "table (a_sess s) ps" and tv: "\<And>tv. time = Some tv \<Longrightarrow> time_ok tv"
    and run: "handle_authoriz X D time policy s = Some (ok, s')"
  shows "a_buffer s' = a_buffer s \<and> a_calls s' = a_calls s \<and> (\<exists>ps' t. table (a_sess s') ps' \<and>
    (ps' = ps \<or> ps' = remove_first t ps \<or> refreshed ps ps')) \<and>
    (ok \<longrightarrow> a_hdf s' = a_hdf s \<and> (policy = API_ACCESS_POLICY_PUBLIC \<or> auth_off D (a_calls s) \<or> token_live X time s ps))"
proof (cases "policy = API_ACCESS_POLICY_PUBLIC \<or> auth_off D (a_calls s)")
  case True
  then show ?thesis using T authoriz_open [OF run True] by blast
next
  case False
  then have "policy = API_ACCESS_POLICY_PRIVATE" by (cases policy) auto
  note run' = authoriz_private [OF run [unfolded this]]
  have refused: ?thesis if "\<not> ok" "api_set_error X API_ERROR_NEED_AUTH (s\<lparr>a_sess := ss\<rparr>) = Some s'" "table ss ps'"
    "ps' = ps \<or> ps' = remove_first t ps \<or> refreshed ps ps'" for ss ps' t
  proof -
    have "a_sess s' = ss \<and> a_buffer s' = a_buffer s \<and> a_calls s' = a_calls s" using error_frames(1) [OF that(2)] by simp
    then show ?thesis using that by blast
  qed
  show ?thesis
  proof (cases "query_param X ''token'' s")
    case None
    then have "\<not> ok" "api_set_error X API_ERROR_NEED_AUTH (s\<lparr>a_sess := a_sess s\<rparr>) = Some s'"
      using run' False by (auto simp: authoriz_token_def bind_Some_iff)
    then show ?thesis using T by (rule refused) blast
  next
    case (Some t)
    then have t: "NUL \<notin> set t" using query_NUL [OF X] by blast
    obtain st where st: "api_session_get (Some t) (a_sess s) = Some (if lookup t ps = 0 then EWF_ERROR else EWF_SUCCESS,
        if lookup t ps = 0 then last (0 # map fst ps) else lookup t ps, st)" "table st ps"
      using api_session_get_ok [OF T t] by blast
    show ?thesis
    proof (cases "lookup t ps = 0")
      case True
      then have "\<not> ok" "api_set_error X API_ERROR_NEED_AUTH (s\<lparr>a_sess := st\<rparr>) = Some s'"
        using run' False Some st(1) by (auto simp: authoriz_token_def bind_Some_iff simp del: last.simps)
      then show ?thesis using st(2) by (rule refused) blast
    next
      case found: False
      then obtain qs w rs where w: "ps = qs @ (lookup t ps, w) # rs" "sid w = t" using lookup_cases [of ps t] by metis
      obtain r ss where c: "api_session_check (lookup t ps) time st = Some (r, ss)"
        and fin: "\<not> ok \<and> api_set_error X API_ERROR_NEED_AUTH (s\<lparr>a_sess := ss\<rparr>) = Some s' \<or> ok \<and> r = EWF_SUCCESS \<and> s' = s\<lparr>a_sess := ss\<rparr>"
        using run' False Some st(1) found by (auto simp: authoriz_token_def bind_Some_iff Let_def simp del: last.simps split: if_splits)
      have "(lookup t ps, w) \<in> set ps" using w(1) by (metis in_set_conv_decomp)
      then have live: "token_live X time s ps" if "time = Some tv" "s_activated w \<noteq> 0" "tv_sec tv \<le> tv_sec (s_tv w) + SESSION_TIMEOUT" for tv
        using that w(2) Some by (auto simp: token_live_def)
      obtain ps' where ps': "table ss ps'" "ps' = ps \<or> ps' = remove_first t ps \<or> refreshed ps ps'"
        "r = EWF_SUCCESS \<Longrightarrow> token_live X time s ps"
        using check_effect [OF st(2) w(1) tv c] live w(2) by blast
      show ?thesis
      proof (cases ok)
        case True
        then show ?thesis using fin ps' by auto
      next
        case False
        then show ?thesis using fin by (intro refused [OF _ _ ps'(1,2)]) auto
      qed
    qed
  qed
qed

end
