(* ===== verification/Api_Main.thy ===== *)
theory Api_Main
  imports Api_Auth
begin

text \<open>
  Requests to the REST API, one after the other.  A request is a sequence of steps of an
  abstract table of tokens: sessions go away or are refreshed, a token is created, or a token that the
  request presents with the right credential is activated.  It follows what holds after every
  sequence of requests, and that a private method runs only for the token of a live session.
\<close>

subsection \<open>The abstract table of tokens\<close>

definition ids :: "stable \<Rightarrow> (string \<times> int) set" where
  "ids ps = (\<lambda>(d, w). (sid w, s_activated w)) ` set ps"

definition kept :: "stable \<Rightarrow> stable \<Rightarrow> bool" where
  "kept ps ps' \<longleftrightarrow> length ps' \<le> length ps \<and> ids ps' \<subseteq> ids ps"

inductive token_step :: "string set \<Rightarrow> stable \<Rightarrow> stable \<Rightarrow> bool" for A where
  keep: "kept ps ps' \<Longrightarrow> token_step A ps ps'"
| create: "length ps \<le> 64 \<Longrightarrow> length bytes = 20 \<Longrightarrow> token_step A ps (ps @ [(d, token_session bytes tv)])"
| accept: "t \<in> A \<Longrightarrow> accepted t ps ps' \<Longrightarrow> token_step A ps ps'"

inductive_cases token_stepE: "token_step A ps ps'"

text \<open>A token is 20 bytes in hexadecimal; only tokens of \<open>A\<close> are activated.\<close>

definition token_good :: "string set \<Rightarrow> string \<times> int \<Rightarrow> bool" where
  "token_good A p \<longleftrightarrow> (\<exists>bytes. length bytes = 20 \<and> fst p = hex_id bytes) \<and> (snd p \<noteq> 0 \<longrightarrow> fst p \<in> A)"

definition token_inv :: "string set \<Rightarrow> stable \<Rightarrow> bool" where
  "token_inv A ps \<longleftrightarrow> length ps \<le> 65 \<and> (\<forall>p \<in> ids ps. token_good A p)"

lemma ids_simps [simp]: "ids [] = {}" "ids ((d, w) # ps) = insert (sid w, s_activated w) (ids ps)" "ids (ps @ qs) = ids ps \<union> ids qs"
  by (auto simp: ids_def)

lemma kept_refl [simp]: "kept ps ps"
  by (simp add: kept_def)

lemma kept_trans: "kept a b \<Longrightarrow> kept b c \<Longrightarrow> kept a c"
  by (auto simp: kept_def)

lemma kept_cleaned: "kept ps (cleaned now ps)"
  by (auto simp: kept_def ids_def cleaned_def)

lemma kept_remove_first: "kept ps (remove_first i ps)"
proof (cases rule: lookup_cases [of ps i])
  case (found qs d w rs)
  then show ?thesis unfolding found(1,5) by (auto simp: kept_def ids_def)
qed simp

lemma kept_refreshed: "refreshed ps ps' \<Longrightarrow> kept ps ps'"
  by (auto simp: refreshed_def kept_def ids_def sid_def)

lemma token_step_inv:
  assumes "token_step A ps ps'" and inv: "token_inv A ps"
  shows "token_inv A ps'"
  using assms(1)
proof cases
  case keep
  then show ?thesis using inv unfolding kept_def token_inv_def by (meson le_trans subsetD)
next
  case (create bytes d tv)
  have "token_good A (hex_id bytes, 0)" using create(3) unfolding token_good_def by auto
  then show ?thesis using inv create(2) unfolding create(1) token_inv_def by simp
next
  case (accept t)
  then obtain qs d w rs tv where ps: "ps = qs @ (d, w) # rs" "sid w = t" "ps' = qs @ (d, w\<lparr>s_activated := 1, s_tv := tv\<rparr>) # rs"
    unfolding accepted_def by blast
  have "sid (w\<lparr>s_activated := 1, s_tv := tv\<rparr>) = t" using ps(2) by (simp add: sid_def)
  moreover have "token_good A (t, 1)" using inv accept(1) unfolding ps(1) token_inv_def token_good_def by (auto simp: ps(2))
  ultimately show ?thesis using inv unfolding ps(1,3) token_inv_def by simp
qed

lemma token_steps_inv: "(token_step A)\<^sup>*\<^sup>* ps ps' \<Longrightarrow> token_inv A ps \<Longrightarrow> token_inv A ps'"
  by (induction rule: rtranclp_induct) (auto intro: token_step_inv)

lemma token_inv_mono: "token_inv A ps \<Longrightarrow> A \<subseteq> B \<Longrightarrow> token_inv B ps"
  unfolding token_inv_def token_good_def by blast

lemma token_inv_length: "token_inv A ps \<Longrightarrow> length ps \<le> 65"
  by (simp add: token_inv_def)

lemma token_steps_mono: "(token_step A)\<^sup>*\<^sup>* ps ps' \<Longrightarrow> A \<subseteq> B \<Longrightarrow> (token_step B)\<^sup>*\<^sup>* ps ps'"
  by (rule rtranclp_mono [THEN predicate2D, rotated]) (auto elim!: token_stepE intro: token_step.intros)

lemma kept_star: "kept ps ps' \<Longrightarrow> (token_step A)\<^sup>*\<^sup>* ps ps'"
  by (auto intro: token_step.intros)

lemmas kept_steps = kept_cleaned [THEN kept_star] kept_remove_first [THEN kept_star] kept_refreshed [THEN kept_star]

subsection \<open>Methods\<close>

definition session_free :: "'h action \<Rightarrow> bool" where
  "session_free act \<longleftrightarrow> (\<forall>s s'. act s = Some s' \<longrightarrow> a_sess s' = a_sess s \<and> length (a_buffer s') = length (a_buffer s))"

definition presented :: "'h ewf_ext \<Rightarrow> nbd_daemon \<Rightarrow> 'h api \<Rightarrow> string set" where
  "presented X D s = {t. query_param X ''token'' s = Some t \<and> credential_ok X D s t}"

definition times_ok :: "'h request \<Rightarrow> bool" where
  "times_ok rq \<longleftrightarrow> (\<forall>tv. rq_time rq = Some tv \<or> ae_time (rq_env rq) = Some tv \<longrightarrow> time_ok tv)"

definition cgi_strings :: "'h ewf_ext \<Rightarrow> 'h cgi_ext \<Rightarrow> bool" where
  "cgi_strings X C \<longleftrightarrow> query_strings X (cgi_init C) \<and> (\<forall>h. query_strings X h \<longrightarrow> query_strings X (cgi_parse C h))"

lemma cgi_stringsD: "cgi_strings X C \<Longrightarrow> query_strings X (cgi_init C)"
  "cgi_strings X C \<Longrightarrow> query_strings X h \<Longrightarrow> query_strings X (cgi_parse C h)"
  by (simp_all add: cgi_strings_def)

text \<open>The two methods for tokens, and any other that leaves the sessions alone.\<close>

definition method_ok :: "'h ewf_ext \<Rightarrow> 'h request \<Rightarrow> 'h api_method \<Rightarrow> bool" where
  "method_ok X rq m \<longleftrightarrow> (\<forall>act. am_action_handler m = Some act \<longrightarrow>
     act = getToken X (rq_daemon rq) (rq_env rq) \<or>
     act = checkToken X (rq_daemon rq) (rq_env rq) \<and> am_request_method m = METHOD_GET \<or> session_free act)"

definition methods_ok :: "'h ewf_ext \<Rightarrow> 'h request \<Rightarrow> 'h api_method hsearch_data \<Rightarrow> bool" where
  "methods_ok X rq t \<longleftrightarrow> (\<forall>(n, m) \<in> set (ht_entries t). method_ok X rq m)"

lemma getToken_steps:
  assumes "table (a_sess s) ps" and "length (a_buffer s) = 256" and "length ps \<le> 65" and "times_ok rq"
    and "getToken X D (rq_env rq) s = Some s'"
  shows "length (a_buffer s') = 256 \<and> (\<exists>ps'. table (a_sess s') ps' \<and> (token_step A)\<^sup>*\<^sup>* ps ps')"
proof -
  let ?c = "cleaned (ae_clean (rq_env rq)) ps"
  obtain ps' where ps': "length (a_buffer s') = 256" "table (a_sess s') ps'"
    "ps' = ?c \<or> ps' = cleaned (ae_clean2 (rq_env rq)) ?c \<or>
     length ?c \<le> 64 \<and> length (ae_rdm (rq_env rq)) = 20 \<and> (\<exists>d tv. ps' = ?c @ [(d, token_session (ae_rdm (rq_env rq)) tv)])"
    using getToken_effect [OF assms(1-3) _ assms(5)] assms(4) by (auto simp: times_ok_def)
  have "(token_step A)\<^sup>*\<^sup>* ?c ps'" using ps'(3) by (auto intro: kept_steps token_step.create)
  then show ?thesis using ps'(1,2) rtranclp_trans [OF kept_steps(1)] by blast
qed

lemma checkToken_steps:
  assumes "sha2_laws X" and "query_strings X (a_hdf s)" and "table (a_sess s) ps" and "length (a_buffer s) = 256" and "times_ok rq"
    and "checkToken X D (rq_env rq) s = Some s'"
  shows "length (a_buffer s') = 256 \<and> (\<exists>ps'. table (a_sess s') ps' \<and> (token_step (presented X D s))\<^sup>*\<^sup>* ps ps')"
proof -
  let ?c = "cleaned (ae_clean (rq_env rq)) ps"
  obtain ps' t where ps': "length (a_buffer s') = 256" "table (a_sess s') ps'"
    "ps' = ?c \<or> ps' = remove_first t ?c \<or> query_param X ''token'' s = Some t \<and> credential_ok X D s t \<and> accepted t ?c ps'"
    using checkToken_effect [OF assms(1-4) _ assms(6)] assms(5) by (auto simp: times_ok_def)
  have "(token_step (presented X D s))\<^sup>*\<^sup>* ?c ps'" using ps'(3) by (auto intro: kept_steps token_step.accept simp: presented_def)
  then show ?thesis using ps'(1,2) rtranclp_trans [OF kept_steps(1)] by blast
qed

subsection \<open>One request\<close>

lemma set_byte_length: "set_byte b i c = Some b' \<Longrightarrow> length b' = length b"
  by (auto simp: set_byte_def split: if_splits)

lemma printf_length: "nbu_string_printf (Some b) n t = Some (r, Some b') \<Longrightarrow> length b' = length b"
  by (auto simp: nbu_string_printf_def nbu_string_vprintf_def snprintf_def bind_Some_iff Let_def
      split: if_splits option.splits dest!: set_byte_length dest: blit_length)

lemma set_buffer_frame:
  "set_buffer t s = Some s' \<Longrightarrow> a_sess s' = a_sess s \<and> length (a_buffer s') = length (a_buffer s) \<and> a_calls s' = a_calls s"
  by (auto simp: set_buffer_def bind_Some_iff dest: printf_length)

text \<open>What leaves everything but the answer alone.\<close>

definition quiet :: "'h ewf_ext \<Rightarrow> 'h api \<Rightarrow> 'h api \<Rightarrow> bool" where
  "quiet X s s' \<longleftrightarrow> a_sess s' = a_sess s \<and> a_buffer s' = a_buffer s \<and> a_calls s' = a_calls s \<and>
     (\<forall>n. query_param X n s' = query_param X n s)"

lemma quiet_refl [simp]: "quiet X s s"
  by (simp add: quiet_def)

lemma quiet_strings: "quiet X s s' \<Longrightarrow> query_strings X (a_hdf s') = query_strings X (a_hdf s)"
  by (simp add: quiet_def query_strings_def query_param_def)

lemma quiet_trans: "quiet X a b \<Longrightarrow> quiet X b c \<Longrightarrow> quiet X a c"
  by (simp add: quiet_def)

lemma quiet_set_value:
  assumes "hdf_laws X" and "length n < 64" and "NUL \<notin> set n" and "take 6 n \<noteq> ''Query.''"
    and "api_set_value X n v s = Some s'"
  shows "quiet X s s'"
proof (cases v)
  case (Some t)
  have "''Query.'' @ q \<noteq> n" for q using assms(4) by auto
  then show ?thesis using Some assms by (auto simp: api_set_value_def bprintf_ok quiet_def query_param_def)
qed (use assms in \<open>simp add: api_set_value_def\<close>)

lemma quiet_custom_error:
  assumes X: "hdf_laws X" and "api_set_custom_error X i t s = Some s'"
  shows "quiet X s s'"
proof -
  obtain s1 s2 where run: "api_set_value X ''stat'' (Some ''fail'') s = Some s1" "api_set_value X ''err.code'' (Some i) s1 = Some s2"
    "api_set_value X ''err.msg'' (Some t) s2 = Some s'"
    using assms(2) by (auto simp: api_set_custom_error_def bind_Some_iff)
  have "quiet X s s1" "quiet X s1 s2" "quiet X s2 s'"
    by (rule quiet_set_value [OF X _ _ _ run(1)] quiet_set_value [OF X _ _ _ run(2)] quiet_set_value [OF X _ _ _ run(3)]; simp)+
  then show ?thesis by (blast intro: quiet_trans)
qed

lemma quiet_fail:
  assumes "hdf_laws X" and "api_fail X e s = Some s'"
  shows "quiet X s s'"
  using assms by (auto simp: api_fail_def api_set_error_def bind_Some_iff ewf_fastcgi_display_def quiet_def query_param_def
      dest!: quiet_custom_error)

lemma quiet_values:
  assumes X: "hdf_laws X" and "dispatch_values X boxname s = Some s'"
  shows "quiet X s s'"
proof -
  obtain s1 s2 where run: "api_set_value X ''version'' (Some ''1.0'') s = Some s1" "api_set_value X ''env.uname'' (Some boxname) s1 = Some s2"
    "api_set_value X ''cgiout.ContentType'' (Some ''text/xml'') s2 = Some s'"
    using assms(2) by (auto simp: dispatch_values_def bind_Some_iff)
  have "quiet X s s1" "quiet X s1 s2" "quiet X s2 s'"
    by (rule quiet_set_value [OF X _ _ _ run(1)] quiet_set_value [OF X _ _ _ run(2)] quiet_set_value [OF X _ _ _ run(3)]; simp)+
  then show ?thesis by (blast intro: quiet_trans)
qed

lemma quiet_upgrading:
  assumes "hdf_laws X" and "handle_upgrading X D s = Some s'"
  shows "quiet X s s'"
  using assms by (auto simp: handle_upgrading_def bind_Some_iff split: if_splits dest: quiet_fail)

lemma presented_quiet: "quiet X s s' \<Longrightarrow> presented X D s' = presented X D s"
  by (simp add: presented_def credential_ok_def quiet_def cong: option.case_cong)

lemma presented_sess [simp]: "presented X D (s\<lparr>a_sess := ss\<rparr>) = presented X D s"
  by (simp add: presented_def)

lemma action_steps:
  assumes X: "sha2_laws X" "query_strings X (a_hdf s)" and T: "table (a_sess s) ps" "length (a_buffer s) = 256" "length ps \<le> 65" "times_ok rq"
    and act: "act = getToken X (rq_daemon rq) (rq_env rq) \<or> act = checkToken X (rq_daemon rq) (rq_env rq) \<and> presented X (rq_daemon rq) s \<subseteq> A
      \<or> session_free act"
    and run: "handle_action X reqm name act s = Some s'"
  shows "length (a_buffer s') = 256 \<and> (\<exists>ps'. table (a_sess s') ps' \<and> (token_step A)\<^sup>*\<^sup>* ps ps')"
proof -
  obtain s1 where s1: "act s = Some s1" using run by (auto simp: handle_action_def bind_Some_iff)
  have fr: "a_sess s' = a_sess s1 \<and> length (a_buffer s') = length (a_buffer s1)"
    using run s1 by (auto simp: handle_action_def bind_Some_iff split: if_splits dest!: set_buffer_frame error_frames(3))
  from act show ?thesis
  proof (elim disjE conjE)
    assume "act = getToken X (rq_daemon rq) (rq_env rq)"
    then show ?thesis using getToken_steps [OF T] s1 fr by auto
  next
    assume "act = checkToken X (rq_daemon rq) (rq_env rq)" "presented X (rq_daemon rq) s \<subseteq> A"
    with checkToken_steps [OF X T(1,2,4)] s1 obtain ps' where "length (a_buffer s1) = 256" "table (a_sess s1) ps'"
      "(token_step (presented X (rq_daemon rq) s))\<^sup>*\<^sup>* ps ps'" by blast
    then show ?thesis using fr token_steps_mono [OF _ \<open>_ \<subseteq> A\<close>] by auto
  next
    assume "session_free act"
    then show ?thesis using s1 fr T by (auto simp: session_free_def)
  qed
qed

lemma request_steps:
  assumes X: "sha2_laws X" "query_strings X (a_hdf s)" "hdf_laws X" "cgi_strings X C"
    and T: "table (a_sess s) ps" "length (a_buffer s) = 256" "length ps \<le> 65" and tm: "times_ok rq" and m: "\<And>m'. m = Some m' \<Longrightarrow> method_ok X rq m'"
    and run: "api_handle_request X C (rq_daemon rq) (rq_time rq) m name s = Some s'"
  shows "length (a_buffer s') = 256 \<and> (\<exists>ps'. table (a_sess s') ps' \<and> (token_step (presented X (rq_daemon rq) s))\<^sup>*\<^sup>* ps ps')"
proof -
  have idle: ?thesis if "api_fail X e s = Some s'" for e using quiet_fail [OF X(3) that] T by (auto simp: quiet_def)
  show ?thesis
  proof (cases "\<exists>e. api_fail X e s = Some s'")
    case False
    then obtain m' reqm act where m': "m = Some m'" "ewf_http_request_method X (a_hdf s) = Some reqm" "reqm = am_request_method m'"
      "am_action_handler m' = Some act"
      using run by (auto simp: api_handle_request_def bind_Some_iff split: option.splits if_splits)
    obtain s1 where s1: "handle_upgrading X (rq_daemon rq) s = Some s1"
      using run m' by (auto simp: api_handle_request_def bind_Some_iff)
    define s2 where "s2 = (if reqm = METHOD_POST then s1\<lparr>a_hdf := cgi_parse C (a_hdf s1)\<rparr> else s1)"
    obtain ok s3 where s3: "handle_authoriz X (rq_daemon rq) (rq_time rq) (am_access_policy m') s2 = Some (ok, s3)"
      using run m' s1 by (auto simp: api_handle_request_def bind_Some_iff Let_def s2_def)
    obtain s4 t where s4: "(if \<not> ok then set_buffer ''api/generic.xml'' s3 else handle_action X reqm name act s3) = Some s4"
      "s' = ewf_fastcgi_display t s4"
      using run m' s1 s3 by (auto simp: api_handle_request_def bind_Some_iff Let_def s2_def)
    have q: "quiet X s s1" by (rule quiet_upgrading [OF X(3) s1])
    then have T2: "table (a_sess s2) ps" "length (a_buffer s2) = 256" using T by (auto simp: quiet_def s2_def)
    have "query_strings X (a_hdf s1)" using quiet_strings [OF q] X(2) by simp
    then have X2: "query_strings X (a_hdf s2)" using cgi_stringsD(2) [OF X(4)] by (simp add: s2_def)
    note au = authoriz_effect [OF X2 T2(1) _ s3]
    then obtain ps3 where ps3: "table (a_sess s3) ps3" "kept ps ps3" and fr: "a_buffer s3 = a_buffer s2"
      "ok \<Longrightarrow> a_hdf s3 = a_hdf s2" "a_calls s3 = a_calls s2"
      using tm kept_remove_first kept_refreshed by (fastforce simp: times_ok_def)
    have T3: "length (a_buffer s3) = 256" "length ps3 \<le> 65" using fr(1) T2(2) ps3(2) T(3) by (simp_all add: kept_def)
    have "length (a_buffer s4) = 256 \<and> (\<exists>ps'. table (a_sess s4) ps' \<and> (token_step (presented X (rq_daemon rq) s))\<^sup>*\<^sup>* ps3 ps')"
    proof (cases ok)
      case False
      then show ?thesis using s4(1) ps3(1) T3(1) by (auto dest!: set_buffer_frame)
    next
      case True
      have "presented X (rq_daemon rq) s3 \<subseteq> presented X (rq_daemon rq) s" if "reqm = METHOD_GET"
      proof -
        have c: "quiet X s1 (s3\<lparr>a_sess := a_sess s1\<rparr>)" using fr True that by (simp add: s2_def quiet_def query_param_def)
        show ?thesis using presented_quiet [OF c, of "rq_daemon rq"] presented_quiet [OF q, of "rq_daemon rq"] by simp
      qed
      then show ?thesis
        using action_steps [OF X(1) _ ps3(1) T3 tm _ s4(1) [simplified True simp_thms if_False], of "presented X (rq_daemon rq) s"]
          m [OF m'(1)] m'(3,4) True fr(2) X2 by (auto simp: method_ok_def)
    qed
    then show ?thesis using s4(2) rtranclp_trans [OF kept_star [OF ps3(2)]] by (auto simp: ewf_fastcgi_display_def)
  qed (use idle in blast)
qed

lemma serve_steps:
  assumes X: "sha2_laws X" "hdf_laws X" "cgi_strings X (rq_cgi rq)"
    and T: "table (a_sess s) ps" "length (a_buffer s) = 256" "length ps \<le> 65" and tm: "times_ok rq" and m: "methods_ok X rq methods"
    and run: "api_serve X (rq_cgi rq) (rq_daemon rq) (rq_time rq) boxname methods s = Some s'"
  shows "length (a_buffer s') = 256 \<and> (\<exists>ps'. table (a_sess s') ps' \<and>
    (token_step (presented X (rq_daemon rq) (s\<lparr>a_hdf := cgi_init (rq_cgi rq)\<rparr>)))\<^sup>*\<^sup>* ps ps')"
proof -
  let ?s0 = "s\<lparr>a_hdf := cgi_init (rq_cgi rq)\<rparr>"
  obtain s3 where s3: "dispatch_values X boxname ?s0 = Some s3" using run by (auto simp: api_serve_def api_dispatch_def bind_Some_iff)
  have q: "quiet X ?s0 s3" by (rule quiet_values [OF X(2) s3])
  then have T3: "table (a_sess s3) ps" "length (a_buffer s3) = 256" using T by (simp_all add: quiet_def)
  consider "api_fail X API_ERROR_METHOD_NOT_FOUND s3 = Some s'"
    | name m where "(name, m) \<in> set (ht_entries methods)"
        "api_handle_request X (rq_cgi rq) (rq_daemon rq) (rq_time rq) (Some m) name s3 = Some s'"
    using run s3 by (auto simp: api_serve_def api_dispatch_def bind_Some_iff ewf_hashtable_find_def
        split: if_splits option.splits dest: map_of_SomeD)
  then show ?thesis
  proof cases
    case 1
    then show ?thesis using quiet_fail [OF X(2) 1] T3 by (auto simp: quiet_def)
  next
    case 2
    then have "method_ok X rq m" using m by (auto simp: methods_ok_def)
    from request_steps [OF X(1) _ X(2,3) T3 T(3) tm _ 2(2)] this presented_quiet [OF q] quiet_strings [OF q]
      cgi_stringsD(1) [OF X(3)] show ?thesis by auto
  qed
qed

subsection \<open>Any number of requests\<close>

lemma api_main_append:
  "api_main X boxname M (as @ bs) s = do { s \<leftarrow> api_main X boxname M as s; api_main X boxname M bs s }"
proof (induction as arbitrary: s)
  case (Cons rq as)
  then show ?case by (cases "api_serve X (rq_cgi rq) (rq_daemon rq) (rq_time rq) boxname (M rq) s") simp_all
qed simp

text \<open>The tokens that some request presented with the right credential.\<close>

definition validated ::
  "'h ewf_ext \<Rightarrow> string \<Rightarrow> ('h request \<Rightarrow> 'h api_method hsearch_data) \<Rightarrow> 'h request list \<Rightarrow> 'h api \<Rightarrow> string set" where
  "validated X boxname M rqs s0 = {t. \<exists>pre rq post s. rqs = pre @ rq # post \<and> api_main X boxname M pre s0 = Some s \<and>
     t \<in> presented X (rq_daemon rq) (s\<lparr>a_hdf := cgi_init (rq_cgi rq)\<rparr>)}"

lemma validated_mono: "validated X boxname M rqs s0 \<subseteq> validated X boxname M (rqs @ [rq]) s0"
  unfolding validated_def by fastforce

lemma validated_last:
  "api_main X boxname M rqs s0 = Some s \<Longrightarrow> presented X (rq_daemon rq) (s\<lparr>a_hdf := cgi_init (rq_cgi rq)\<rparr>) \<subseteq> validated X boxname M (rqs @ [rq]) s0"
  unfolding validated_def by blast

lemma main_inv:
  assumes X: "sha2_laws X" "hdf_laws X" and T: "table (a_sess s0) []" "length (a_buffer s0) = 256"
    and rqs: "\<forall>rq \<in> set rqs. times_ok rq \<and> cgi_strings X (rq_cgi rq) \<and> methods_ok X rq (M rq)" and run: "api_main X boxname M rqs s0 = Some s"
  shows "length (a_buffer s) = 256 \<and> (\<exists>ps. table (a_sess s) ps \<and> token_inv (validated X boxname M rqs s0) ps)"
  using rqs run
proof (induction rqs arbitrary: s rule: rev_induct)
  case Nil
  then show ?case using T by (auto simp: token_inv_def)
next
  case (snoc rq rqs)
  then obtain s1 where s1: "api_main X boxname M rqs s0 = Some s1"
    "api_serve X (rq_cgi rq) (rq_daemon rq) (rq_time rq) boxname (M rq) s1 = Some s"
    by (auto simp: api_main_append bind_Some_iff)
  obtain ps where ps: "length (a_buffer s1) = 256" "table (a_sess s1) ps" "token_inv (validated X boxname M rqs s0) ps"
    using snoc.IH [OF _ s1(1)] snoc.prems(1) by auto
  obtain ps' where ps': "length (a_buffer s) = 256" "table (a_sess s) ps'"
    "(token_step (presented X (rq_daemon rq) (s1\<lparr>a_hdf := cgi_init (rq_cgi rq)\<rparr>)))\<^sup>*\<^sup>* ps ps'"
    using serve_steps [OF X _ ps(2,1) token_inv_length [OF ps(3)] _ _ s1(2)] snoc.prems(1) by auto
  have "token_inv (validated X boxname M (rqs @ [rq]) s0) ps'"
    by (rule token_steps_inv [OF token_steps_mono [OF ps'(3) validated_last [OF s1(1)]] token_inv_mono [OF ps(3) validated_mono]])
  then show ?case using ps' by blast
qed

subsection \<open>Private methods\<close>

text \<open>The table with another handler in every private method.\<close>

definition mask_method :: "'h action \<Rightarrow> 'h api_method \<Rightarrow> 'h api_method" where
  "mask_method act m = (if am_access_policy m = API_ACCESS_POLICY_PRIVATE \<and> am_action_handler m \<noteq> None
     then m\<lparr>am_action_handler := Some act\<rparr> else m)"

definition mask_private :: "'h action \<Rightarrow> 'h api_method hsearch_data \<Rightarrow> 'h api_method hsearch_data" where
  "mask_private act t = t\<lparr>ht_entries := map (\<lambda>(n, m). (n, mask_method act m)) (ht_entries t)\<rparr>"

definition token_dead :: "timeval option \<Rightarrow> stable \<Rightarrow> string option \<Rightarrow> bool" where
  "token_dead time ps t \<longleftrightarrow> (case (t, time) of
      (Some t, Some tv) \<Rightarrow> \<forall>(d, w) \<in> set ps. sid w = t \<longrightarrow> s_activated w = 0 \<or> tv_sec (s_tv w) + SESSION_TIMEOUT < tv_sec tv
    | _ \<Rightarrow> True)"

text \<open>What \<open>cgi_parse\<close> makes of the parameter \<open>token\<close>: the one of the body, if there is one.\<close>

definition post_token :: "'h ewf_ext \<Rightarrow> 'h cgi_ext \<Rightarrow> string option \<Rightarrow> bool" where
  "post_token X C body \<longleftrightarrow> (\<forall>h. hdf_get_value X (cgi_parse C h) ''Query.token'' =
     (if body = None then hdf_get_value X h ''Query.token'' else body))"

lemma token_dead_live: "token_live X time s ps \<longleftrightarrow> \<not> token_dead time ps (query_param X ''token'' s)"
  by (fastforce simp: token_live_def token_dead_def split: option.splits)

lemma refused_request:
  assumes X: "hdf_laws X" "query_strings X (a_hdf s)" "cgi_strings X C" and T: "table (a_sess s) ps" and tv: "\<And>tv. time = Some tv \<Longrightarrow> time_ok tv"
    and off: "\<not> auth_off D (a_calls s)" and body: "post_token X C body"
    and dead: "token_dead time ps (query_param X ''token'' s)" "token_dead time ps body"
  shows "api_handle_request X C D time (Some (mask_method act m)) name s = api_handle_request X C D time (Some m) name s"
proof (cases "am_access_policy m = API_ACCESS_POLICY_PRIVATE \<and> am_action_handler m \<noteq> None")
  case True
  then obtain a where a: "am_action_handler m = Some a" by blast
  show ?thesis
  proof (cases "handle_upgrading X D s")
    case None
    then show ?thesis using True a
      by (cases "ewf_http_request_method X (a_hdf s)") (simp_all add: mask_method_def api_handle_request_def)
  next
    case (Some s1)
    have q: "quiet X s s1" by (rule quiet_upgrading [OF X(1) Some])
    have no: "\<not> ok" if "handle_authoriz X D time API_ACCESS_POLICY_PRIVATE s2 = Some (ok, s3)"
      and s2: "s2 = s1 \<or> s2 = s1\<lparr>a_hdf := cgi_parse C (a_hdf s1)\<rparr>" for ok s2 s3
    proof -
      have "query_param X ''token'' s2 = query_param X ''token'' s \<or> query_param X ''token'' s2 = body"
        using q s2 body by (auto simp: quiet_def query_param_def post_token_def split: if_splits)
      then have "\<not> token_live X time s2 ps" using dead by (auto simp: token_dead_live)
      moreover have "table (a_sess s2) ps" "a_calls s2 = a_calls s" using q T s2 by (auto simp: quiet_def)
      moreover have "query_strings X (a_hdf s2)" using quiet_strings [OF q] X(2) cgi_stringsD(2) [OF X(3)] s2 by auto
      ultimately show ?thesis using authoriz_effect [OF _ _ tv that(1)] off by auto
    qed
    define s2 where "s2 r = (if r = METHOD_POST then s1\<lparr>a_hdf := cgi_parse C (a_hdf s1)\<rparr> else s1)" for r
    have "handle_authoriz X D time API_ACCESS_POLICY_PRIVATE (s2 r) = None \<or>
        (\<exists>s3. handle_authoriz X D time API_ACCESS_POLICY_PRIVATE (s2 r) = Some (False, s3))" for r
      using no [of "s2 r"] by (cases "handle_authoriz X D time API_ACCESS_POLICY_PRIVATE (s2 r)") (auto simp: s2_def)
    from this [of "am_request_method m"] show ?thesis
      using True a Some unfolding mask_method_def api_handle_request_def
      by (cases "ewf_http_request_method X (a_hdf s)") (auto simp: Let_def s2_def [symmetric])
  qed
qed (auto simp: mask_method_def)

lemma masked_entry: "map_of (ht_entries (mask_private act t)) name = map_option (mask_method act) (map_of (ht_entries t) name)"
  by (simp add: mask_private_def map_of_map)

lemma private_masked:
  assumes "hdf_laws X" and "cgi_strings X C" and "table (a_sess s) ps" and "\<And>tv. time = Some tv \<Longrightarrow> time_ok tv"
    and "\<not> auth_off D (a_calls s)" and "post_token X C body"
    and "token_dead time ps (hdf_get_value X (cgi_init C) ''Query.token'')" and "token_dead time ps body"
  shows "api_serve X C D time boxname (mask_private act methods) s = api_serve X C D time boxname methods s"
proof -
  let ?s0 = "s\<lparr>a_hdf := cgi_init C\<rparr>"
  show ?thesis
  proof (cases "dispatch_values X boxname ?s0")
    case (Some s3)
    have q: "quiet X ?s0 s3" by (rule quiet_values [OF assms(1) Some])
    have "api_handle_request X C D time (Some (mask_method act m)) name s3 = api_handle_request X C D time (Some m) name s3" for m name
      by (rule refused_request [OF assms(1) _ assms(2) _ assms(4) _ assms(6) _ assms(8)])
        (use q quiet_strings [OF q] cgi_stringsD(1) [OF assms(2)] assms(3,5,7) in \<open>auto simp: quiet_def query_param_def\<close>)
    then show ?thesis
      using Some by (auto simp: api_serve_def api_dispatch_def masked_entry ewf_hashtable_find_def split: option.splits)
  qed (simp add: api_serve_def api_dispatch_def)
qed

text \<open>
  C5: While authentication is not switched off, no handler of a private method runs for a request
  whose tokens, in the address and in the body, do not belong to an activated session younger than
  the time-out: the answer and the state after it are the same whatever the handlers are.
\<close>

theorem private_method_never_runs:
  assumes "hdf_laws X" and "cgi_strings X C" and "table (a_sess s) ps" and "\<And>tv. time = Some tv \<Longrightarrow> time_ok tv"
    and "\<not> auth_off D (a_calls s)" and "post_token X C body"
    and "token_dead time ps (hdf_get_value X (cgi_init C) ''Query.token'')" and "token_dead time ps body"
  shows "api_serve X C D time boxname (mask_private act methods) s = api_serve X C D time boxname methods s"
  using assms by (rule private_masked)

subsection \<open>The button\<close>

definition box_says :: "nbd_daemon \<Rightarrow> calls \<Rightarrow> string list \<Rightarrow> string \<Rightarrow> bool" where
  "box_says D h args v \<longleftrightarrow> D h args = (0, v) \<and> NUL \<notin> set v \<and> length v < 64"

lemma get_text:
  assumes "box_says D h args v" and "query_fits args" and "64 \<le> unat n" and "length b = unat n"
  shows "\<exists>b'. nbd_get D h args b n = Some (0, b') \<and> read_str b' = Some v \<and> length b' = length b"
proof (cases v)
  case Nil
  then show ?thesis using assms by (cases b) (auto simp: box_says_def nbd_get_Some answer_spec_def read_str_def c_str_def)
next
  case (Cons c cs)
  have "replicate (unat n - length v) NUL = NUL # replicate (unat n - length v - 1) NUL"
    using assms(1,3) by (cases "unat n - length v") (auto simp: box_says_def)
  moreover have "read_str (v @ NUL # x) = Some v" for x using assms(1) by (simp add: box_says_def)
  ultimately show ?thesis using assms Cons by (auto simp: box_says_def nbd_get_Some answer_spec_def)
qed

lemma web_auth_fits [simp]: "query_fits [''nvram'', ''get'', ''web_auth'']" "query_fits [''status'', ''get'', ''web_autologin'']"
  "query_fits [''nbctl'', ''halt_webautologin'']"
  by (simp_all add: query_fits_def query_room_def)

lemma lookup_first: "\<forall>(d, w) \<in> set qs. sid w \<noteq> sid w0 \<Longrightarrow> lookup (sid w0) (qs @ (d0, w0) # rs) = d0"
  by (induction qs) auto

lemma authoriz_grants:
  assumes T: "table (a_sess s) (qs @ (d, w) # rs)" and first: "\<forall>(d', w') \<in> set qs. sid w' \<noteq> sid w"
    and w: "s_activated w \<noteq> 0" "tv_sec tv \<le> tv_sec (s_tv w) + SESSION_TIMEOUT"
    and t: "query_param X ''token'' s = Some (sid w)" and a: "box_says D (a_calls s) [''nvram'', ''get'', ''web_auth''] a"
  shows "\<exists>s'. handle_authoriz X D (Some tv) policy s = Some (True, s')"
proof -
  note dw = table_split [OF T]
  have nul: "NUL \<notin> set (sid w)" by (simp add: sid_def)
  obtain b where b: "nbd_nv_get D (a_calls s) ''web_auth'' (uninit 64) 64 = Some (0, b)" "read_str b = Some a"
    using get_text [OF a, of 64 "uninit 64"] by (auto simp: nbd_nv_get_def uninit_def)
  obtain st where st: "api_session_get (Some (sid w)) (a_sess s) = Some (EWF_SUCCESS, d, st)" "table st (qs @ (d, w) # rs)"
    using api_session_get_ok [OF T nul] lookup_first [OF first] dw(3) by auto
  have "s32_add (tv_sec (s_tv w)) SESSION_TIMEOUT = Some (tv_sec (s_tv w) + SESSION_TIMEOUT)"
    using dw(2) by (auto simp: session_ok_def s32_add_def)
  then obtain ss where "api_session_check d (Some tv) st = Some (EWF_SUCCESS, ss)"
    using table_split [OF st(2)] w by (auto simp: api_session_check_def)
  then have "\<exists>s'. authoriz_token X (Some tv) s = Some (True, s')" using t st(1) by (simp add: authoriz_token_def)
  then show ?thesis using b by (auto simp: handle_authoriz_def)
qed

lemma cleaned_simps [simp]: "cleaned now (ps @ qs) = cleaned now ps @ cleaned now qs"
  "cleaned now ((d, w) # ps) = (if expired PRESESSION_TIMEOUT now w then cleaned now ps else (d, w) # cleaned now ps)"
  by (simp_all add: cleaned_def)

lemma button_activates:
  assumes T: "table (a_sess s) (qs @ (d, w) # rs)" and first: "\<forall>(d', w') \<in> set qs. sid w' \<noteq> sid w" and b: "length (a_buffer s) = 256"
    and w: "s_activated w \<noteq> 1" "\<not> expired PRESESSION_TIMEOUT (ae_clean e) w" "tv_sec (ae_check e) \<le> tv_sec (s_tv w) + PRESESSION_TIMEOUT"
    and t: "query_param X ''token'' s = Some (sid w)" and tv: "ae_time e = Some tv" "time_ok tv"
    and auth: "box_says D (a_calls s) [''nvram'', ''get'', ''web_auth''] a" "a = ''button'' \<or> a = ''all'' \<and> query_param X ''hash'' s = None"
    and on: "box_says D (a_calls s) [''status'', ''get'', ''web_autologin''] ''on''"
  shows "\<exists>s'. checkToken X D e s = Some s' \<and> a_calls s' = a_calls s @ [[''nbctl'', ''halt_webautologin'']] \<and>
    table (a_sess s') (cleaned (ae_clean e) qs @ (d, w\<lparr>s_activated := 1, s_tv := tv\<rparr>) # cleaned (ae_clean e) rs)"
proof -
  let ?qs = "cleaned (ae_clean e) qs" and ?rs = "cleaned (ae_clean e) rs"
  have nul: "NUL \<notin> set (sid w)" by (simp add: sid_def)
  have first': "\<forall>(d', w') \<in> set ?qs. sid w' \<noteq> sid w" using first by (auto simp: cleaned_def)
  obtain k st where st: "api_session_cleaner (ae_clean e) (a_sess s) = Some (k, st)" "table st (?qs @ (d, w) # ?rs)"
    using cleaner_effect [OF T, of "ae_clean e"] w(2) by auto
  note dw = table_split [OF st(2)]
  obtain st2 where st2: "api_session_get (Some (sid w)) st = Some (EWF_SUCCESS, d, st2)" "table st2 (?qs @ (d, w) # ?rs)"
    using api_session_get_ok [OF st(2) nul] lookup_first [OF first'] dw(3) by auto
  let ?s = "s\<lparr>a_sess := st2\<rparr>"
  obtain wa where wa: "nbd_nv_get D (a_calls s) ''web_auth'' (uninit 128) 128 = Some (0, wa)" "read_str wa = Some a"
    using get_text [OF auth(1), of 128 "uninit 128"] by (auto simp: nbd_nv_get_def uninit_def)
  obtain bo where bo: "nbd_status_get D (a_calls s) ''web_autologin'' (a_buffer s) 256 = Some (0, bo)" "read_str bo = Some ''on''"
    using get_text [OF on, of 256 "a_buffer s"] b by (auto simp: nbd_status_get_def)
  have ok: "session_ok (w\<lparr>s_activated := 1, s_tv := tv\<rparr>)" using dw(2) tv(2) by (simp add: session_ok_def time_ok_def)
  obtain ss where v: "api_session_validate d (ae_time e) st2 = Some (EWF_SUCCESS, ss)"
    "table ss (?qs @ (d, w\<lparr>s_activated := 1, s_tv := tv\<rparr>) # ?rs)"
    using table_update [OF st2(2) ok] table_split [OF st2(2)] tv(1) by (simp add: api_session_validate_def)
  obtain r where halt: "nbd_halt_webautologin D (a_calls s) = Some (r, a_calls s @ [[''nbctl'', ''halt_webautologin'']])"
    by (simp add: nbd_halt_webautologin_def nbd_set_Some)
  have "\<exists>s'. check_button X D e d (sid w) ?s = Some s' \<and> a_calls s' = a_calls s @ [[''nbctl'', ''halt_webautologin'']] \<and> a_sess s' = ss"
    using bo v(1) halt by (simp add: check_button_def nbu_string_matches_def api_set_value_def bprintf_ok)
  then obtain s' where s': "check_button X D e d (sid w) ?s = Some s'" "a_calls s' = a_calls s @ [[''nbctl'', ''halt_webautologin'']]"
    "a_sess s' = ss" by blast
  have add: "s32_add (tv_sec (s_tv w)) PRESESSION_TIMEOUT = Some (tv_sec (s_tv w) + PRESESSION_TIMEOUT)"
    using dw(2) by (auto simp: session_ok_def s32_add_def)
  have "\<exists>h. choose_method X a ?s = Some (Inr (auth_button, h))"
    using auth(2) by (auto simp: choose_method_def nbu_string_matches_def)
  then have "check_session X D e d (sid w) ?s = Some s'"
    using wa auth(2) table_split [OF st2(2)] w(1,3) add s'(1) by (auto simp: check_session_def nbu_string_matches_def)
  then have "checkToken X D e s = Some s'" using st(1) st2(1) t by (simp add: checkToken_def)
  then show ?thesis using s' v(2) by auto
qed

text \<open>
  C12: Pressing the button lets a waiting token in.  If the token of the request belongs to a session
  that is not yet activated and still in its time for validation, the method of authentication is
  the button and the button is on, then \<open>checkToken\<close> activates that session and halts the button,
  and every later request for a private method with this token, within the time-out, is granted.
\<close>

theorem button_grants_token:
  assumes "table (a_sess s) (qs @ (d, w) # rs)" and "\<forall>(d', w') \<in> set qs. sid w' \<noteq> sid w" and "length (a_buffer s) = 256"
    and "s_activated w \<noteq> 1" and "\<not> expired PRESESSION_TIMEOUT (ae_clean e) w" and "tv_sec (ae_check e) \<le> tv_sec (s_tv w) + PRESESSION_TIMEOUT"
    and "query_param X ''token'' s = Some (sid w)" and "ae_time e = Some tv" and "time_ok tv"
    and "box_says D (a_calls s) [''nvram'', ''get'', ''web_auth''] a" and "a = ''button'' \<or> a = ''all'' \<and> query_param X ''hash'' s = None"
    and "box_says D (a_calls s) [''status'', ''get'', ''web_autologin''] ''on''"
  shows "\<exists>s1. checkToken X D e s = Some s1 \<and> a_calls s1 = a_calls s @ [[''nbctl'', ''halt_webautologin'']] \<and>
    (\<forall>D' tv' a' s2. a_sess s2 = a_sess s1 \<longrightarrow> query_param X ''token'' s2 = Some (sid w) \<longrightarrow>
      box_says D' (a_calls s2) [''nvram'', ''get'', ''web_auth''] a' \<longrightarrow> tv_sec tv' \<le> tv_sec tv + SESSION_TIMEOUT \<longrightarrow>
      (\<exists>s3. handle_authoriz X D' (Some tv') API_ACCESS_POLICY_PRIVATE s2 = Some (True, s3)))"
proof -
  let ?w = "w\<lparr>s_activated := 1, s_tv := tv\<rparr>"
  obtain s1 where s1: "checkToken X D e s = Some s1" "a_calls s1 = a_calls s @ [[''nbctl'', ''halt_webautologin'']]"
    "table (a_sess s1) (cleaned (ae_clean e) qs @ (d, ?w) # cleaned (ae_clean e) rs)"
    using button_activates [OF assms] by blast
  have i: "sid ?w = sid w" by (simp add: sid_def)
  then have first: "\<forall>(d', w') \<in> set (cleaned (ae_clean e) qs). sid w' \<noteq> sid ?w" using assms(2) by (auto simp: cleaned_def)
  have "\<exists>s3. handle_authoriz X D' (Some tv') API_ACCESS_POLICY_PRIVATE s2 = Some (True, s3)"
    if "a_sess s2 = a_sess s1" "query_param X ''token'' s2 = Some (sid w)" "box_says D' (a_calls s2) [''nvram'', ''get'', ''web_auth''] a'"
      "tv_sec tv' \<le> tv_sec tv + SESSION_TIMEOUT" for D' tv' a' s2
    by (rule authoriz_grants [OF _ first _ _ _ that(3)]) (use that s1(3) i in simp_all)
  then show ?thesis using s1(1,2) by blast
qed

text \<open>An example: a box with the button on, and requests to it.\<close>

definition ex_box :: nbd_daemon where
  "ex_box h args = (if args = [''nvram'', ''get'', ''web_auth''] then (0, ''button'')
     else if args = [''status'', ''get'', ''web_autologin''] then (0, ''on'') else (- 1, []))"

definition ex_env :: api_env where
  "ex_env = \<lparr>ae_clean = 1000, ae_clean2 = 1000, ae_check = \<lparr>tv_sec = 1000, tv_usec = 0\<rparr>, ae_time = Some \<lparr>tv_sec = 1000, tv_usec = 0\<rparr>,
     ae_rdm = replicate 20 171\<rparr>"

definition ex_api :: "session_state \<Rightarrow> (string \<times> string) list \<Rightarrow> (string \<times> string) list api" where
  "ex_api st h = \<lparr>a_hdf = h, a_sess = st, a_buffer = replicate 256 NUL, a_calls = [], a_display = []\<rparr>"

lemma ex_api_simps [simp]: "a_hdf (ex_api st h) = h" "a_sess (ex_api st h) = st" "length (a_buffer (ex_api st h)) = 256"
  "a_calls (ex_api st h) = []" "query_param ex_ext n (ex_api st h) = map_of h (''Query.'' @ n)"
  by (simp_all add: ex_api_def query_param_def)

lemma ex_box_says [simp]: "box_says ex_box h [''nvram'', ''get'', ''web_auth''] ''button''"
  "box_says ex_box h [''status'', ''get'', ''web_autologin''] ''on''" "\<not> auth_off ex_box h"
proof -
  show a: "box_says ex_box h [''nvram'', ''get'', ''web_auth''] ''button''" and "box_says ex_box h [''status'', ''get'', ''web_autologin''] ''on''"
    by (simp_all add: box_says_def ex_box_def)
  obtain b where "nbd_nv_get ex_box h ''web_auth'' (uninit 64) 64 = Some (0, b)" "read_str b = Some ''button''"
    using get_text [OF a, of 64 "uninit 64"] by (auto simp: nbd_nv_get_def uninit_def)
  then show "\<not> auth_off ex_box h" by (simp add: auth_off_def nv_string_def)
qed

theorem button_grants_token_witness:
  "\<exists>s1. checkToken ex_ext ex_box ex_env (ex_api (ex_sess 3) [(''Query.token'', ''ab'')]) = Some s1 \<and>
    a_calls s1 = [[''nbctl'', ''halt_webautologin'']] \<and>
    (\<exists>s3. handle_authoriz ex_ext ex_box (Some \<lparr>tv_sec = 4000, tv_usec = 0\<rparr>) API_ACCESS_POLICY_PRIVATE
       (s1\<lparr>a_hdf := [(''Query.token'', ''ab'')]\<rparr>) = Some (True, s3))"
proof -
  have "time_ok \<lparr>tv_sec = 1000, tv_usec = 0\<rparr>" by (simp add: time_ok_def)
  then obtain s1 where s1: "checkToken ex_ext ex_box ex_env (ex_api (ex_sess 3) [(''Query.token'', ''ab'')]) = Some s1"
    "a_calls s1 = [[''nbctl'', ''halt_webautologin'']]"
    "\<And>D' tv' a' s2. a_sess s2 = a_sess s1 \<Longrightarrow> query_param ex_ext ''token'' s2 = Some ''ab'' \<Longrightarrow>
      box_says D' (a_calls s2) [''nvram'', ''get'', ''web_auth''] a' \<Longrightarrow> tv_sec tv' \<le> 4600 \<Longrightarrow>
      \<exists>s3. handle_authoriz ex_ext D' (Some tv') API_ACCESS_POLICY_PRIVATE s2 = Some (True, s3)"
    using button_grants_token [of "ex_api (ex_sess 3) [(''Query.token'', ''ab'')]" "[]" 2 ex_session "[]" ex_env ex_ext
        "\<lparr>tv_sec = 1000, tv_usec = 0\<rparr>" ex_box "''button''"]
    by (auto simp: ex_env_def expired_def)
  have "\<exists>s3. handle_authoriz ex_ext ex_box (Some \<lparr>tv_sec = 4000, tv_usec = 0\<rparr>) API_ACCESS_POLICY_PRIVATE
      (s1\<lparr>a_hdf := [(''Query.token'', ''ab'')]\<rparr>) = Some (True, s3)"
    by (rule s1(3) [OF _ _ ex_box_says(1)]) (simp_all add: query_param_def)
  then show ?thesis using s1(1,2) by blast
qed

text \<open>The session \<open>ab\<close> of the example table is not activated: its token opens no private method.\<close>

definition ex_private :: "(string \<times> string) list action \<Rightarrow> (string \<times> string) list api_method hsearch_data" where
  "ex_private act = \<lparr>ht_size = 97, ht_entries = [(''wlan.getInfo'', \<lparr>am_request_method = METHOD_GET,
     am_access_policy = API_ACCESS_POLICY_PRIVATE, am_action_handler = Some act\<rparr>)]\<rparr>"

definition ex_get :: "(string \<times> string) list \<Rightarrow> (string \<times> string) list cgi_ext" where
  "ex_get h = ex_cgi\<lparr>cgi_init := [(''CGI.RequestURI'', ''/api''), (''CGI.RequestMethod'', ''GET'')] @ h\<rparr>"

lemma ex_get_simps [simp]: "cgi_init (ex_get h) = [(''CGI.RequestURI'', ''/api''), (''CGI.RequestMethod'', ''GET'')] @ h"
  "cgi_parse (ex_get h) x = x"
  by (simp_all add: ex_get_def ex_cgi_def)

theorem private_method_never_runs_witness:
  "api_serve ex_ext (ex_get [(''Query.method'', ''wlan.getInfo''), (''Query.token'', ''ab'')]) ex_box (Some \<lparr>tv_sec = 1000, tv_usec = 0\<rparr>) ''NB6''
     (ex_private (api_set_value ex_ext ''wlan.wl0.wpakey'' (Some ''secret''))) (ex_api (ex_sess 3) []) =
   api_serve ex_ext (ex_get [(''Query.method'', ''wlan.getInfo''), (''Query.token'', ''ab'')]) ex_box (Some \<lparr>tv_sec = 1000, tv_usec = 0\<rparr>) ''NB6''
     (ex_private (\<lambda>s. None)) (ex_api (ex_sess 3) [])"
proof -
  let ?C = "ex_get [(''Query.method'', ''wlan.getInfo''), (''Query.token'', ''ab'')]" and ?t = "Some \<lparr>tv_sec = 1000, tv_usec = 0\<rparr>"
  have c: "cgi_strings ex_ext ?C" by (auto simp: cgi_strings_def query_strings_def)
  show ?thesis
    using private_method_never_runs [of ex_ext ?C "ex_api (ex_sess 3) []" "[(2, ex_session)]" ?t ex_box None "''NB6''"
        "\<lambda>s. None" "ex_private (api_set_value ex_ext ''wlan.wl0.wpakey'' (Some ''secret''))"] c
    by (simp add: ex_private_def mask_private_def mask_method_def post_token_def token_dead_def time_ok_def)
qed

end
