(* ===== verification/Api_Ctl.thy ===== *)
theory Api_Ctl
  imports Api_Main Nbd_Xml Nbu_Net
begin

text \<open>
  The methods of the REST API, one section per file of \<open>efixo-api/src/src/ctl\<close>, with \<open>cfg.c\<close> and
  \<open>nbl_trash.c\<close>, and the table in which \<open>API_REGISTER_METHOD\<close> enters them.

  The XML texts of the daemon are parsed by the library ezxml, whose functions are the fields of
  \<open>ezxml\<close>.  \<open>mem\<close> says whether the block for such a text could be allocated; the methods hand
  it to ezxml without a test, which is a fault when there is none.
\<close>

record 'x ezxml =
  ezxml_parse_str :: "string \<Rightarrow> 'x option"
  ezxml_child :: "'x \<Rightarrow> string \<Rightarrow> 'x list"
  ezxml_get :: "'x \<Rightarrow> string \<Rightarrow> nat \<Rightarrow> string \<Rightarrow> 'x list"
  ezxml_txt :: "'x \<Rightarrow> string"
  ezxml_child_txt :: "'x \<Rightarrow> string \<Rightarrow> string"

subsection \<open>What the methods have in common\<close>

text \<open>A value of the daemon that goes through \<open>buffer\<close> into the answer.\<close>

definition show_value :: "'h ewf_ext \<Rightarrow> (calls \<Rightarrow> buf \<Rightarrow> u32 \<Rightarrow> (int \<times> buf) exec) \<Rightarrow> string \<Rightarrow> 'h action" where
  "show_value X get name s = do {
     (r, b) \<leftarrow> get (a_calls s) (a_buffer s) 256;
     let s = s\<lparr>a_buffer := b\<rparr>;
     if r = 0 then do {
       v \<leftarrow> read_str (a_buffer s);
       api_set_value X name (Some v) s }
     else Some s }"

text \<open>A name that is printed into \<open>buffer\<close>, and its value.\<close>

definition list_value :: "'h ewf_ext \<Rightarrow> string \<Rightarrow> string \<Rightarrow> 'h action" where
  "list_value X name v s = do {
     s \<leftarrow> set_buffer name s;
     n \<leftarrow> read_str (a_buffer s);
     api_set_value X n (Some v) s }"

definition do_call :: "(calls \<Rightarrow> (int \<times> calls) exec) \<Rightarrow> 'h api \<Rightarrow> (int \<times> 'h api) exec" where
  "do_call f s = do {
     (r, h) \<leftarrow> f (a_calls s);
     Some (r, s\<lparr>a_calls := h\<rparr>) }"

text \<open>A command whose result is ignored.\<close>

definition command :: "(calls \<Rightarrow> (int \<times> calls) exec) \<Rightarrow> 'h action" where
  "command f s = do {
     (_, s) \<leftarrow> do_call f s;
     Some s }"

text \<open>A variable that is set to a parameter of the request, and committed.\<close>

definition set_param :: "'h ewf_ext \<Rightarrow> nbd_daemon \<Rightarrow> string \<Rightarrow> string \<Rightarrow> 'h action" where
  "set_param X D param key s = do {
     p \<leftarrow> ewf_fastcgi_get_parameter X param s;
     case p of None \<Rightarrow> Some s
     | Some v \<Rightarrow> do {
         s \<leftarrow> command (nbd_nv_set D key v) s;
         command (nbd_nv_commit D ''user'') s } }"

definition with_xml :: "'x ezxml \<Rightarrow> (calls \<Rightarrow> (int \<times> string option) exec) \<Rightarrow> ('x \<Rightarrow> 'h action) \<Rightarrow> 'h action" where
  "with_xml Z get k s = do {
     (r, block) \<leftarrow> get (a_calls s);
     if r = 0 then do {
       t \<leftarrow> block;
       case ezxml_parse_str Z t of None \<Rightarrow> Some s | Some root \<Rightarrow> k root s }
     else Some s }"

subsection \<open>\<open>cfg.c\<close>\<close>

definition value_cptb_mapping :: "(string \<times> string \<times> string) list" where
  "value_cptb_mapping = [(''wlan_mode'', ''11n-only'', ''11n''), (''wlan_mode'', ''11n-legacy'', ''11ng''), (''wlan_mode'', ''legacy'', ''11g'')]"

fun map_value :: "(string \<times> string \<times> string) list \<Rightarrow> string \<Rightarrow> string \<Rightarrow> string" where
  "map_value [] cfg_name value = value"
| "map_value ((c, old, new) # ms) cfg_name value =
     (if nbu_string_compare (Some cfg_name) (Some c) = NBU_STRING_EQUAL \<and> nbu_string_compare (Some value) (Some old) = NBU_STRING_EQUAL
      then new else map_value ms cfg_name value)"

definition cfg_set :: "nbd_daemon \<Rightarrow> string \<Rightarrow> string \<Rightarrow> calls \<Rightarrow> (int \<times> calls) exec" where
  "cfg_set D cfg_name value h = do {
     (ret, h) \<leftarrow> nbd_nv_set D cfg_name (map_value value_cptb_mapping cfg_name value) h;
     Some (if ret = 0 then 0 else if ret = 1 then 1 else if ret = - 4 then - 99 else - 100, h) }"

subsection \<open>\<open>nbl_trash.c\<close>\<close>

text \<open>The second test reads the array of the caller, not the answer of the daemon.\<close>

definition nbl_voip_get_hook_status :: "nbd_daemon \<Rightarrow> calls \<Rightarrow> buf \<Rightarrow> u32 \<Rightarrow> (int \<times> buf) exec" where
  "nbl_voip_get_hook_status D h status status_size = do {
     (ret, voip_up) \<leftarrow> nbd_status_get D h ''voip_up'' (uninit 5) 5;
     if ret = - 1 then Some (NBU_ERROR, status)
     else do {
       t \<leftarrow> read_str status;
       c \<leftarrow> nbu_string_ncompare (Some t) 2 (Some ''up'');
       (ret, status) \<leftarrow> (if c = NBU_STRING_EQUAL then do {
           (ret, status) \<leftarrow> nbd_status_get D h ''voip_hookstate'' status status_size;
           if ret = 0 then do {
             t \<leftarrow> read_str status;
             c \<leftarrow> nbu_string_ncompare (Some t) 6 (Some ''onhook'');
             (_, b) \<leftarrow> nbu_string_printf (Some status) status_size (Some (if c = 0 then ''onhook'' else ''offhook''));
             b \<leftarrow> b;
             Some (ret, b) }
           else Some (ret, status) }
         else do {
           (_, b) \<leftarrow> nbu_string_printf (Some status) status_size (Some ''unknown'');
           b \<leftarrow> b;
           Some (ret, b) });
       Some (if ret = 0 then NBU_SUCCESS else NBU_ERROR, status) } }"

subsection \<open>\<open>app.c\<close>, \<open>storage.c\<close> and \<open>printer.c\<close>\<close>

definition app_getInfo :: "'h ewf_ext \<Rightarrow> 'x ezxml \<Rightarrow> nbd_daemon \<Rightarrow> bool \<Rightarrow> 'h action" where
  "app_getInfo X Z D mem s = do {
     s \<leftarrow> show_value X (\<lambda>h. nbd_status_get D h ''p910nd_status'') ''p910nd.status'' s;
     s \<leftarrow> show_value X (\<lambda>h. nbd_nv_get D h ''p910nd_bidir'') ''p910nd.bidir'' s;
     with_xml Z (\<lambda>h. nbd_sambactl_status D h mem) (\<lambda>root s. do {
       s \<leftarrow> api_set_value X ''smbd.active'' (Some (ezxml_child_txt Z root ''active'')) s;
       s \<leftarrow> api_set_value X ''smbd.state'' (Some (ezxml_child_txt Z root ''state'')) s;
       api_set_value X ''smbd.codeno'' (Some (ezxml_child_txt Z root ''codeno'')) s }) s }"

definition storage_getInfo :: "'h ewf_ext \<Rightarrow> 'x ezxml \<Rightarrow> nbd_daemon \<Rightarrow> bool \<Rightarrow> 'h action" where
  "storage_getInfo X Z D mem s = with_xml Z (\<lambda>h. nbd_sambactl_status D h mem) (\<lambda>root s. do {
     s \<leftarrow> api_set_value X ''storage.sambaactive'' (Some (ezxml_child_txt Z root ''active'')) s;
     s \<leftarrow> api_set_value X ''storage.sambastate'' (Some (ezxml_child_txt Z root ''state'')) s;
     api_set_value X ''storage.sambacodeno'' (Some (ezxml_child_txt Z root ''codeno'')) s }) s"

definition printer_getInfo :: "'h ewf_ext \<Rightarrow> nbd_daemon \<Rightarrow> 'h action" where
  "printer_getInfo X D s = do {
     s \<leftarrow> show_value X (\<lambda>h. nbd_status_get D h ''p910nd_status'') ''printer.p910nd_status'' s;
     show_value X (\<lambda>h. nbd_nv_get D h ''p910nd_bidir'') ''printer.p910nd_bidir'' s }"

subsection \<open>\<open>backup3g.c\<close>\<close>

definition backup3g_forceDataLink :: "'h ewf_ext \<Rightarrow> nbd_daemon \<Rightarrow> 'h action" where
  "backup3g_forceDataLink X D = set_param X D ''mode'' ''gprs_service_data''"

definition backup3g_forceVoipLink :: "'h ewf_ext \<Rightarrow> nbd_daemon \<Rightarrow> 'h action" where
  "backup3g_forceVoipLink X D = set_param X D ''mode'' ''gprs_service_voice''"

definition backup3g_getPinCode :: "'h ewf_ext \<Rightarrow> nbd_daemon \<Rightarrow> 'h action" where
  "backup3g_getPinCode X D = show_value X (\<lambda>h. nbd_nv_get D h ''gprs_pin'') ''backup3g.getPinCode''"

definition backup3g_setPinCode :: "'h ewf_ext \<Rightarrow> nbd_daemon \<Rightarrow> 'h action" where
  "backup3g_setPinCode X D s = do {
     p \<leftarrow> ewf_fastcgi_get_parameter X ''pincode'' s;
     case p of None \<Rightarrow> Some s
     | Some v \<Rightarrow> do {
         (r, s) \<leftarrow> do_call (nbd_nv_set D ''gprs_pin'' v) s;
         if r = 0 then command (nbd_nv_commit D ''user'') s else Some s } }"

subsection \<open>\<open>dsl.c\<close>\<close>

definition dsl_getInfo :: "'h ewf_ext \<Rightarrow> nbd_daemon \<Rightarrow> 'h action" where
  "dsl_getInfo X D s = do {
     s \<leftarrow> show_value X (\<lambda>h. nbd_status_get D h ''adsl_status'') ''dsl.status'' s;
     s \<leftarrow> show_value X (\<lambda>h. nbd_status_get D h ''adsl_uptime'') ''dsl.uptime'' s;
     s \<leftarrow> show_value X (\<lambda>h. nbd_status_get D h ''adsl_counter'') ''dsl.counter'' s;
     s \<leftarrow> show_value X (\<lambda>h. nbd_dsl_get D h ''adsl_noise_down'') ''dsl.noise_down'' s;
     s \<leftarrow> show_value X (\<lambda>h. nbd_dsl_get D h ''adsl_noise_up'') ''dsl.noise_up'' s;
     s \<leftarrow> show_value X (\<lambda>h. nbd_dsl_get D h ''adsl_attenuation_down'') ''dsl.attenuation_down'' s;
     s \<leftarrow> show_value X (\<lambda>h. nbd_dsl_get D h ''adsl_attenuation_up'') ''dsl.attenuation_up'' s;
     s \<leftarrow> show_value X (\<lambda>h. nbd_dsl_get D h ''adsl_rate_down'') ''dsl.rate_down'' s;
     s \<leftarrow> show_value X (\<lambda>h. nbd_dsl_get D h ''adsl_rate_up'') ''dsl.rate_up'' s;
     s \<leftarrow> show_value X (\<lambda>h. nbd_dsl_get D h ''adsl_linemode'') ''dsl.linemode'' s;
     show_value X (\<lambda>h. nbd_dsl_get D h ''adsl_crc'') ''dsl.crc'' s }"

subsection \<open>\<open>firewall.c\<close>\<close>

definition firewall_getInfo :: "'h ewf_ext \<Rightarrow> nbd_daemon \<Rightarrow> 'h action" where
  "firewall_getInfo X D s = do {
     s \<leftarrow> show_value X (\<lambda>h. nbd_nv_get D h ''filter_mode'') ''firewall.filter_mode'' s;
     s \<leftarrow> show_value X (\<lambda>h. nbd_nv_get D h ''filter_simple_winsharedrop'') ''firewall.filter_simple_winsharedrop'' s;
     s \<leftarrow> show_value X (\<lambda>h. nbd_nv_get D h ''filter_simple_icmpdrop'') ''firewall.filter_simple_icmpdrop'' s;
     show_value X (\<lambda>h. nbd_nv_get D h ''filter_simple_smtpdrop'') ''firewall.filter_simple_smtpdrop'' s }"

definition firewall_enableSmtpFilter :: "nbd_daemon \<Rightarrow> 'h action" where
  "firewall_enableSmtpFilter D s = do {
     s \<leftarrow> command (nbd_nv_set D ''filter_simple_smtpdrop'' ''on'') s;
     s \<leftarrow> command (nbd_nv_commit D ''user'') s;
     command (nbd_sys_sync_run D ''/etc/init.d/firewall'' ''smtp'') s }"

definition firewall_disableSmtpFilter :: "nbd_daemon \<Rightarrow> 'h action" where
  "firewall_disableSmtpFilter D s = do {
     s \<leftarrow> command (nbd_nv_set D ''filter_simple_smtpdrop'' ''off'') s;
     s \<leftarrow> command (nbd_nv_commit D ''user'') s;
     command (nbd_sys_sync_run D ''/etc/init.d/firewall'' ''smtp'') s }"

subsection \<open>\<open>hotspot.c\<close>\<close>

definition hotspot_getInfo :: "'h ewf_ext \<Rightarrow> nbd_daemon \<Rightarrow> 'h action" where
  "hotspot_getInfo X D s = do {
     s \<leftarrow> show_value X (\<lambda>h. nbd_status_get D h ''hotspot_status'') ''hotspot.status'' s;
     s \<leftarrow> show_value X (\<lambda>h. nbd_nv_get D h ''hotspot_active'') ''hotspot.enabled'' s;
     show_value X (\<lambda>h. nbd_nv_get D h ''hotspot_mode'') ''hotspot.mode'' s }"

fun hotspot_assocs :: "'h ewf_ext \<Rightarrow> 'x ezxml \<Rightarrow> int \<Rightarrow> 'x list \<Rightarrow> 'h action" where
  "hotspot_assocs X Z n [] s = Some s"
| "hotspot_assocs X Z n (node # nodes) s = do {
     let n = n + 1;
     s \<leftarrow> list_value X (''hotspot_assoc_list.'' @ dec_int n @ ''.ipaddr'') (ezxml_child_txt Z node ''ipaddr'') s;
     s \<leftarrow> list_value X (''hotspot_assoc_list.'' @ dec_int n @ ''.macaddr'') (ezxml_child_txt Z node ''macaddr'') s;
     hotspot_assocs X Z n nodes s }"

definition hotspot_getClientList :: "'h ewf_ext \<Rightarrow> 'x ezxml \<Rightarrow> nbd_daemon \<Rightarrow> bool \<Rightarrow> 'h action" where
  "hotspot_getClientList X Z D mem =
     with_xml Z (\<lambda>h. nbd_status_xml D h mem ''hotspot'') (\<lambda>root. hotspot_assocs X Z 0 (ezxml_child Z root ''assoc''))"

definition hotspot_setMode :: "'h ewf_ext \<Rightarrow> nbd_daemon \<Rightarrow> 'h action" where
  "hotspot_setMode X D = set_param X D ''mode'' ''hotspot_mode''"

definition hotspot_enable :: "nbd_daemon \<Rightarrow> 'h action" where
  "hotspot_enable D s = do {
     s \<leftarrow> command (nbd_nv_set D ''hotspot_active'' ''on'') s;
     command (nbd_nv_commit D ''user'') s }"

definition hotspot_disable :: "nbd_daemon \<Rightarrow> 'h action" where
  "hotspot_disable D s = do {
     s \<leftarrow> command (nbd_nv_set D ''hotspot_active'' ''off'') s;
     command (nbd_nv_commit D ''user'') s }"

definition hotspot_start :: "nbd_daemon \<Rightarrow> 'h action" where
  "hotspot_start D = command (nbd_hotspot_start D)"

definition hotspot_stop :: "nbd_daemon \<Rightarrow> 'h action" where
  "hotspot_stop D = command (nbd_hotspot_stop D)"

definition hotspot_restart :: "nbd_daemon \<Rightarrow> 'h action" where
  "hotspot_restart D = command (nbd_hotspot_restart D)"

subsection \<open>\<open>lan.c\<close>\<close>

fun lan_hosts :: "'h ewf_ext \<Rightarrow> 'x ezxml \<Rightarrow> int \<Rightarrow> 'x list \<Rightarrow> 'h action" where
  "lan_hosts X Z n [] s = Some s"
| "lan_hosts X Z n (host # hosts) s =
     (if nbu_string_compare (Some (ezxml_child_txt Z host ''type'')) (Some ''pc'') = NBU_SUCCESS
         \<or> nbu_string_compare (Some (ezxml_child_txt Z host ''type'')) (Some ''stb'') = NBU_SUCCESS
      then do {
        let n = n + 1;
        s \<leftarrow> list_value X (''lan.hosts.'' @ dec_int n @ ''.name'') (ezxml_child_txt Z host ''hostname'') s;
        s \<leftarrow> list_value X (''lan.hosts.'' @ dec_int n @ ''.ip'') (ezxml_child_txt Z host ''ipaddr'') s;
        s \<leftarrow> list_value X (''lan.hosts.'' @ dec_int n @ ''.mac'') (ezxml_child_txt Z host ''macaddr'') s;
        s \<leftarrow> list_value X (''lan.hosts.'' @ dec_int n @ ''.iface'') (ezxml_child_txt Z host ''port'') s;
        lan_hosts X Z n hosts s }
      else lan_hosts X Z n hosts s)"

definition lan_getHostsList :: "'h ewf_ext \<Rightarrow> 'x ezxml \<Rightarrow> nbd_daemon \<Rightarrow> bool \<Rightarrow> 'h action" where
  "lan_getHostsList X Z D mem =
     with_xml Z (\<lambda>h. nbd_status_xml D h mem ''lan_topology'') (\<lambda>root. lan_hosts X Z 0 (ezxml_child Z root ''device''))"

definition set_part_values :: "'h ewf_ext \<Rightarrow> string \<Rightarrow> string list \<Rightarrow> 'h action" where
  "set_part_values X name ps s = do {
     s \<leftarrow> api_set_value X (name @ ''p0'') (Some (ps ! 0)) s;
     s \<leftarrow> api_set_value X (name @ ''p1'') (Some (ps ! 1)) s;
     s \<leftarrow> api_set_value X (name @ ''p2'') (Some (ps ! 2)) s;
     api_set_value X (name @ ''p3'') (Some (ps ! 3)) s }"

text \<open>
  The four parts of an address.  \<open>parts\<close> is the array before: it is kept when the value is not an address, and
  reading it before it was ever filled is a fault.
\<close>

definition show_parts ::
  "'h ewf_ext \<Rightarrow> nbd_daemon \<Rightarrow> string \<Rightarrow> string \<Rightarrow> string list option \<Rightarrow> 'h api \<Rightarrow> (string list option \<times> 'h api) exec" where
  "show_parts X D key name parts s = do {
     (r, b) \<leftarrow> nbd_nv_get D (a_calls s) key (a_buffer s) 256;
     let s = s\<lparr>a_buffer := b\<rparr>;
     if r = 0 then do {
       v \<leftarrow> read_str (a_buffer s);
       (_, new) \<leftarrow> nbu_net_split_ip (Some v);
       let parts = (if new = None then parts else new);
       ps \<leftarrow> parts;
       s \<leftarrow> set_part_values X name ps s;
       Some (parts, s) }
     else Some (parts, s) }"

definition lan_getInfo :: "'h ewf_ext \<Rightarrow> nbd_daemon \<Rightarrow> 'h action" where
  "lan_getInfo X D s = do {
     s \<leftarrow> show_value X (\<lambda>h. nbd_nv_get D h ''lan_ipaddr'') ''lan.ipaddr'' s;
     s \<leftarrow> show_value X (\<lambda>h. nbd_nv_get D h ''lan_netmask'') ''lan.netmask'' s;
     s \<leftarrow> show_value X (\<lambda>h. nbd_nv_get D h ''dhcp_active'') ''lan.dhcpactive'' s;
     (parts, s) \<leftarrow> show_parts X D ''dhcp_start'' ''lan.dhcpstart'' None s;
     (_, s) \<leftarrow> show_parts X D ''dhcp_end'' ''lan.dhcpend'' parts s;
     show_value X (\<lambda>h. nbd_nv_get D h ''dhcp_lease'') ''lan.dhcplease'' s }"

subsection \<open>\<open>ppp.c\<close>\<close>

definition show_ppp :: "'h ewf_ext \<Rightarrow> nbd_daemon \<Rightarrow> string \<Rightarrow> string \<Rightarrow> string \<Rightarrow> 'h action" where
  "show_ppp X D data_infra what out s = do {
     (_, name) \<leftarrow> bprintf 128 (''ppp_'' @ data_infra @ what);
     show_value X (\<lambda>h. nbd_status_get D h name) out s }"

definition ppp_getInfo :: "'h ewf_ext \<Rightarrow> nbd_daemon \<Rightarrow> 'h action" where
  "ppp_getInfo X D s = do {
     (r, b) \<leftarrow> nbd_status_get D (a_calls s) ''net_data_access'' (uninit 64) 64;
     if r = 0 then do {
       data_infra \<leftarrow> read_str b;
       s \<leftarrow> show_ppp X D data_infra ''_status'' ''ppp.status'' s;
       show_ppp X D data_infra ''_ipaddr'' ''ppp.ip_addr'' s }
     else Some s }"

definition ppp_getCredentials :: "'h ewf_ext \<Rightarrow> nbd_daemon \<Rightarrow> 'h action" where
  "ppp_getCredentials X D s = do {
     s \<leftarrow> show_value X (\<lambda>h. nbd_nv_get D h ''ppp_login'') ''ppp.login'' s;
     show_value X (\<lambda>h. nbd_nv_get D h ''ppp_password'') ''ppp.password'' s }"

text \<open>A variable that is set to a parameter, if there is one; the flag says that the daemon took it.\<close>

definition try_param :: "'h ewf_ext \<Rightarrow> nbd_daemon \<Rightarrow> string \<Rightarrow> string \<Rightarrow> 'h api \<Rightarrow> (bool \<times> 'h api) exec" where
  "try_param X D param key s = do {
     p \<leftarrow> ewf_fastcgi_get_parameter X param s;
     case p of None \<Rightarrow> Some (False, s)
     | Some v \<Rightarrow> do {
         (r, s) \<leftarrow> do_call (nbd_nv_set D key v) s;
         Some (r = 0, s) } }"

definition ppp_setCredentials :: "'h ewf_ext \<Rightarrow> nbd_daemon \<Rightarrow> 'h action" where
  "ppp_setCredentials X D s = do {
     (a, s) \<leftarrow> try_param X D ''login'' ''ppp_login'' s;
     (b, s) \<leftarrow> try_param X D ''password'' ''ppp_password'' s;
     if a \<or> b then do {
       s \<leftarrow> command (nbd_nv_commit D ''user'') s;
       command (nbd_sys_async_run D ''/etc/init.d/ppp'' ''reload'') s }
     else Some s }"

subsection \<open>\<open>system.c\<close>\<close>

definition system_getInfo :: "'h ewf_ext \<Rightarrow> nbd_daemon \<Rightarrow> 'h action" where
  "system_getInfo X D s = do {
     s \<leftarrow> show_value X (\<lambda>h. nbd_status_get D h ''productID'') ''system.product_id'' s;
     s \<leftarrow> show_value X (\<lambda>h. nbd_status_get D h ''mac_addr'') ''system.mac_addr'' s;
     s \<leftarrow> show_value X (\<lambda>h. nbd_user_config_get D h ''net_mode'') ''system.net_mode'' s;
     s \<leftarrow> show_value X (\<lambda>h. nbd_status_get D h ''net_data_access'') ''system.net_infra'' s;
     s \<leftarrow> show_value X (\<lambda>h. nbd_status_get D h ''uptime'') ''system.uptime'' s;
     s \<leftarrow> show_value X (\<lambda>h. nbd_status_get D h ''version_mainfirmware'') ''system.firmware_version'' s;
     s \<leftarrow> show_value X (\<lambda>h. nbd_status_get D h ''version_rescuefirmware'') ''system.rescue_version'' s;
     s \<leftarrow> show_value X (\<lambda>h. nbd_status_get D h ''version_bootloader'') ''system.bootloader_version'' s;
     show_value X (\<lambda>h. nbd_status_get D h ''version_dsldriver'') ''system.dsldriver_version'' s }"

definition system_getWpaKey :: "'h ewf_ext \<Rightarrow> nbd_daemon \<Rightarrow> 'h action" where
  "system_getWpaKey X D = show_value X (\<lambda>h. nbd_status_get D h ''wpa_key'') ''system.wpa_key''"

text \<open>The parameter is read and not used.\<close>

definition system_setNetMode :: "'h ewf_ext \<Rightarrow> 'h action" where
  "system_setNetMode X s = do {
     _ \<leftarrow> ewf_fastcgi_get_parameter X ''mode'' s;
     Some s }"

text \<open>The child process, when \<open>fork\<close> gives one, sends the command two seconds later.\<close>

definition system_reboot :: "nbd_daemon \<Rightarrow> bool \<Rightarrow> 'h action" where
  "system_reboot D fork_ok s = (if fork_ok then command (nbd_sys_reboot D) s else Some s)"

subsection \<open>\<open>voip.c\<close> and \<open>wan.c\<close>\<close>

definition voip_call_type_str :: "nat \<Rightarrow> string" where
  "voip_call_type_str t = (case map_of [(0, ''pstn''), (1, ''voip''), (2, ''voip''), (3, ''radio'')] t of None \<Rightarrow> ''unknown'' | Some s \<Rightarrow> s)"

definition voip_getInfo :: "'h ewf_ext \<Rightarrow> nbd_daemon \<Rightarrow> 'h action" where
  "voip_getInfo X D s = do {
     s \<leftarrow> show_value X (\<lambda>h. nbd_status_get D h ''voip_up'') ''voip.status'' s;
     s \<leftarrow> show_value X (\<lambda>h. nbd_status_get D h ''net_voip_access'') ''voip.infra'' s;
     s \<leftarrow> show_value X (nbl_voip_get_hook_status D) ''voip.hookstatus'' s;
     show_value X (\<lambda>h. nbd_nv_get D h ''voip_callhistory'') ''voip.callhistory'' s }"

text \<open>\<open>sscanf (s, "%hu", ...)\<close>; \<open>None\<close> when nothing is stored.\<close>

definition scan_hu :: "string \<Rightarrow> nat option" where
  "scan_hu str = (let (neg, s) = split_sign (dropWhile isspace str); ds = takeWhile (is_base 10) s; v = num_val 10 ds in
     if ds = [] then None
     else if v > 4294967295 then Some 65535
     else Some (nat ((if neg then - int v else int v) mod 65536)))"

fun voip_calls :: "'h ewf_ext \<Rightarrow> 'x ezxml \<Rightarrow> int \<Rightarrow> 'x list \<Rightarrow> 'h action" where
  "voip_calls X Z n [] s = Some s"
| "voip_calls X Z n (node # nodes) s = do {
     type \<leftarrow> scan_hu (ezxml_child_txt Z node ''type'');
     s \<leftarrow> list_value X (''call_list.'' @ dec_int n @ ''.type'') (voip_call_type_str type) s;
     direction \<leftarrow> scan_hu (ezxml_child_txt Z node ''direction'');
     s \<leftarrow> list_value X (''call_list.'' @ dec_int n @ ''.direction'') (if direction = 0 then ''incoming'' else ''outgoing'') s;
     let number = ezxml_child_txt Z node ''number'';
     number \<leftarrow> (if length number > 4 then map_option snd (bprintf 128 (take (length number - 4) number @ '' XXXX'')) else Some number);
     s \<leftarrow> list_value X (''call_list.'' @ dec_int n @ ''.number'') number s;
     s \<leftarrow> list_value X (''call_list.'' @ dec_int n @ ''.length'') (ezxml_child_txt Z node ''length'') s;
     s \<leftarrow> list_value X (''call_list.'' @ dec_int n @ ''.date'') (ezxml_child_txt Z node ''date'') s;
     voip_calls X Z (n + 1) nodes s }"

definition voip_getCallhistoryList :: "'h ewf_ext \<Rightarrow> 'x ezxml \<Rightarrow> nbd_daemon \<Rightarrow> bool \<Rightarrow> 'h action" where
  "voip_getCallhistoryList X Z D mem =
     with_xml Z (\<lambda>h. nbd_status_xml D h mem ''voip_history'') (\<lambda>root. voip_calls X Z 0 (ezxml_child Z root ''call''))"

definition voip_start :: "nbd_daemon \<Rightarrow> 'h action" where
  "voip_start D = command (nbd_voip_start D)"

definition voip_stop :: "nbd_daemon \<Rightarrow> 'h action" where
  "voip_stop D = command (nbd_voip_stop D)"

definition voip_restart :: "nbd_daemon \<Rightarrow> 'h action" where
  "voip_restart D = command (nbd_voip_restart D)"

definition wan_getInfo :: "'h ewf_ext \<Rightarrow> nbd_daemon \<Rightarrow> 'h action" where
  "wan_getInfo X D s = do {
     s \<leftarrow> show_value X (\<lambda>h. nbd_status_get D h ''net_data_status'') ''wan.status'' s;
     s \<leftarrow> show_value X (\<lambda>h. nbd_status_get D h ''net_data_uptime'') ''wan.uptime'' s;
     s \<leftarrow> show_value X (\<lambda>h. nbd_status_get D h ''net_data_ipaddr'') ''wan.ip_addr'' s;
     show_value X (\<lambda>h. nbd_status_get D h ''net_data_access'') ''wan.infra'' s }"

subsection \<open>\<open>wlan.c\<close>\<close>

definition wlan_getInfo :: "'h ewf_ext \<Rightarrow> nbd_daemon \<Rightarrow> 'h action" where
  "wlan_getInfo X D s = do {
     s \<leftarrow> show_value X (nbd_wlan_macfiltering_mode D) ''wlan.macfiltering'' s;
     s \<leftarrow> show_value X (nbd_wlan_active D) ''wlan.active'' s;
     s \<leftarrow> show_value X (\<lambda>h. nbd_nv_get D h ''wlan_channel'') ''wlan.channel'' s;
     s \<leftarrow> show_value X (\<lambda>h. nbd_nv_get D h ''wlan_mode'') ''wlan.mode'' s;
     s \<leftarrow> show_value X (\<lambda>h. nbd_nv_get D h ''wlan_wl0_ssid'') ''wlan.wl0.ssid'' s;
     s \<leftarrow> show_value X (\<lambda>h. nbd_nv_get D h ''wlan_wl0_enc'') ''wlan.wl0.enc'' s;
     s \<leftarrow> show_value X (\<lambda>h. nbd_nv_get D h ''wlan_wl0_keytype'') ''wlan.wl0.keytype'' s;
     s \<leftarrow> show_value X (\<lambda>h. nbd_nv_get D h ''wlan_wl0_wpakey'') ''wlan.wl0.wpakey'' s;
     show_value X (\<lambda>h. nbd_nv_get D h ''wlan_wl0_wepkeys_n0'') ''wlan.wl0.wepkey'' s }"

fun wlan_clients :: "'h ewf_ext \<Rightarrow> 'x ezxml \<Rightarrow> nbd_daemon \<Rightarrow> int \<Rightarrow> 'x list \<Rightarrow> 'h action" where
  "wlan_clients X Z D n [] s = Some s"
| "wlan_clients X Z D n (mac # macs) s = do {
     let n = n + 1;
     s \<leftarrow> list_value X (''wlan.clients.'' @ dec_int n @ ''.mac_addr'') (ezxml_txt Z mac) s;
     (r, b) \<leftarrow> nbd_lan_mac2ip D (a_calls s) (ezxml_txt Z mac) (uninit 16) 16;
     ipaddr \<leftarrow> (if r \<noteq> 0 then Some [] else read_str b);
     s \<leftarrow> list_value X (''wlan.clients.'' @ dec_int n @ ''.ip_addr'') ipaddr s;
     wlan_clients X Z D n macs s }"

definition wlan_getClientList :: "'h ewf_ext \<Rightarrow> 'x ezxml \<Rightarrow> nbd_daemon \<Rightarrow> bool \<Rightarrow> 'h action" where
  "wlan_getClientList X Z D mem =
     with_xml Z (\<lambda>h. nbd_wlan_list_assoc D h mem None) (\<lambda>root. wlan_clients X Z D 0 (ezxml_get Z root ''assoclist'' 0 ''mac''))"

definition wlan_enable :: "'h ewf_ext \<Rightarrow> nbd_daemon \<Rightarrow> 'h action" where
  "wlan_enable X D s = do {
     (r, s) \<leftarrow> do_call (nbd_wlan_enable D) s;
     if r \<noteq> 0 then api_set_custom_error X ''201'' ''Unable to soft enable wireless'' s
     else command (nbd_nv_commit D ''user'') s }"

definition wlan_disable :: "'h ewf_ext \<Rightarrow> nbd_daemon \<Rightarrow> 'h action" where
  "wlan_disable X D s = do {
     (r, s) \<leftarrow> do_call (nbd_wlan_disable D) s;
     if r \<noteq> 0 then api_set_custom_error X ''201'' ''Unable to soft disable wireless'' s
     else command (nbd_nv_commit D ''user'') s }"

definition wlan_setChannel :: "'h ewf_ext \<Rightarrow> nbd_daemon \<Rightarrow> 'h action" where
  "wlan_setChannel X D = set_param X D ''channel'' ''wlan_channel''"

definition wlan_setWlanMode :: "'h ewf_ext \<Rightarrow> nbd_daemon \<Rightarrow> 'h action" where
  "wlan_setWlanMode X D s = do {
     p \<leftarrow> ewf_fastcgi_get_parameter X ''mode'' s;
     case p of None \<Rightarrow> api_set_error X API_ERROR_INVALID_ARG s
     | Some v \<Rightarrow> do {
         (ret, s) \<leftarrow> do_call (cfg_set D ''wlan_mode'' v) s;
         if ret \<ge> 0 then (if ret = 0 then command (nbd_nv_commit D ''user'') s else Some s)
         else api_set_error X API_ERROR_INVALID_ARG s } }"

definition wlan_setWl0Ssid :: "'h ewf_ext \<Rightarrow> nbd_daemon \<Rightarrow> 'h action" where
  "wlan_setWl0Ssid X D = set_param X D ''ssid'' ''wlan_wl0_ssid''"

definition wlan_setWl0Enc :: "'h ewf_ext \<Rightarrow> nbd_daemon \<Rightarrow> 'h action" where
  "wlan_setWl0Enc X D = set_param X D ''enc'' ''wlan_wl0_enc''"

definition wlan_setWl0Keytype :: "'h ewf_ext \<Rightarrow> nbd_daemon \<Rightarrow> 'h action" where
  "wlan_setWl0Keytype X D = set_param X D ''keytype'' ''wlan_wl0_keytype''"

definition wlan_setWl0Wpakey :: "'h ewf_ext \<Rightarrow> nbd_daemon \<Rightarrow> 'h action" where
  "wlan_setWl0Wpakey X D = set_param X D ''wpakey'' ''wlan_wl0_wpakey''"

definition wlan_setWl0Wepkey :: "'h ewf_ext \<Rightarrow> nbd_daemon \<Rightarrow> 'h action" where
  "wlan_setWl0Wepkey X D = set_param X D ''wepkey'' ''wlan_wl0_wepkeys_n0''"

definition wlan_start :: "nbd_daemon \<Rightarrow> 'h action" where
  "wlan_start D = command (nbd_wlan_start D)"

definition wlan_stop :: "nbd_daemon \<Rightarrow> 'h action" where
  "wlan_stop D = command (nbd_sys_delay_run D ''1'' ''/usr/bin/wlan'' ''stop'')"

definition wlan_restart :: "nbd_daemon \<Rightarrow> 'h action" where
  "wlan_restart D s = do {
     up \<leftarrow> nbd_status_matches D (a_calls s) ''ses_status'' ''up'';
     if up then command (nbd_sys_delay_run D ''1'' ''/usr/bin/wlan'' ''ses_done'') s
     else command (nbd_sys_delay_run D ''1'' ''/usr/bin/wlan'' ''restart'') s }"

subsection \<open>The table of methods\<close>

abbreviation (input) GET_PUBLIC :: "'h action \<Rightarrow> 'h api_method" where
  "GET_PUBLIC act \<equiv> \<lparr>am_request_method = METHOD_GET, am_access_policy = API_ACCESS_POLICY_PUBLIC, am_action_handler = Some act\<rparr>"

abbreviation (input) GET_PRIVATE :: "'h action \<Rightarrow> 'h api_method" where
  "GET_PRIVATE act \<equiv> \<lparr>am_request_method = METHOD_GET, am_access_policy = API_ACCESS_POLICY_PRIVATE, am_action_handler = Some act\<rparr>"

abbreviation (input) POST_PRIVATE :: "'h action \<Rightarrow> 'h api_method" where
  "POST_PRIVATE act \<equiv> \<lparr>am_request_method = METHOD_POST, am_access_policy = API_ACCESS_POLICY_PRIVATE, am_action_handler = Some act\<rparr>"

text \<open>Everything that \<open>API_REGISTER_METHOD\<close> registers, for the answers of one request.\<close>

definition api_methods :: "'h ewf_ext \<Rightarrow> 'x ezxml \<Rightarrow> bool \<Rightarrow> bool \<Rightarrow> nbd_daemon \<Rightarrow> api_env \<Rightarrow> (string \<times> 'h api_method) list" where
  "api_methods X Z mem fork_ok D e = [
     (''auth.getToken'', GET_PUBLIC (getToken X D e)),
     (''auth.checkToken'', GET_PUBLIC (checkToken X D e)),
     (''app.getInfo'', GET_PUBLIC (app_getInfo X Z D mem)),
     (''backup3g.forceDataLink'', POST_PRIVATE (backup3g_forceDataLink X D)),
     (''backup3g.forceVoipLink'', POST_PRIVATE (backup3g_forceVoipLink X D)),
     (''backup3g.getPinCode'', GET_PRIVATE (backup3g_getPinCode X D)),
     (''backup3g.setPinCode'', POST_PRIVATE (backup3g_setPinCode X D)),
     (''dsl.getInfo'', GET_PUBLIC (dsl_getInfo X D)),
     (''firewall.getInfo'', GET_PRIVATE (firewall_getInfo X D)),
     (''firewall.enableSmtpFilter'', POST_PRIVATE (firewall_enableSmtpFilter D)),
     (''firewall.disableSmtpFilter'', POST_PRIVATE (firewall_disableSmtpFilter D)),
     (''hotspot.getInfo'', GET_PRIVATE (hotspot_getInfo X D)),
     (''hotspot.getClientList'', GET_PRIVATE (hotspot_getClientList X Z D mem)),
     (''hotspot.setMode'', POST_PRIVATE (hotspot_setMode X D)),
     (''hotspot.enable'', POST_PRIVATE (hotspot_enable D)),
     (''hotspot.disable'', POST_PRIVATE (hotspot_disable D)),
     (''hotspot.start'', POST_PRIVATE (hotspot_start D)),
     (''hotspot.stop'', POST_PRIVATE (hotspot_stop D)),
     (''hotspot.restart'', POST_PRIVATE (hotspot_restart D)),
     (''lan.getHostsList'', GET_PUBLIC (lan_getHostsList X Z D mem)),
     (''lan.getInfo'', GET_PUBLIC (lan_getInfo X D)),
     (''ppp.getInfo'', GET_PUBLIC (ppp_getInfo X D)),
     (''ppp.getCredentials'', GET_PRIVATE (ppp_getCredentials X D)),
     (''ppp.setCredentials'', POST_PRIVATE (ppp_setCredentials X D)),
     (''printer.getInfo'', GET_PRIVATE (printer_getInfo X D)),
     (''storage.getInfo'', GET_PRIVATE (storage_getInfo X Z D mem)),
     (''system.getInfo'', GET_PUBLIC (system_getInfo X D)),
     (''system.getWpaKey'', GET_PRIVATE (system_getWpaKey X D)),
     (''system.setNetMode'', POST_PRIVATE (system_setNetMode X)),
     (''system.reboot'', POST_PRIVATE (system_reboot D fork_ok)),
     (''voip.getInfo'', GET_PRIVATE (voip_getInfo X D)),
     (''voip.getCallhistoryList'', GET_PRIVATE (voip_getCallhistoryList X Z D mem)),
     (''voip.start'', POST_PRIVATE (voip_start D)),
     (''voip.stop'', POST_PRIVATE (voip_stop D)),
     (''voip.restart'', POST_PRIVATE (voip_restart D)),
     (''wan.getInfo'', GET_PUBLIC (wan_getInfo X D)),
     (''wlan.getInfo'', GET_PRIVATE (wlan_getInfo X D)),
     (''wlan.getClientList'', GET_PRIVATE (wlan_getClientList X Z D mem)),
     (''wlan.enable'', POST_PRIVATE (wlan_enable X D)),
     (''wlan.disable'', POST_PRIVATE (wlan_disable X D)),
     (''wlan.setChannel'', POST_PRIVATE (wlan_setChannel X D)),
     (''wlan.setWlanMode'', POST_PRIVATE (wlan_setWlanMode X D)),
     (''wlan.setWl0Ssid'', POST_PRIVATE (wlan_setWl0Ssid X D)),
     (''wlan.setWl0Enc'', POST_PRIVATE (wlan_setWl0Enc X D)),
     (''wlan.setWl0Keytype'', POST_PRIVATE (wlan_setWl0Keytype X D)),
     (''wlan.setWl0Wpakey'', POST_PRIVATE (wlan_setWl0Wpakey X D)),
     (''wlan.setWl0Wepkey'', POST_PRIVATE (wlan_setWl0Wepkey X D)),
     (''wlan.start'', POST_PRIVATE (wlan_start D)),
     (''wlan.stop'', POST_PRIVATE (wlan_stop D)),
     (''wlan.restart'', POST_PRIVATE (wlan_restart D))]"

text \<open>The controllers that the configuration of the build selects, in a table of 97 entries.\<close>

definition api_table ::
  "(string \<Rightarrow> bool) \<Rightarrow> 'h ewf_ext \<Rightarrow> 'x ezxml \<Rightarrow> bool \<Rightarrow> bool \<Rightarrow> 'h request \<Rightarrow> 'h api_method hsearch_data" where
  "api_table selected X Z mem fork_ok rq =
     \<lparr>ht_size = 97, ht_entries = filter (\<lambda>(n, m). selected n) (api_methods X Z mem fork_ok (rq_daemon rq) (rq_env rq))\<rparr>"

end
