(* ===== verification/Api_Safety.thy ===== *)
theory Api_Safety
  imports Api_Ctl
begin

text \<open>
  What the methods of the REST API may do.  Each is shown to leave the sessions alone, and those that
  need no token to send no command to the daemon.  With the results on tokens and on the
  dispatcher this gives what holds of the whole process, for every sequence of requests.
\<close>

subsection \<open>Frames of the methods\<close>

definition read_only :: "'h action \<Rightarrow> bool" where
  "read_only act \<longleftrightarrow> (\<forall>s s'. act s = Some s' \<longrightarrow>
     a_sess s' = a_sess s \<and> length (a_buffer s') = length (a_buffer s) \<and> a_calls s' = a_calls s)"

definition keeps_length :: "(calls \<Rightarrow> buf \<Rightarrow> u32 \<Rightarrow> (int \<times> buf) exec) \<Rightarrow> bool" where
  "keeps_length get \<longleftrightarrow> (\<forall>h b n r b'. get h b n = Some (r, b') \<longrightarrow> length b' = length b)"

lemma nbd_get_length: "nbd_get D h args b n = Some (r, b') \<Longrightarrow> length b' = length b"
  by (auto simp: nbd_get_Some answer_spec_def split: if_splits)

lemma hook_status_length: "nbl_voip_get_hook_status D h b n = Some (r, b') \<Longrightarrow> length b' = length b"
  by (auto simp: nbl_voip_get_hook_status_def bind_Some_iff nbd_status_get_def split: if_splits dest!: nbd_get_length printf_length)

lemma keeps_length_gets [intro!, simp]:
  "keeps_length (\<lambda>h. nbd_nv_get D h k)" "keeps_length (\<lambda>h. nbd_status_get D h k)" "keeps_length (\<lambda>h. nbd_dsl_get D h k)"
  "keeps_length (\<lambda>h. nbd_user_config_get D h k)" "keeps_length (nbd_wlan_macfiltering_mode D)" "keeps_length (nbd_wlan_active D)"
  "keeps_length (nbl_voip_get_hook_status D)"
  unfolding keeps_length_def nbd_nv_get_def nbd_status_get_def nbd_dsl_get_def nbd_user_config_get_def
    nbd_wlan_macfiltering_mode_def nbd_wlan_active_def
  using nbd_get_length hook_status_length by blast+

named_theorems frame "frames of the methods"

lemma read_only_set_value [frame]: "read_only (api_set_value X n v)"
  by (auto simp: read_only_def dest: error_frames(3))

lemma read_only_error [frame]: "read_only (api_set_error X e)" "read_only (api_set_custom_error X i t)"
  by (auto simp: read_only_def dest: error_frames(1,2))

lemma read_only_list_value [frame]: "read_only (list_value X n v)"
  by (auto simp: read_only_def list_value_def bind_Some_iff dest!: set_buffer_frame error_frames(3))

lemma read_only_show_value [frame]: "keeps_length get \<Longrightarrow> read_only (show_value X get n)"
  by (auto simp: read_only_def show_value_def bind_Some_iff Let_def keeps_length_def split: if_splits dest!: error_frames(3))

lemma read_onlyD:
  "read_only act \<Longrightarrow> act s = Some s' \<Longrightarrow> a_sess s' = a_sess s \<and> length (a_buffer s') = length (a_buffer s) \<and> a_calls s' = a_calls s"
  by (simp add: read_only_def)

lemma read_only_bind [frame]:
  assumes "read_only f" and "read_only g"
  shows "read_only (\<lambda>s. f s \<bind> g)"
  unfolding read_only_def
proof (intro allI impI)
  fix s s' assume "f s \<bind> g = Some s'"
  then obtain t where "f s = Some t" "g t = Some s'" by (auto simp: bind_Some_iff)
  then show "a_sess s' = a_sess s \<and> length (a_buffer s') = length (a_buffer s) \<and> a_calls s' = a_calls s"
    using read_onlyD [OF assms(1)] read_onlyD [OF assms(2)] by simp
qed

lemma read_only_Some [frame]: "read_only Some" "read_only (\<lambda>s. Some s)"
  by (simp_all add: read_only_def)

lemma read_only_with_xml [frame]: "(\<And>root. read_only (k root)) \<Longrightarrow> read_only (with_xml Z get k)"
  by (auto simp: read_only_def with_xml_def bind_Some_iff split: if_splits option.splits)

lemma read_only_let: "read_only g \<Longrightarrow> read_only (\<lambda>s. f \<bind> (\<lambda>x. g s))"
  by (auto simp: read_only_def bind_Some_iff)

subsection \<open>The methods that only read\<close>

lemma read_only_loops [frame]:
  "read_only (hotspot_assocs X Z n nodes)" "read_only (lan_hosts X Z n nodes)"
proof (induction nodes arbitrary: n)
  case (Cons x xs)
  case 1 show ?case unfolding hotspot_assocs.simps [abs_def] Let_def by (intro frame Cons)
  case 2 show ?case
    unfolding lan_hosts.simps [abs_def] Let_def if_distrib [symmetric]
    by (cases "nbu_string_compare (Some (ezxml_child_txt Z x ''type'')) (Some ''pc'') = NBU_SUCCESS
         \<or> nbu_string_compare (Some (ezxml_child_txt Z x ''type'')) (Some ''stb'') = NBU_SUCCESS") (simp_all only: if_True if_False, (intro frame Cons)+)
qed (simp_all add: read_only_def)

lemma read_only_voip_calls [frame]: "read_only (voip_calls X Z n nodes)"
proof (induction nodes arbitrary: n)
  case (Cons x xs)
  show ?case unfolding read_only_def
    by (auto simp: bind_Some_iff Let_def dest!: read_onlyD [OF read_only_list_value] read_onlyD [OF Cons])
qed (simp add: read_only_def)

lemma read_only_wlan_clients [frame]: "read_only (wlan_clients X Z D n nodes)"
proof (induction nodes arbitrary: n)
  case (Cons x xs)
  show ?case unfolding read_only_def
    by (auto simp: bind_Some_iff Let_def dest!: read_onlyD [OF read_only_list_value] read_onlyD [OF Cons])
qed (simp add: read_only_def)

lemma read_only_set_part_values: "read_only (set_part_values X n ps)"
  unfolding set_part_values_def [abs_def] by (intro frame)

lemma show_parts_frame:
  assumes "show_parts X D k n ps s = Some (ps', s')"
  shows "a_sess s' = a_sess s \<and> length (a_buffer s') = length (a_buffer s) \<and> a_calls s' = a_calls s"
proof -
  obtain r b where g: "nbd_get D (a_calls s) [''nvram'', ''get'', k] (a_buffer s) 256 = Some (r, b)"
    using assms by (auto simp: show_parts_def nbd_nv_get_def bind_Some_iff)
  let ?s = "s\<lparr>a_buffer := b\<rparr>"
  have "s' = ?s \<or> (\<exists>qs. set_part_values X n qs ?s = Some s')"
    using assms g by (auto simp: show_parts_def nbd_nv_get_def bind_Some_iff Let_def split: if_splits)
  then show ?thesis using nbd_get_length [OF g] read_onlyD [OF read_only_set_part_values] by fastforce
qed

lemma read_only_lan_getInfo: "read_only (lan_getInfo X D)"
  unfolding read_only_def
  by (auto simp: lan_getInfo_def bind_Some_iff dest!: show_parts_frame read_onlyD [OF read_only_show_value [OF keeps_length_gets(1)]])

lemma read_only_ppp_getInfo: "read_only (ppp_getInfo X D)"
  unfolding read_only_def
  by (auto simp: ppp_getInfo_def show_ppp_def bind_Some_iff split: if_splits dest!: read_onlyD [OF read_only_show_value [OF keeps_length_gets(2)]])

lemma read_only_public:
  "read_only (app_getInfo X Z D mem)" "read_only (dsl_getInfo X D)" "read_only (lan_getHostsList X Z D mem)"
  "read_only (lan_getInfo X D)" "read_only (ppp_getInfo X D)" "read_only (system_getInfo X D)" "read_only (wan_getInfo X D)"
  unfolding app_getInfo_def [abs_def] dsl_getInfo_def [abs_def] lan_getHostsList_def system_getInfo_def [abs_def] wan_getInfo_def [abs_def]
  by (intro frame keeps_length_gets read_only_lan_getInfo read_only_ppp_getInfo)+

lemma read_only_private:
  "read_only (backup3g_getPinCode X D)" "read_only (firewall_getInfo X D)" "read_only (hotspot_getInfo X D)"
  "read_only (hotspot_getClientList X Z D mem)" "read_only (ppp_getCredentials X D)" "read_only (printer_getInfo X D)"
  "read_only (storage_getInfo X Z D mem)" "read_only (system_getWpaKey X D)" "read_only (voip_getInfo X D)"
  "read_only (voip_getCallhistoryList X Z D mem)" "read_only (wlan_getInfo X D)" "read_only (wlan_getClientList X Z D mem)"
  unfolding backup3g_getPinCode_def firewall_getInfo_def [abs_def] hotspot_getInfo_def [abs_def] hotspot_getClientList_def
    ppp_getCredentials_def [abs_def] printer_getInfo_def [abs_def] storage_getInfo_def [abs_def] system_getWpaKey_def
    voip_getInfo_def [abs_def] voip_getCallhistoryList_def wlan_getInfo_def [abs_def] wlan_getClientList_def
  by (intro frame keeps_length_gets)+

subsection \<open>The methods that change the configuration\<close>

lemma session_freeD:
  "session_free act \<Longrightarrow> act s = Some s' \<Longrightarrow> a_sess s' = a_sess s \<and> length (a_buffer s') = length (a_buffer s)"
  by (simp add: session_free_def)

lemma session_free_read_only: "read_only act \<Longrightarrow> session_free act"
  by (simp add: read_only_def session_free_def)

lemma session_free_command [frame]: "session_free (command f)"
  by (auto simp: session_free_def command_def do_call_def bind_Some_iff)

lemma session_free_bind [frame]:
  assumes "session_free f" and "session_free g"
  shows "session_free (\<lambda>s. f s \<bind> g)"
  unfolding session_free_def
proof (intro allI impI)
  fix s s' assume "f s \<bind> g = Some s'"
  then obtain t where "f s = Some t" "g t = Some s'" by (auto simp: bind_Some_iff)
  then show "a_sess s' = a_sess s \<and> length (a_buffer s') = length (a_buffer s)"
    using session_freeD [OF assms(1)] session_freeD [OF assms(2)] by simp
qed

lemma session_free_set_param [frame]: "session_free (set_param X D p k)"
  by (auto simp: session_free_def set_param_def bind_Some_iff split: option.splits dest!: session_freeD [OF session_free_command])

lemma do_call_frame: "do_call f s = Some (r, s') \<Longrightarrow> a_sess s' = a_sess s \<and> a_buffer s' = a_buffer s"
  by (auto simp: do_call_def bind_Some_iff)

lemma session_free_simple:
  "session_free (backup3g_forceDataLink X D)" "session_free (backup3g_forceVoipLink X D)" "session_free (firewall_enableSmtpFilter D)"
  "session_free (firewall_disableSmtpFilter D)" "session_free (hotspot_setMode X D)" "session_free (hotspot_enable D)"
  "session_free (hotspot_disable D)" "session_free (hotspot_start D)" "session_free (hotspot_stop D)" "session_free (hotspot_restart D)"
  "session_free (voip_start D)" "session_free (voip_stop D)" "session_free (voip_restart D)" "session_free (wlan_setChannel X D)"
  "session_free (wlan_setWl0Ssid X D)" "session_free (wlan_setWl0Enc X D)" "session_free (wlan_setWl0Keytype X D)"
  "session_free (wlan_setWl0Wpakey X D)" "session_free (wlan_setWl0Wepkey X D)" "session_free (wlan_start D)" "session_free (wlan_stop D)"
  unfolding backup3g_forceDataLink_def backup3g_forceVoipLink_def firewall_enableSmtpFilter_def [abs_def] firewall_disableSmtpFilter_def [abs_def]
    hotspot_setMode_def hotspot_enable_def [abs_def] hotspot_disable_def [abs_def] hotspot_start_def hotspot_stop_def hotspot_restart_def
    voip_start_def voip_stop_def voip_restart_def wlan_setChannel_def wlan_setWl0Ssid_def wlan_setWl0Enc_def wlan_setWl0Keytype_def
    wlan_setWl0Wpakey_def wlan_setWl0Wepkey_def wlan_start_def wlan_stop_def
  by (intro frame)+

lemma try_param_frame: "try_param X D p k s = Some (r, s') \<Longrightarrow> a_sess s' = a_sess s \<and> a_buffer s' = a_buffer s"
  by (auto simp: try_param_def bind_Some_iff split: option.splits dest: do_call_frame)

lemma session_free_call: "(\<And>r. session_free (k r)) \<Longrightarrow> session_free (\<lambda>s. do_call f s \<bind> (\<lambda>(r, s). k r s))"
  by (fastforce simp: session_free_def bind_Some_iff dest: do_call_frame)

lemma session_free_try: "(\<And>r. session_free (k r)) \<Longrightarrow> session_free (\<lambda>s. try_param X D p q s \<bind> (\<lambda>(r, s). k r s))"
  by (fastforce simp: session_free_def bind_Some_iff dest: try_param_frame)

lemma session_free_if: "session_free f \<Longrightarrow> session_free g \<Longrightarrow> session_free (\<lambda>s. if c then f s else g s)"
  by (cases c) simp_all

lemma session_free_param:
  "session_free f \<Longrightarrow> (\<And>v. session_free (g v)) \<Longrightarrow>
    session_free (\<lambda>s. ewf_fastcgi_get_parameter X p s \<bind> (\<lambda>p. case p of None \<Rightarrow> f s | Some v \<Rightarrow> g v s))"
  by (auto simp: session_free_def bind_Some_iff split: option.splits)

lemmas session_free_errors = read_only_error [THEN session_free_read_only] read_only_Some [THEN session_free_read_only]

lemma session_free_tests:
  "session_free (backup3g_setPinCode X D)" "session_free (ppp_setCredentials X D)" "session_free (wlan_enable X D)"
  "session_free (wlan_disable X D)" "session_free (wlan_setWlanMode X D)" "session_free (system_reboot D fork_ok)"
  unfolding backup3g_setPinCode_def [abs_def] ppp_setCredentials_def [abs_def] wlan_enable_def [abs_def] wlan_disable_def [abs_def]
    wlan_setWlanMode_def [abs_def] system_reboot_def [abs_def]
  by (intro session_free_call session_free_try session_free_if session_free_param session_free_errors frame)+

lemma session_free_rest: "session_free (system_setNetMode X)" "session_free (wlan_restart D)"
  by (auto simp: session_free_def system_setNetMode_def wlan_restart_def bind_Some_iff split: if_splits
      dest: session_freeD [OF session_free_command])

lemmas session_free_all = session_free_simple session_free_tests session_free_rest
  read_only_public [THEN session_free_read_only] read_only_private [THEN session_free_read_only]

lemma methods_sessions:
  assumes "(n, m) \<in> set (api_methods X Z mem fork_ok (rq_daemon rq) (rq_env rq))"
  shows "method_ok X rq m"
  using assms by (auto simp: api_methods_def method_ok_def session_free_all)

lemma methods_public:
  assumes "(n, m) \<in> set (api_methods X Z mem fork_ok D e)" and "am_access_policy m = API_ACCESS_POLICY_PUBLIC"
    and "am_action_handler m = Some act"
  shows "act = getToken X D e \<or> act = checkToken X D e \<or> read_only act"
  using assms by (auto simp: api_methods_def read_only_public)

subsection \<open>Commands to the daemon\<close>

definition halts_button :: "'h action \<Rightarrow> bool" where
  "halts_button act \<longleftrightarrow> (\<forall>s s'. act s = Some s' \<longrightarrow>
     a_calls s' = a_calls s \<or> a_calls s' = a_calls s @ [[''nbctl'', ''halt_webautologin'']])"

lemma halts_read_only: "read_only act \<Longrightarrow> halts_button act"
  by (simp add: read_only_def halts_button_def)

lemma new_token_calls: "new_token X D e s = Some s' \<Longrightarrow> a_calls s' = a_calls s"
  by (auto simp: new_token_def bind_Some_iff Let_def split: if_splits dest!: error_frames)

lemma halts_getToken: "halts_button (getToken X D e)"
  by (auto simp: halts_button_def getToken_def bind_Some_iff Let_def split: if_splits
      dest!: error_frames(2) new_token_calls hdf_onlyD [OF note_auth_off_frame])

lemma check_button_calls: "check_button X D e d t s = Some s' \<Longrightarrow>
    a_calls s' = a_calls s \<or> a_calls s' = a_calls s @ [[''nbctl'', ''halt_webautologin'']]"
  by (auto simp: check_button_def bind_Some_iff Let_def nbd_halt_webautologin_def nbd_set_Some split: if_splits dest!: error_frames)

lemma accept_calls: "accept_token X e d t s = Some s' \<Longrightarrow> a_calls s' = a_calls s"
  by (auto simp: accept_token_def bind_Some_iff dest!: error_frames(3))

lemma login_calls: "check_login X D t arg s = Some r \<Longrightarrow> a_calls (case r of Inl s' \<Rightarrow> s' | Inr s' \<Rightarrow> s') = a_calls s"
  by (auto simp: check_login_def bind_Some_iff Let_def set_a_mem_def split: if_splits dest!: error_frames(1,2))

lemma password_calls: "check_password X D t arg s = Some r \<Longrightarrow> a_calls (case r of Inl s' \<Rightarrow> s' | Inr s' \<Rightarrow> s') = a_calls s"
  by (auto simp: check_password_def bind_Some_iff Let_def set_a_mem_def split: if_splits dest!: error_frames(1,2))

lemma check_passwd_calls:
  assumes "check_passwd X D e d t h s = Some s'"
  shows "a_calls s' = a_calls s"
proof (cases "length h = 128")
  case True
  obtain arg arg2 l where l: "check_login X D t arg s = Some l"
    and rest: "(case l of Inl s \<Rightarrow> Some s | Inr s \<Rightarrow> do {
        p \<leftarrow> check_password X D t arg2 s;
        case p of Inl s \<Rightarrow> Some s | Inr s \<Rightarrow> accept_token X e d t s }) = Some s'"
    using assms True by (fastforce simp: check_passwd_def bind_Some_iff cong: sum.case_cong)
  show ?thesis
  proof (cases l)
    case (Inl s1)
    then show ?thesis using rest login_calls [OF l] by simp
  next
    case (Inr s1)
    then obtain p where p: "check_password X D t arg2 s1 = Some p" "(case p of Inl s \<Rightarrow> Some s | Inr s \<Rightarrow> accept_token X e d t s) = Some s'"
      using rest by (auto simp: bind_Some_iff)
    then show ?thesis using password_calls [OF p(1)] login_calls [OF l] Inr by (cases p) (auto dest: accept_calls)
  qed
qed (use assms in \<open>auto simp: check_passwd_def dest: error_frames(2)\<close>)

lemma choose_calls: "choose_method X a s = Some (Inl s') \<Longrightarrow> a_calls s' = a_calls s"
  by (auto simp: choose_method_def bind_Some_iff split: if_splits dest!: error_frames(1,2))

lemma check_session_calls:
  assumes "check_session X D e d t s = Some s'"
  shows "a_calls s' = a_calls s \<or> a_calls s' = a_calls s @ [[''nbctl'', ''halt_webautologin'']]"
proof -
  consider "a_calls s' = a_calls s"
    | a m where "choose_method X a s = Some m"
      "(case m of Inl s \<Rightarrow> Some s | Inr (auth_button, _) \<Rightarrow> check_button X D e d t s
        | Inr (auth_passwd, hash) \<Rightarrow> do { h \<leftarrow> hash; check_passwd X D e d t h s } | Inr _ \<Rightarrow> Some s) = Some s'"
    using assms by (auto simp: check_session_def bind_Some_iff Let_def split: if_splits dest!: error_frames(1,2))
  then show ?thesis
  proof cases
    case 2
    show ?thesis
    proof (cases m)
      case (Inl s1)
      then show ?thesis using 2 by (auto dest: choose_calls)
    next
      case (Inr p)
      then obtain meth h where "m = Inr (meth, h)" by (cases p) auto
      then show ?thesis using 2(2) check_button_calls [of X D e d t s s']
        by (cases meth) (auto simp: bind_Some_iff dest: check_passwd_calls)
    qed
  qed simp
qed

lemma halts_checkToken: "halts_button (checkToken X D e)"
  unfolding halts_button_def
  by (auto simp: checkToken_def bind_Some_iff Let_def split: if_splits option.splits dest!: error_frames(1,2) check_session_calls)

lemma request_calls:
  assumes X: "hdf_laws X" and m: "\<And>act. am_action_handler m = Some act \<Longrightarrow> halts_button act"
    and run: "api_handle_request X C D time (Some m) name s = Some s'"
  shows "a_calls s' = a_calls s \<or> a_calls s' = a_calls s @ [[''nbctl'', ''halt_webautologin'']]"
proof (cases "\<exists>e. api_fail X e s = Some s'")
  case True
  then show ?thesis using quiet_fail [OF X] by (auto simp: quiet_def)
next
  case False
  then obtain act s1 where act: "am_action_handler m = Some act" "handle_upgrading X D s = Some s1"
    using run by (auto simp: api_handle_request_def bind_Some_iff split: option.splits if_splits)
  have c1: "a_calls s1 = a_calls s" using quiet_upgrading [OF X act(2)] by (simp add: quiet_def)
  define s2 where "s2 = (if am_request_method m = METHOD_POST then s1\<lparr>a_hdf := cgi_parse C (a_hdf s1)\<rparr> else s1)"
  obtain ok s3 where s3: "handle_authoriz X D time (am_access_policy m) s2 = Some (ok, s3)"
    using run act False by (auto simp: api_handle_request_def bind_Some_iff Let_def s2_def split: if_splits)
  obtain s4 t where s4: "(if \<not> ok then set_buffer ''api/generic.xml'' s3 else handle_action X (am_request_method m) name act s3) = Some s4"
    "s' = ewf_fastcgi_display t s4"
    using run act False s3 by (auto simp: api_handle_request_def bind_Some_iff Let_def s2_def split: if_splits)
  have c3: "a_calls s3 = a_calls s2"
    using s3 by (auto simp: handle_authoriz_def authoriz_token_def bind_Some_iff Let_def split: if_splits option.splits dest!: error_frames(1))
  have "a_calls s4 = a_calls s3 \<or> a_calls s4 = a_calls s3 @ [[''nbctl'', ''halt_webautologin'']]"
  proof (cases ok)
    case False
    then show ?thesis using s4(1) by (auto dest: set_buffer_frame)
  next
    case True
    then obtain s5 where s5: "act s3 = Some s5" using s4(1) by (auto simp: handle_action_def bind_Some_iff)
    have "a_calls s4 = a_calls s5"
      using s4(1) True s5 by (auto simp: handle_action_def bind_Some_iff split: if_splits dest!: set_buffer_frame error_frames(3))
    then show ?thesis using m [OF act(1)] s5 by (auto simp: halts_button_def)
  qed
  then show ?thesis using c1 s4(2) c3 by (simp add: ewf_fastcgi_display_def s2_def split: if_splits)
qed

lemma serve_calls:
  assumes X: "hdf_laws X" and m: "\<And>n m act. (n, m) \<in> set (ht_entries methods) \<Longrightarrow> am_action_handler m = Some act \<Longrightarrow> halts_button act"
    and run: "api_serve X C D time boxname methods s = Some s'"
  shows "a_calls s' = a_calls s \<or> a_calls s' = a_calls s @ [[''nbctl'', ''halt_webautologin'']]"
proof -
  obtain s3 where s3: "dispatch_values X boxname (s\<lparr>a_hdf := cgi_init C\<rparr>) = Some s3"
    using run by (auto simp: api_serve_def api_dispatch_def bind_Some_iff)
  have c: "a_calls s3 = a_calls s" using quiet_values [OF X s3] by (simp add: quiet_def)
  consider e where "api_fail X e s3 = Some s'"
    | name m where "(name, m) \<in> set (ht_entries methods)" "api_handle_request X C D time (Some m) name s3 = Some s'"
    using run s3 by (auto simp: api_serve_def api_dispatch_def bind_Some_iff ewf_hashtable_find_def
        split: if_splits option.splits dest: map_of_SomeD)
  then show ?thesis
  proof cases
    case 1
    then show ?thesis using quiet_fail [OF X 1] c by (simp add: quiet_def)
  next
    case 2
    from request_calls [OF X m [OF 2(1)] 2(2)] c show ?thesis by simp
  qed
qed

lemma table_halts:
  assumes "(n, m) \<in> set (ht_entries (mask_private Some (api_table selected X Z mem fork_ok rq)))" and "am_action_handler m = Some act"
  shows "halts_button act"
proof -
  obtain m0 where m0: "(n, m0) \<in> set (api_methods X Z mem fork_ok (rq_daemon rq) (rq_env rq))" "m = mask_method Some m0"
    using assms(1) by (auto simp: mask_private_def api_table_def)
  show ?thesis
  proof (cases "am_access_policy m0 = API_ACCESS_POLICY_PRIVATE \<and> am_action_handler m0 \<noteq> None")
    case True
    then have "act = Some" using m0(2) assms(2) by (simp add: mask_method_def)
    then show ?thesis using read_only_Some(1) halts_read_only by blast
  next
    case False
    then have "am_action_handler m0 = Some act" using m0(2) assms(2) by (auto simp: mask_method_def split: if_splits)
    moreover from this False have "am_access_policy m0 = API_ACCESS_POLICY_PUBLIC" by (cases "am_access_policy m0") auto
    ultimately show ?thesis using methods_public [OF m0(1)] halts_getToken halts_checkToken halts_read_only by blast
  qed
qed

subsection \<open>The process\<close>

lemma table_methods_ok:
  assumes "\<forall>rq \<in> set rqs. times_ok rq \<and> cgi_strings X (rq_cgi rq)"
  shows "\<forall>rq \<in> set rqs. times_ok rq \<and> cgi_strings X (rq_cgi rq) \<and> methods_ok X rq (api_table selected X Z mem fork_ok rq)"
  using assms methods_sessions by (fastforce simp: methods_ok_def api_table_def)

lemma digit_chr_hex:
  assumes "d < 16"
  shows "digit_chr d \<in> set ''0123456789abcdef''"
proof -
  have "list_all (\<lambda>d. digit_chr d \<in> set ''0123456789abcdef'') [0..<16]" by code_simp
  then have "\<forall>d \<in> {0..<16}. digit_chr d \<in> set ''0123456789abcdef''" by (simp only: list_all_iff set_upt)
  then show ?thesis by (rule bspec) (simp add: assms)
qed

lemma hex_id_digits: "set (hex_id bytes) \<subseteq> set ''0123456789abcdef''"
proof -
  have "set (hex2 (unat r)) \<subseteq> set ''0123456789abcdef''" for r :: u8
    using digit_chr_hex [of "unat r div 16"] digit_chr_hex [of "unat r mod 16"] unat_u8_less [of r]
    by (simp only: hex2_def list.set insert_subset) (simp only: less_mult_imp_div_less; simp)
  then show ?thesis unfolding hex_id_def set_concat set_map by blast
qed

text \<open>
  C1: A request without the token of a live session cannot change the box: as long as authentication is not
  switched off, whatever method it names, the only command that the REST API may send to the
  daemon while serving it is the one that halts the button after a token was validated.
\<close>

theorem unauthenticated_changes_nothing:
  assumes "hdf_laws X" and "cgi_strings X (rq_cgi rq)" and "table (a_sess s) ps" and "times_ok rq"
    and "\<not> auth_off (rq_daemon rq) (a_calls s)" and "post_token X (rq_cgi rq) body"
    and "token_dead (rq_time rq) ps (hdf_get_value X (cgi_init (rq_cgi rq)) ''Query.token'')" and "token_dead (rq_time rq) ps body"
    and "api_main X boxname (api_table selected X Z mem fork_ok) [rq] s = Some s'"
  shows "a_calls s' = a_calls s \<or> a_calls s' = a_calls s @ [[''nbctl'', ''halt_webautologin'']]"
proof -
  have "api_serve X (rq_cgi rq) (rq_daemon rq) (rq_time rq) boxname (mask_private Some (api_table selected X Z mem fork_ok rq)) s = Some s'"
    using private_masked [OF assms(1-3) _ assms(5-8), of boxname Some "api_table selected X Z mem fork_ok rq"] assms(4,9)
    by (auto simp: times_ok_def bind_Some_iff)
  from serve_calls [OF assms(1) _ this] table_halts show ?thesis by blast
qed

text \<open>
  C3: Over every sequence of requests from the start of the process, whatever controllers are
  built in, a session is activated only if an earlier request presented its token while the button was on, or with the
  hash of the token with the login and the password of the box, as the configured method of
  authentication asks for.
\<close>

theorem activated_was_validated:
  assumes "sha2_laws X" and "hdf_laws X" and "table (a_sess s0) []" and "length (a_buffer s0) = 256"
    and "\<forall>rq \<in> set rqs. times_ok rq \<and> cgi_strings X (rq_cgi rq)"
    and "api_main X boxname (api_table selected X Z mem fork_ok) rqs s0 = Some s"
  shows "\<exists>ps. table (a_sess s) ps \<and> (\<forall>(d, w) \<in> set ps. s_activated w \<noteq> 0 \<longrightarrow>
    (\<exists>pre rq post s1. rqs = pre @ rq # post \<and> api_main X boxname (api_table selected X Z mem fork_ok) pre s0 = Some s1 \<and>
      query_param X ''token'' (s1\<lparr>a_hdf := cgi_init (rq_cgi rq)\<rparr>) = Some (sid w) \<and>
      credential_ok X (rq_daemon rq) (s1\<lparr>a_hdf := cgi_init (rq_cgi rq)\<rparr>) (sid w)))"
proof -
  let ?M = "api_table selected X Z mem fork_ok"
  have "\<forall>rq \<in> set rqs. times_ok rq \<and> cgi_strings X (rq_cgi rq) \<and> methods_ok X rq (?M rq)"
    by (rule table_methods_ok [OF assms(5)])
  from main_inv [OF assms(1-4) this assms(6)] obtain ps where ps: "table (a_sess s) ps" "token_inv (validated X boxname ?M rqs s0) ps"
    by blast
  have "sid w \<in> validated X boxname ?M rqs s0" if "(d, w) \<in> set ps" "s_activated w \<noteq> 0" for d w
    using ps(2) that by (force simp: token_inv_def token_good_def ids_def)
  then show ?thesis using ps(1) unfolding validated_def presented_def by fast
qed


text \<open>
  C6: One request is a run of the abstract machine of tokens: sessions are dropped or refreshed, a token
  of 20 random bytes is appended while there are at most 64 sessions, or a token that the request presents
  with the right credential is activated, and nothing else happens to the table.
\<close>

theorem serve_refines_tokens:
  assumes "sha2_laws X" and "hdf_laws X" and "cgi_strings X (rq_cgi rq)" and "times_ok rq"
    and "table (a_sess s) ps" and "length (a_buffer s) = 256" and "length ps \<le> 65"
    and "api_main X boxname (api_table selected X Z mem fork_ok) [rq] s = Some s'"
  shows "\<exists>ps'. table (a_sess s') ps' \<and> (token_step (presented X (rq_daemon rq) (s\<lparr>a_hdf := cgi_init (rq_cgi rq)\<rparr>)))\<^sup>*\<^sup>* ps ps'"
proof -
  have "methods_ok X rq (api_table selected X Z mem fork_ok rq)"
    using methods_sessions by (fastforce simp: methods_ok_def api_table_def)
  moreover have "api_serve X (rq_cgi rq) (rq_daemon rq) (rq_time rq) boxname (api_table selected X Z mem fork_ok rq) s = Some s'"
    using assms(8) by (simp add: bind_Some_iff)
  ultimately show ?thesis using serve_steps [OF assms(1-3,5-7,4)] by blast
qed

subsection \<open>An example\<close>

text \<open>
  A box whose button is on, seen from the start of the process: a client asks for a token, has it validated and then
  calls a private method with it.
\<close>

declare for_each_loop.simps [code]

definition ex_empty :: "nat \<Rightarrow> session_state" where
  "ex_empty k = \<lparr>ewf_session_list = 1, ss_mem = \<lparr>
     m_nodes = [1 \<mapsto> \<lparr>nd_prev = 1, nd_next = 1, nd_data = 0\<rparr>],
     m_lists = [1 \<mapsto> \<lparr>l_count = 0, l_data_size = 56, l_term = None, l_iter = 0\<rparr>],
     m_objs = (\<lambda>_. None), m_brk = 2, m_avail = k\<rparr>\<rparr>"

lemma ex_empty_table [simp]: "table (ex_empty k) []"
  unfolding table_def table_at_def
proof
  show "objs_at (ss_mem (ex_empty k)) (ewf_session_list (ex_empty k)) []"
    by (rule objs_atI [where as = "[]"]) (simp_all add: ex_empty_def list_at_def live_def ring_def nxt_def prv_def dat_def)
qed simp

definition ex_xml :: "unit ezxml" where
  "ex_xml = \<lparr>ezxml_parse_str = (\<lambda>_. None), ezxml_child = (\<lambda>_ _. []), ezxml_get = (\<lambda>_ _ _ _. []), ezxml_txt = (\<lambda>_. []),
     ezxml_child_txt = (\<lambda>_ _. [])\<rparr>"

definition ex_request :: "(string \<times> string) list \<Rightarrow> (string \<times> string) list request" where
  "ex_request h = \<lparr>rq_cgi = ex_get h, rq_daemon = ex_box, rq_time = Some \<lparr>tv_sec = 1000, tv_usec = 0\<rparr>, rq_env = ex_env\<rparr>"

definition ex_run :: "(string \<times> string) list request list \<Rightarrow> session_state \<Rightarrow> (string \<times> string) list api exec" where
  "ex_run rqs st = api_main ex_ext ''NB6'' (api_table (\<lambda>_. True) ex_ext ex_xml True True) rqs (ex_api st [])"

definition ex_requests :: "(string \<times> string) list request list" where
  "ex_requests = [ex_request [(''Query.method'', ''auth.getToken'')],
     ex_request [(''Query.method'', ''auth.checkToken''), (''Query.token'', concat (replicate 20 ''ab''))],
     ex_request [(''Query.method'', ''backup3g.getPinCode''), (''Query.token'', concat (replicate 20 ''ab''))]]"

lemma ex_run_displays:
  "map_option (\<lambda>s. (a_display s, a_calls s)) (ex_run ex_requests (ex_empty 9)) =
     Some ([''api/auth.getToken.xml'', ''api/auth.checkToken.xml'', ''api/backup3g.getPinCode.xml''], [[''nbctl'', ''halt_webautologin'']])"
  by code_simp

lemma ex_cgi_strings: "\<forall>p \<in> set h. NUL \<notin> set (snd p) \<Longrightarrow> cgi_strings ex_ext (rq_cgi (ex_request h))"
  by (auto simp: cgi_strings_def query_strings_def ex_request_def split: if_splits dest!: map_of_SomeD)

lemma ex_times_ok: "times_ok (ex_request h)"
  by (simp add: times_ok_def ex_request_def ex_env_def time_ok_def)

lemma ex_requests_ok: "\<forall>rq \<in> set ex_requests. times_ok rq \<and> cgi_strings ex_ext (rq_cgi rq)"
proof -
  have "NUL \<notin> set (concat (replicate 20 ''ab''))" by simp
  then show ?thesis unfolding ex_requests_def by (simp add: ex_times_ok ex_cgi_strings)
qed

text \<open>\<open>system.reboot\<close> without a token, on the table with the session \<open>ab\<close> that is not activated.\<close>

definition ex_reboot :: "(string \<times> string) list request" where
  "ex_reboot = (ex_request [])\<lparr>rq_cgi := ex_cgi\<lparr>cgi_init := [(''CGI.RequestURI'', ''/api''), (''CGI.RequestMethod'', ''POST''),
     (''Query.method'', ''system.reboot''), (''Query.token'', ''ab'')]\<rparr>\<rparr>"

lemma ex_reboot_refused: "map_option a_display (ex_run [ex_reboot] (ex_sess 3)) = Some [''api/generic.xml'']"
  by code_simp

theorem unauthenticated_changes_nothing_witness:
  "\<exists>s'. ex_run [ex_reboot] (ex_sess 3) = Some s' \<and> (a_calls s' = [] \<or> a_calls s' = [[''nbctl'', ''halt_webautologin'']])"
proof -
  obtain s' where s': "ex_run [ex_reboot] (ex_sess 3) = Some s'" using ex_reboot_refused by auto
  have "cgi_strings ex_ext (rq_cgi ex_reboot)" by (auto simp: ex_reboot_def cgi_strings_def query_strings_def ex_cgi_def)
  moreover have "times_ok ex_reboot" using ex_times_ok [of "[]"] by (simp add: times_ok_def ex_reboot_def)
  moreover have "post_token ex_ext (rq_cgi ex_reboot) None" by (simp add: post_token_def ex_reboot_def ex_cgi_def)
  ultimately show ?thesis
    using unauthenticated_changes_nothing [of ex_ext ex_reboot "ex_api (ex_sess 3) []" "[(2, ex_session)]" None "''NB6''" "\<lambda>_. True"
        ex_xml True True s'] s'
    by (simp add: ex_run_def) (simp add: ex_reboot_def ex_request_def token_dead_def ex_cgi_def)
qed

theorem activated_was_validated_witness:
  "\<exists>s ps. ex_run ex_requests (ex_empty 9) = Some s \<and> table (a_sess s) ps \<and> (\<forall>(d, w) \<in> set ps. s_activated w \<noteq> 0 \<longrightarrow>
    (\<exists>pre rq post s1. ex_requests = pre @ rq # post \<and> ex_run pre (ex_empty 9) = Some s1 \<and>
      query_param ex_ext ''token'' (s1\<lparr>a_hdf := cgi_init (rq_cgi rq)\<rparr>) = Some (sid w) \<and>
      credential_ok ex_ext (rq_daemon rq) (s1\<lparr>a_hdf := cgi_init (rq_cgi rq)\<rparr>) (sid w)))"
proof -
  obtain s where s: "ex_run ex_requests (ex_empty 9) = Some s" using ex_run_displays by auto
  show ?thesis
    using activated_was_validated [of ex_ext "ex_api (ex_empty 9) []" ex_requests "''NB6''" "\<lambda>_. True" ex_xml True True s]
      ex_requests_ok s unfolding ex_run_def by simp
qed


theorem serve_refines_tokens_witness:
  "\<exists>s' ps'. ex_run [ex_reboot] (ex_sess 3) = Some s' \<and> table (a_sess s') ps' \<and>
    (token_step (presented ex_ext (rq_daemon ex_reboot) ((ex_api (ex_sess 3) [])\<lparr>a_hdf := cgi_init (rq_cgi ex_reboot)\<rparr>)))\<^sup>*\<^sup>*
      [(2, ex_session)] ps'"
proof -
  obtain s' where s': "ex_run [ex_reboot] (ex_sess 3) = Some s'" using ex_reboot_refused by auto
  have "cgi_strings ex_ext (rq_cgi ex_reboot)" by (auto simp: ex_reboot_def cgi_strings_def query_strings_def ex_cgi_def)
  moreover have "times_ok ex_reboot" using ex_times_ok [of "[]"] by (simp add: times_ok_def ex_reboot_def)
  ultimately show ?thesis
    using serve_refines_tokens [of ex_ext ex_reboot "ex_api (ex_sess 3) []" "[(2, ex_session)]" "''NB6''" "\<lambda>_. True" ex_xml True True s'] s'
    unfolding ex_run_def by simp
qed

subsection \<open>The state of the hook\<close>

text \<open>
  C39: The telephone method tests the wrong array: although the daemon says that the line is up, the state of the
  hook is reported as unknown unless the text that the buffer happens to hold, the name of the access
  network, begins with \<open>up\<close>.
\<close>

theorem hook_status_wrong_array:
  assumes "D h [''status'', ''get'', ''voip_up''] = (0, ''up'')" and "length status = 256" and "read_str status = Some t"
    and "take 2 t \<noteq> ''up''" and "NUL \<notin> set t"
  shows "\<exists>b. nbl_voip_get_hook_status D h status 256 = Some (NBU_SUCCESS, b) \<and> read_str b = Some ''unknown''"
proof -
  have "query_fits [''status'', ''get'', ''voip_up'']" by (simp add: query_fits_def query_room_def)
  then obtain vb where up: "nbd_status_get D h ''voip_up'' (uninit 5) 5 = Some (0, vb)"
    using assms(1) by (simp add: nbd_status_get_def nbd_get_Some answer_spec_def uninit_def)
  have u: "unat (2 :: u32) = 2" "sint (2 :: u32) = 2" by (simp_all add: sint_u32)
  have "take 2 t \<noteq> take 2 ''up''" using assms(4) by simp
  then obtain c where c: "nbu_string_ncompare (Some t) 2 (Some ''up'') = Some c" "c \<noteq> 0"
    using assms(5) u by (simp add: nbu_string_ncompare_def strncmp_eq_0)
  have "room status 256" using assms(2) by (simp add: room_def)
  then obtain b' where "nbu_string_printf (Some status) 256 (Some ''unknown'') = Some (NBU_SUCCESS, Some (''unknown'' @ NUL # b'))"
    by (rule string_printf_ok [of status 256 "''unknown''"]) auto
  moreover have "read_str (''unknown'' @ NUL # b') = Some ''unknown''" by (rule read_str_append_NUL) simp
  ultimately show ?thesis using up c assms(3) by (simp add: nbl_voip_get_hook_status_def)
qed

theorem hook_status_wrong_array_witness:
  "\<exists>b. nbl_voip_get_hook_status (\<lambda>h args. (0, ''up'')) [] (''adsl'' @ replicate 252 NUL) 256 = Some (NBU_SUCCESS, b) \<and> read_str b = Some ''unknown''"
proof -
  have "read_str (''adsl'' @ NUL # replicate 251 NUL) = Some ''adsl''" by (rule read_str_append_NUL) simp
  moreover have "replicate 252 NUL = NUL # replicate 251 NUL" by (simp add: replicate_Suc [symmetric] del: replicate_Suc)
  ultimately show ?thesis
    using hook_status_wrong_array [of "\<lambda>h args. (0, ''up'')" "[]" "''adsl'' @ replicate 252 NUL" "''adsl''"] by simp
qed

end
