(* ===== verification/Spec2Isabelle.thy ===== *)
theory Spec2Isabelle
  imports Api_Session Www_Login Www_Kit Nbu_List_Spec Nbu_Split Nbu_Net Etk_Queue Nbd_Voip Api_Safety
begin

text \<open>
  The configuration stack of the neufbox, a home router: the C programs under \<open>src/efixo\<close> through which a user
  or another program looks at the box and changes it.

  \<^bold>\<open>Parts.\<close>  The settings are kept by a daemon, nbd.  \<open>libnbd\<close> sends it queries over a socket.  Two FastCGI programs
  use libnbd: the web interface (\<open>efixo-www\<close>), pages on top of the framework \<open>libewf\<close> with its page table, sessions
  and log-in, and the REST API (\<open>efixo-api\<close>), a table of methods with tokens of its own.  All use the
  lists, strings and addresses of \<open>libnbu\<close>; \<open>libetk\<close> has the byte queue.  The telephone daemon reports
  its calls through \<open>voip.c\<close> of libnbd.

  \<^bold>\<open>Conventions.\<close>  \<open>None\<close> in \<^typ>\<open>'a exec\<close> is a run without a defined outcome: an access outside an array, a NULL pointer
  that is followed, signed overflow, or a loop that does not end.  Results of functions are the integers of the
  source.  An array is the list of its bytes, and bytes that nobody wrote are 0xFF or an argument.  Lists and
  sessions live in an explicit memory (\<open>Nbu_Heap\<close>) whose allocation fails once \<open>m_avail\<close> is used up.
  The nbd daemon (\<open>nbd_daemon\<close>), the ClearSilver data set (\<open>ewf_ext\<close>, \<open>cgi_ext\<close>), SHA-256, PCRE and the XML parser (\<open>ezxml\<close>)
  are arguments; what is used of them is a named hypothesis (\<open>hdf_laws\<close>, \<open>sha2_laws\<close>, \<open>cgi_strings\<close>), with an instance
  in the examples.  The calls that change the box are kept as a history in the order they are sent.

  \<^bold>\<open>Theories.\<close>
  \<^item> \<open>Prelude\<close>, \<open>C_Lib\<close>, \<open>U32_Bits\<close>, \<open>Ring\<close>: results, 32-bit arithmetic, the functions of the C library that are used, bits
    of words, doubly linked rings.
  \<^item> \<open>Nbu_Heap\<close>, \<open>Nbu_List\<close>, \<open>Nbu_Iter\<close>, \<open>Nbu_Sort\<close>, \<open>Nbu_Objs\<close>, \<open>Nbu_List_Spec\<close>: \<open>libnbu/list.c\<close>.  Nodes and headers; an invariant
    that ties the pointers to a sequence; every operation as an operation on the sequence; sorting;
    lists that own their objects; the contract of \<open>nbu/list.h\<close>.
  \<^item> \<open>Nbu_String\<close>, \<open>Nbu_Split\<close>, \<open>Nbu_Net\<close>: \<open>libnbu/string.c\<close> and \<open>net.c\<close>.  When the split returns, and that it makes the
    pieces of a reference definition; validation and round trips of addresses.
  \<^item> \<open>Session_Table\<close>, \<open>Ewf_Session\<close>, \<open>Api_Session\<close>: the two \<open>ewf_session.c\<close>.  The locale \<open>session_table\<close> states what a table of
    sessions promises and is interpreted for both.
  \<^item> \<open>Ewf_Hdf\<close>, \<open>Ewf_Smith\<close>, \<open>Ewf_Web\<close>: libewf.  Data set and input filter, log-in and access control (\<open>ewf_smith.c\<close>),
    dispatcher, controller and renderer.  Access control refines an abstract check; a log-in grants later
    requests, a log-out ends that; no handler of a private page runs for a request that is refused.
  \<^item> \<open>Nbd_Core\<close>, \<open>Nbd_Client\<close>, \<open>Nbd_Xml\<close>: \<open>core.c\<close> of libnbd and the calls built on it.  Layout of a query, read and write
    loops, reconnection, the answer; which arguments fit a query.
  \<^item> \<open>Nbd_Voip\<close>: the log of telephone calls as a machine with one rule per reported event (\<open>voip_step\<close>).
  \<^item> \<open>Www_Dbl\<close>, \<open>Www_Login\<close>, \<open>Www_Kit\<close>: \<open>dbl.c\<close>, the pages log-in and log-out, the hooks of \<open>main.c\<close>, and the public pages of the
    installation kit: what they reach, and that a transaction is committed as a whole or not at all.
  \<^item> \<open>Api_Common\<close>, \<open>Api_Auth\<close>, \<open>Api_Main\<close>: \<open>api_common.c\<close>, \<open>ctl/auth.c\<close> and \<open>api_main.c\<close>.  Effects of every step on the session table; the
    abstract token machine \<open>token_step\<close>.
  \<^item> \<open>Api_Ctl\<close>, \<open>Api_Safety\<close>: all methods under \<open>ctl/\<close>, their table, and the properties of the whole program over
    sequences of requests.
  \<^item> \<open>Etk_Fifo\<close>, \<open>Etk_Queue\<close>: \<open>fifo.c\<close> and \<open>fifo.h\<close> of libetk.  The locale \<open>bounded_queue\<close> is interpreted for the ring of bytes with
    its 32-bit indices that wrap around.

  Some theorems state what the code does where that is not what it means to do: the challenge of the log-in page
  opens private pages (\<open>challenge_bypasses_login\<close>), long arguments overflow a query (\<open>query_overflow\<close>, \<open>kit_set_overflow\<close>), and
  others whose text says so.

  \<^bold>\<open>Bounds and loops.\<close>  No fuel is used.  The loops over linked nodes and the split of a string are partial functions whose
  \<open>None\<close> is not returning; that they return is proved.  The sixty attempts to open the socket again and
  the fixed tables are recursions over what the source counts.

  \<^bold>\<open>Not modelled.\<close>  Process set-up, signals, logging and files (\<open>api_signal.c\<close>, \<open>api_init\<close>, \<open>ewf_core.c\<close> beyond one turn of its loop, \<open>libnbu/file.c\<close>,
  \<open>log.c\<close>) are calls of the operating system.  The mutex of the link is left out: one thread uses it.  \<open>nbu_list_serialize\<close> and
  \<open>nbu_list_unserialize\<close> copy raw memory.  Calls of libnbd that read a binary value into an integer (\<open>nbd_nat_upnp_count\<close>, \<open>nbd_get_reg_wui\<close>,
  \<open>nbd_voip_get_line_voltage\<close>) and its further files with a single call each add nothing to the query protocol.  The remaining pages of the
  web interface fill templates with the macros of \<open>Www_Dbl\<close>.  The rest of libetk, \<open>efixo-lan-topology\<close>, \<open>efixo-bcm53xx\<close> and
  \<open>efixo-tools\<close> work on sockets and device registers.  The builds with \<open>NB5\<close>, \<open>DEBUG\<close> and \<open>DMALLOC\<close> are not considered.  \<open>openwrt\<close>, \<open>packages\<close>,
  \<open>broadcom\<close> and \<open>atheros\<close> are vendored.
\<close>

end
